(* ===== verification/Prelude.thy ===== *)
theory Prelude
  imports Complex_Main "HOL-Library.Word" "HOL-Library.State_Monad"
begin

unbundle bit_operations_syntax

text \<open>
  Shared vocabulary of the development: the machine types of the C++ sources, the
  big-endian byte codec that XDR uses, the conversions between the two IEEE formats, the
  small vector types of glm, and the lemmas about lists, options and state monads that
  the component theories share.

  An \<^emph>\<open>indeterminate\<close> object (a C++ scalar that no statement has written yet) is
  \<^term>\<open>None\<close>; a scalar that has been written is \<^term>\<open>Some v\<close>.
\<close>

named_theorems codec_simps
named_theorems reader_simps
named_theorems geom_simps
named_theorems manager_simps

type_synonym byte = "8 word"
type_synonym uint32 = "32 word"
type_synonym uint64 = "64 word"
type_synonym float32 = "32 word"    \<comment> \<open>the bit pattern of a C++ float\<close>
type_synonym float64 = "64 word"    \<comment> \<open>the bit pattern of a C++ double\<close>
type_synonym 'a cell = "'a option"  \<comment> \<open>None: indeterminate\<close>

definition initialised :: "'a cell \<Rightarrow> bool" where
  "initialised c \<longleftrightarrow> (case c of None \<Rightarrow> False | Some _ \<Rightarrow> True)"

lemma initialised_simps [simp]: "initialised (Some x)" "\<not> initialised None"
    "initialised (map_option f c) = initialised c"
  by (simp_all add: initialised_def split: option.splits)

section \<open>Options\<close>

lemma bind_SomeE:
  assumes "Option.bind x f = Some y"
  obtains a where "x = Some a" and "f a = Some y"
  using assms by (cases x) auto

lemma bind_pairE:
  assumes "Option.bind x (\<lambda>(a, b). f a b) = Some y"
  obtains a b where "x = Some (a, b)" and "f a b = Some y"
  using assms by (cases x) auto

section \<open>Big-endian byte strings\<close>

definition be_val :: "byte list \<Rightarrow> nat" where
  "be_val bs = foldl (\<lambda>a b. a * 256 + unat b) 0 bs"

fun be_enc :: "nat \<Rightarrow> nat \<Rightarrow> byte list" where
  "be_enc 0 n = []"
| "be_enc (Suc k) n = be_enc k (n div 256) @ [of_nat (n mod 256)]"

lemma length_be_enc [simp]: "length (be_enc k n) = k"
  by (induction k arbitrary: n) auto

lemma be_val_snoc [simp]: "be_val (bs @ [b]) = be_val bs * 256 + unat b"
  by (simp add: be_val_def)

lemma be_val_Nil [simp]: "be_val [] = 0"
  by (simp add: be_val_def)

lemma unat_byte_less [simp]: "unat (b :: byte) < 256"
  using unsigned_less [of b, where ?'a = nat] by simp

lemma unat_of_nat_byte: "n < 256 \<Longrightarrow> unat (of_nat n :: byte) = n"
  by (simp add: unat_of_nat)

lemma be_val_enc [codec_simps]: "be_val (be_enc k n) = n mod 256 ^ k"
proof (induction k arbitrary: n)
  case 0
  then show ?case by simp
next
  case (Suc k)
  have "be_val (be_enc (Suc k) n) = (n div 256) mod 256 ^ k * 256 + n mod 256"
    using Suc by (simp add: unat_of_nat_byte)
  also have "\<dots> = n mod 256 ^ Suc k"
    by (metis mult.commute mod_mult2_eq power_Suc)
  finally show ?case .
qed

lemma be_val_bound: "be_val bs < 256 ^ length bs"
proof (induction bs rule: rev_induct)
  case Nil
  then show ?case by simp
next
  case (snoc b bs)
  have "be_val bs * 256 + unat b < (be_val bs + 1) * 256" by simp
  also have "\<dots> \<le> 256 ^ length bs * 256" using snoc by simp
  finally show ?case by simp
qed

lemma be_enc_val: "length bs = k \<Longrightarrow> be_enc k (be_val bs) = bs"
proof (induction bs arbitrary: k rule: rev_induct)
  case Nil
  then show ?case by simp
next
  case (snoc b bs)
  then obtain k' where k: "k = Suc k'" "length bs = k'" by (cases k) auto
  have b: "unat b < 256" by simp
  from snoc.IH [OF k(2)] b show ?case
    by (simp add: k(1) div_mult_self1 [of 256])
qed

section \<open>IEEE 754 widening and narrowing on bit patterns\<close>

text \<open>
  \<open>f32_to_f64\<close> is the conversion \<open>static_cast<double>(float)\<close>, \<open>f64_to_f32\<close> the
  conversion \<open>(float) double\<close> in the default rounding mode (to nearest, ties to even).
\<close>

definition round_half_even :: "nat \<Rightarrow> nat \<Rightarrow> nat" where
  "round_half_even x k =
     (let q = x div 2 ^ k; r = x mod 2 ^ k; h = 2 ^ k div 2
      in if r > h \<or> (r = h \<and> odd q \<and> k > 0) then q + 1 else q)"

fun msb_index :: "nat \<Rightarrow> nat" where
  "msb_index n = (if n \<le> 1 then 0 else Suc (msb_index (n div 2)))"

declare msb_index.simps [simp del]

definition f32_to_f64 :: "float32 \<Rightarrow> float64" where
  "f32_to_f64 w =
     (let x = unat w; s = x div 2 ^ 31; e = (x div 2 ^ 23) mod 2 ^ 8; m = x mod 2 ^ 23
      in of_nat (s * 2 ^ 63 +
          (if e = 255 then
             2047 * 2 ^ 52 + (if m = 0 then 0 else m * 2 ^ 29 + (if m < 2 ^ 22 then 2 ^ 51 else 0))
           else if e = 0 then
             (if m = 0 then 0
              else (let p = msb_index m in (p + 874) * 2 ^ 52 + (m - 2 ^ p) * 2 ^ (52 - p)))
           else (e + 896) * 2 ^ 52 + m * 2 ^ 29)))"

definition f64_to_f32 :: "float64 \<Rightarrow> float32" where
  "f64_to_f32 w =
     (let x = unat w; s = x div 2 ^ 63; e = (x div 2 ^ 52) mod 2 ^ 11; m = x mod 2 ^ 52
      in of_nat (s * 2 ^ 31 +
          (if e = 2047 then
             255 * 2 ^ 23 + (if m = 0 then 0
                             else 2 ^ 22 + (m div 2 ^ 29) mod 2 ^ 22)
           else if e \<ge> 897 then
             min (255 * 2 ^ 23) ((e - 897) * 2 ^ 23 + round_half_even (2 ^ 52 + m) 29)
           else if e = 0 then 0
           else round_half_even (2 ^ 52 + m) (926 - e))))"

section \<open>The vector types of glm\<close>

datatype 'a vec2 = V2 (v2x: 'a) (v2y: 'a)
datatype 'a vec3 = V3 (v3x: 'a) (v3y: 'a) (v3z: 'a)
datatype 'a vec4 = V4 (v4r: 'a) (v4g: 'a) (v4b: 'a) (v4a: 'a)

end
