(* ===== verification/XStream.thy ===== *)
theory XStream
  imports Prelude
begin

unbundle bit_operations_syntax

text \<open>
  The XDR stream classes of \<^verbatim>\<open>asymptote/xstream.h\<close> and \<^verbatim>\<open>asymptote/xstream.cc\<close>, over the
  XDR primitives of \<^verbatim>\<open>asymptote/win32xdr.h\<close> and \<^verbatim>\<open>asymptote/win32xdr.cc\<close> (the repository's own
  implementation of the interface that libtirpc offers on other platforms).

  An input stream is a \<open>FILE\<close> opened for reading (its contents and its position) with the
  \<open>_state\<close> word of class \<open>xios\<close>. A read returns \<^term>\<open>None\<close> when it leaves its target
  untouched. Output streams are the byte lists they produce.
\<close>

section \<open>The stream state (class xios, class ixstream)\<close>

record ixstream =
  xs_data :: "byte list"
  xs_pos :: nat
  xs_state :: int

definition goodbit :: int where "goodbit = 0"
definition eofbit :: int where "eofbit = 1"
definition failbit :: int where "failbit = 2"
definition badbit :: int where "badbit = 4"

definition xios_good :: "ixstream \<Rightarrow> bool" where
  "xios_good s \<longleftrightarrow> xs_state s = 0"

definition xios_eof :: "ixstream \<Rightarrow> bool" where
  "xios_eof s \<longleftrightarrow> xs_state s AND eofbit \<noteq> 0"

definition xios_fail :: "ixstream \<Rightarrow> bool" where
  "xios_fail s \<longleftrightarrow> \<not> xios_good s"

definition xios_bad :: "ixstream \<Rightarrow> bool" where
  "xios_bad s \<longleftrightarrow> xs_state s AND badbit \<noteq> 0"

definition xios_clear :: "int \<Rightarrow> ixstream \<Rightarrow> ixstream" where
  "xios_clear state s = s\<lparr>xs_state := state\<rparr>"

definition xios_set :: "int \<Rightarrow> ixstream \<Rightarrow> ixstream" where
  "xios_set flag s = s\<lparr>xs_state := xs_state s OR flag\<rparr>"

text \<open>\<open>ixstream::open\<close>: \<open>fopen\<close> yields the file's contents, or fails and sets \<open>badbit\<close>.
  \<open>memixstream\<close> opens the same kind of stream over a memory block.\<close>

definition ixstream_open :: "byte list option \<Rightarrow> ixstream" where
  "ixstream_open f =
     (case f of
        Some bs \<Rightarrow> xios_clear 0 \<lparr>xs_data = bs, xs_pos = 0, xs_state = 0\<rparr>
      | None \<Rightarrow> xios_set badbit (xios_clear 0 \<lparr>xs_data = [], xs_pos = 0, xs_state = 0\<rparr>))"

definition memixstream :: "byte list \<Rightarrow> ixstream" where
  "memixstream bs = \<lparr>xs_data = bs, xs_pos = 0, xs_state = 0\<rparr>"

section \<open>Seeking (xstream::seek, xstream::tell)\<close>

datatype seekdir = Beg | Cur | End

text \<open>\<open>fseeko\<close> fails exactly when the target offset is negative.\<close>

definition seek_target :: "ixstream \<Rightarrow> int \<Rightarrow> seekdir \<Rightarrow> int" where
  "seek_target s off dir =
     (case dir of Beg \<Rightarrow> off | Cur \<Rightarrow> int (xs_pos s) + off | End \<Rightarrow> int (length (xs_data s)) + off)"

definition xstream_seek :: "int \<Rightarrow> seekdir \<Rightarrow> ixstream \<Rightarrow> ixstream" where
  "xstream_seek off dir s =
     (let s' = xios_clear 0 s; t = seek_target s' off dir
      in if t < 0 then xios_set failbit s' else s'\<lparr>xs_pos := nat t\<rparr>)"

definition xstream_tell :: "ixstream \<Rightarrow> int" where
  "xstream_tell s = int (xs_pos s)"

section \<open>Reading\<close>

text \<open>\<open>fread(&v, n, 1, file)\<close>: either \<open>n\<close> bytes, or a short count that leaves the file at its end.\<close>

definition fread :: "nat \<Rightarrow> ixstream \<Rightarrow> byte list option \<times> ixstream" where
  "fread n s =
     (if xs_pos s + n \<le> length (xs_data s)
      then (Some (take n (drop (xs_pos s) (xs_data s))), s\<lparr>xs_pos := xs_pos s + n\<rparr>)
      else (None, s\<lparr>xs_pos := max (xs_pos s) (length (xs_data s))\<rparr>))"

text \<open>\<open>w32_internal_xdr_u_type\<close> in decoding mode: read the raw bytes, then network to host order.\<close>

definition xdr_u_type :: "nat \<Rightarrow> ixstream \<Rightarrow> nat option \<times> ixstream" where
  "xdr_u_type n s = (case fread n s of (r, s') \<Rightarrow> (map_option be_val r, s'))"

text \<open>The macro \<open>IXSTREAM(T,N)\<close>: a failed primitive sets \<open>eofbit\<close>.\<close>

definition ix_read :: "nat \<Rightarrow> (ixstream, 'a::len word cell) state" where
  "ix_read n = State (\<lambda>s.
     (case xdr_u_type n s of
        (Some v, s') \<Rightarrow> (Some (word_of_nat v), s')
      | (None, s') \<Rightarrow> (None, xios_set eofbit s')))"

definition read_uint32 :: "(ixstream, uint32 cell) state" where
  "read_uint32 = ix_read 4"

definition read_uint64 :: "(ixstream, uint64 cell) state" where
  "read_uint64 = ix_read 8"

definition read_float :: "(ixstream, float32 cell) state" where
  "read_float = ix_read 4"

text \<open>\<open>ixstream::operator>>(double&)\<close> with \<open>singleprecision\<close> as given at construction.\<close>

definition read_double :: "bool \<Rightarrow> (ixstream, float64 cell) state" where
  "read_double singleprecision =
     (if singleprecision
      then do { f \<leftarrow> read_float; State_Monad.return (map_option f32_to_f64 f) }
      else ix_read 8)"

text \<open>\<open>ixstream::operator>>(xbyte&)\<close>: one \<open>fgetc\<close>.\<close>

definition read_xbyte :: "(ixstream, byte cell) state" where
  "read_xbyte = State (\<lambda>s.
     (if xs_pos s < length (xs_data s)
      then (Some (xs_data s ! xs_pos s), s\<lparr>xs_pos := xs_pos s + 1\<rparr>)
      else (None, xios_set eofbit s)))"

definition stream_ok :: "(ixstream, bool) state" where
  "stream_ok = State (\<lambda>s. (xios_good s, s))"

text \<open>Reading \<open>n\<close> items in sequence, as the constructors' \<open>for\<close> loops do.\<close>

fun read_n :: "nat \<Rightarrow> (ixstream, 'a) state \<Rightarrow> (ixstream, 'a list) state" where
  "read_n 0 r = State_Monad.return []"
| "read_n (Suc n) r = do { x \<leftarrow> r; xs \<leftarrow> read_n n r; State_Monad.return (x # xs) }"

section \<open>Writing (macro OXSTREAM, class oxstream)\<close>

definition write_uint32 :: "uint32 \<Rightarrow> byte list" where
  "write_uint32 w = be_enc 4 (unat w)"

definition write_uint64 :: "uint64 \<Rightarrow> byte list" where
  "write_uint64 w = be_enc 8 (unat w)"

definition write_float :: "float32 \<Rightarrow> byte list" where
  "write_float w = be_enc 4 (unat w)"

definition write_double :: "bool \<Rightarrow> float64 \<Rightarrow> byte list" where
  "write_double singleprecision w =
     (if singleprecision then write_float (f64_to_f32 w) else be_enc 8 (unat w))"

definition write_xbyte :: "byte \<Rightarrow> byte list" where
  "write_xbyte b = [b]"

section \<open>What every reader keeps\<close>

text \<open>
  \<open>steady r\<close>: running \<open>r\<close> never changes the file, never moves backwards, never passes the
  end of the file, never clears a failure, and leaves a stream good only if it was good.
  \<open>yields r P\<close>: if the stream is still good after \<open>r\<close>, the value read satisfies \<open>P\<close>.
  \<open>reads r bs v\<close>: on a good stream whose next bytes are \<open>bs\<close>, \<open>r\<close> consumes exactly them and
  returns \<open>v\<close>.
\<close>

definition steady :: "(ixstream, 'a) state \<Rightarrow> bool" where
  "steady r \<longleftrightarrow> (\<forall>s a s'. run_state r s = (a, s') \<longrightarrow>
     xs_data s' = xs_data s \<and> xs_pos s \<le> xs_pos s' \<and>
     (xs_pos s \<le> length (xs_data s) \<longrightarrow> xs_pos s' \<le> length (xs_data s)) \<and>
     (xios_good s' \<longrightarrow> xios_good s))"

definition yields :: "(ixstream, 'a) state \<Rightarrow> ('a \<Rightarrow> bool) \<Rightarrow> bool" where
  "yields r P \<longleftrightarrow> (\<forall>s a s'. run_state r s = (a, s') \<longrightarrow> xios_good s' \<longrightarrow> P a)"

definition reads :: "(ixstream, 'a) state \<Rightarrow> byte list \<Rightarrow> 'a \<Rightarrow> bool" where
  "reads r bs v \<longleftrightarrow> (\<forall>s pre post. xs_data s = pre @ bs @ post \<longrightarrow> xs_pos s = length pre \<longrightarrow>
     xios_good s \<longrightarrow> run_state r s = (v, s\<lparr>xs_pos := length pre + length bs\<rparr>))"

lemma steadyD:
  assumes "steady r" and "run_state r s = (a, s')"
  shows "xs_data s' = xs_data s" and "xs_pos s \<le> xs_pos s'"
    and "xs_pos s \<le> length (xs_data s) \<Longrightarrow> xs_pos s' \<le> length (xs_data s)"
    and "xios_good s' \<Longrightarrow> xios_good s"
  using assms unfolding steady_def by blast+

lemma steady_return [simp, intro]: "steady (State_Monad.return x)"
  by (simp add: steady_def State_Monad.return_def)

lemma steady_bind [intro]:
  assumes "steady r" and "\<And>x. steady (f x)"
  shows "steady (State_Monad.bind r f)"
  unfolding steady_def
proof (intro allI impI)
  fix s a s'
  assume run: "run_state (State_Monad.bind r f) s = (a, s')"
  obtain x t where r: "run_state r s = (x, t)" by fastforce
  with run have f: "run_state (f x) t = (a, s')" by (simp add: State_Monad.bind_def)
  show "xs_data s' = xs_data s \<and> xs_pos s \<le> xs_pos s' \<and>
     (xs_pos s \<le> length (xs_data s) \<longrightarrow> xs_pos s' \<le> length (xs_data s)) \<and>
     (xios_good s' \<longrightarrow> xios_good s)"
    using steadyD [OF assms(1) r] steadyD [OF assms(2) f] by auto
qed

lemma steady_if [intro]: "steady a \<Longrightarrow> steady b \<Longrightarrow> steady (if c then a else b)"
  by simp

lemma steady_read_n [intro]: "steady r \<Longrightarrow> steady (read_n n r)"
  by (induction n) auto

lemma yields_return [intro]: "P x \<Longrightarrow> yields (State_Monad.return x) P"
  by (simp add: yields_def State_Monad.return_def)

lemma yields_bind:
  assumes "yields r P" and "\<And>x. steady (f x)" and "\<And>x. P x \<Longrightarrow> yields (f x) Q"
  shows "yields (State_Monad.bind r f) Q"
  unfolding yields_def
proof (intro allI impI)
  fix s a s'
  assume run: "run_state (State_Monad.bind r f) s = (a, s')" and good: "xios_good s'"
  obtain x t where r: "run_state r s = (x, t)" by fastforce
  with run have f: "run_state (f x) t = (a, s')" by (simp add: State_Monad.bind_def)
  with good have "xios_good t" using steadyD(4) [OF assms(2) f] by blast
  with assms(1) r have "P x" unfolding yields_def by blast
  with assms(3) f good show "Q a" unfolding yields_def by blast
qed

lemma yields_mono: "yields r P \<Longrightarrow> (\<And>x. P x \<Longrightarrow> Q x) \<Longrightarrow> yields r Q"
  unfolding yields_def by blast

lemma yields_read_n:
  assumes "steady r" and "yields r P"
  shows "yields (read_n n r) (\<lambda>xs. length xs = n \<and> list_all P xs)"
proof (induction n)
  case 0
  then show ?case by (simp add: yields_return)
next
  case (Suc n)
  have "yields (do { xs \<leftarrow> read_n n r; State_Monad.return (x # xs) })
     (\<lambda>xs. length xs = Suc n \<and> list_all P xs)" if "P x" for x
    by (rule yields_bind [OF Suc]) (auto intro: yields_return simp: that)
  then show ?case
    using assms by (auto intro!: yields_bind [OF assms(2)])
qed

lemma reads_return [simp, intro]: "reads (State_Monad.return v) [] v"
  by (simp add: reads_def State_Monad.return_def)

lemma reads_bind:
  assumes "reads r bs v" and "reads (f v) cs w"
  shows "reads (State_Monad.bind r f) (bs @ cs) w"
  unfolding reads_def
proof (intro allI impI)
  fix s :: ixstream and pre post
  assume d: "xs_data s = pre @ (bs @ cs) @ post" and p: "xs_pos s = length pre"
    and g: "xios_good s"
  from assms(1) d p g have r: "run_state r s = (v, s\<lparr>xs_pos := length pre + length bs\<rparr>)"
    by (simp add: reads_def)
  let ?t = "s\<lparr>xs_pos := length pre + length bs\<rparr>"
  have "xs_data ?t = (pre @ bs) @ cs @ post" "xs_pos ?t = length (pre @ bs)"
    "xios_good ?t"
    using d g by (simp_all add: xios_good_def)
  with assms(2) have "run_state (f v) ?t = (w, ?t\<lparr>xs_pos := length (pre @ bs) + length cs\<rparr>)"
    unfolding reads_def by blast
  with r show "run_state (State_Monad.bind r f) s
      = (w, s\<lparr>xs_pos := length pre + length (bs @ cs)\<rparr>)"
    by (simp add: State_Monad.bind_def add.assoc)
qed

lemma reads_memixstream:
  assumes "reads r bs v"
  shows "run_state r (memixstream (bs @ post)) = (v, (memixstream (bs @ post))\<lparr>xs_pos := length bs\<rparr>)"
  using assms [unfolded reads_def, rule_format, of "memixstream (bs @ post)" "[]" post]
  by (simp add: memixstream_def xios_good_def)

lemma reads_bind_return:
  "reads r bs v \<Longrightarrow> reads (do { x \<leftarrow> r; State_Monad.return (g x) }) bs (g v)"
  using reads_bind [of r bs v "\<lambda>x. State_Monad.return (g x)" "[]" "g v"] by simp

lemma reads_read_n:
  assumes "\<And>x. x \<in> set xs \<Longrightarrow> reads r (w x) (g x)" and "length xs = n"
  shows "reads (read_n n r) (concat (map w xs)) (map g xs)"
  using assms
proof (induction xs arbitrary: n)
  case Nil
  then show ?case by simp
next
  case (Cons x xs)
  then obtain m where n: "n = Suc m" "length xs = m" by (cases n) auto
  have tl: "reads (read_n m r) (concat (map w xs)) (map g xs)"
    using Cons n by simp
  have "reads (do { ys \<leftarrow> read_n m r; State_Monad.return (g x # ys) })
      (concat (map w xs)) (g x # map g xs)"
    by (rule reads_bind_return [OF tl])
  with Cons.prems(1) [of x] show ?case
    by (simp add: n reads_bind)
qed

section \<open>The interface of a fixed-width XDR field\<close>

text \<open>
  What a scalar of the format promises to the object constructors: the reader is steady,
  a good stream afterwards means the target was written, it reads back what the matching
  \<open>operator<<\<close> wrote, and on a stream with too few bytes left it fails.
\<close>

locale xdr_field =
  fixes rd :: "(ixstream, 'a cell) state"
    and wr :: "'a \<Rightarrow> byte list"
    and width :: nat
  assumes rd_steady: "steady rd"
    and rd_init: "yields rd initialised"
    and rd_wr: "reads rd (wr x) (Some x)"
    and len_wr: "length (wr x) = width"
    and rd_short: "xs_pos s + width > length (xs_data s) \<Longrightarrow>
        \<exists>s'. run_state rd s = (None, s') \<and> xios_fail s'"
begin

lemma array_steady: "steady (read_n n rd)"
  by (rule steady_read_n [OF rd_steady])

lemma array_init: "yields (read_n n rd) (\<lambda>xs. length xs = n \<and> list_all initialised xs)"
  by (rule yields_read_n [OF rd_steady rd_init])

lemma array_roundtrip:
  "length xs = n \<Longrightarrow> reads (read_n n rd) (concat (map wr xs)) (map Some xs)"
  by (rule reads_read_n) (auto intro: rd_wr)

lemma length_concat_wr: "length (concat (map wr xs)) = width * length xs"
  by (induction xs) (simp_all add: len_wr)

lemma wr_inj: "wr x = wr y \<Longrightarrow> x = y"
  using reads_memixstream [OF rd_wr, of x "[]"] reads_memixstream [OF rd_wr, of y "[]"] by simp

end

lemma or_bit_ne_0: "(a :: int) OR 1 \<noteq> 0" "(a :: int) OR 4 \<noteq> 0" "(a :: int) OR 2 \<noteq> 0"
  by (simp_all add: or_eq_0_iff)

lemma not_good_set_eof [simp]: "\<not> xios_good (xios_set eofbit s)"
  by (simp add: xios_good_def xios_set_def eofbit_def or_bit_ne_0)

lemma xios_set_sel [simp]:
  "xs_data (xios_set f s) = xs_data s" "xs_pos (xios_set f s) = xs_pos s"
  by (simp_all add: xios_set_def)

lemma xios_good_pos [simp]: "xios_good (s\<lparr>xs_pos := p\<rparr>) = xios_good s"
  by (simp add: xios_good_def)

lemma steady_ix_read [intro]: "steady (ix_read n)"
  by (auto simp: steady_def ix_read_def xdr_u_type_def fread_def split: if_splits)

lemma yields_ix_read: "yields (ix_read n) initialised"
  by (auto simp: yields_def ix_read_def xdr_u_type_def fread_def split: if_splits)

lemma ix_read_short:
  "xs_pos s + n > length (xs_data s) \<Longrightarrow>
     \<exists>s'. run_state (ix_read n :: (ixstream, 'a::len word cell) state) s = (None, s') \<and> xios_fail s'"
  by (auto simp: ix_read_def xdr_u_type_def fread_def xios_fail_def)

lemma reads_ix_read:
  fixes w :: "'a::len word"
  assumes "LENGTH('a) = 8 * n"
  shows "reads (ix_read n) (be_enc n (unat w)) (Some w)"
proof -
  have "unat w < 256 ^ n"
    using unsigned_less [of w, where ?'a = nat] assms by (simp add: power_mult)
  then have "be_val (be_enc n (unat w)) = unat w" by (simp add: be_val_enc)
  then show ?thesis
    by (simp add: reads_def ix_read_def xdr_u_type_def fread_def)
qed

interpretation u32: xdr_field read_uint32 write_uint32 4
  by unfold_locales
    (auto simp: read_uint32_def write_uint32_def yields_ix_read reads_ix_read ix_read_short)

interpretation u64: xdr_field read_uint64 write_uint64 8
  by unfold_locales
    (auto simp: read_uint64_def write_uint64_def yields_ix_read reads_ix_read ix_read_short)

interpretation f32: xdr_field read_float write_float 4
  by unfold_locales
    (auto simp: read_float_def write_float_def yields_ix_read reads_ix_read ix_read_short)

interpretation f64: xdr_field "read_double False" "write_double False" 8
  by unfold_locales
    (auto simp: read_double_def write_double_def yields_ix_read reads_ix_read ix_read_short)

lemma reads_xbyte: "reads read_xbyte [b] (Some b)"
  by (auto simp: reads_def read_xbyte_def nth_append)

interpretation xb: xdr_field read_xbyte write_xbyte 1
  by unfold_locales
    (auto simp: steady_def yields_def write_xbyte_def reads_xbyte xios_fail_def,
     auto simp: read_xbyte_def split: if_splits)

lemmas field_steady [simp, intro] =
  u32.rd_steady u64.rd_steady f32.rd_steady f64.rd_steady xb.rd_steady

lemma steady_stream_ok [simp, intro]: "steady stream_ok"
  by (simp add: steady_def stream_ok_def)

lemma reads_ok_bind: "reads (f True) bs v \<Longrightarrow> reads (State_Monad.bind stream_ok f) bs v"
  by (simp add: reads_def stream_ok_def State_Monad.bind_def)

end
