(* ===== verification/V3dObjects.thy ===== *)
theory V3dObjects
  imports XStream
begin

text \<open>
  The object classes of \<^verbatim>\<open>v3d-Common/V3dFile/V3dObjects.h\<close> and their stream constructors in
  \<^verbatim>\<open>V3dObjects.cpp\<close>. A scalar member that a failed read leaves unwritten is indeterminate
  (\<^term>\<open>None\<close>). Using an indeterminate value in a condition is undefined behaviour: the
  constructor then returns \<^term>\<open>None\<close>. The bounds \<open>Min\<close>, \<open>Max\<close> that some constructors
  compute from the control points are not part of the parsed object.
\<close>

section \<open>Types (V3dTypes.h, enum ObjectTypes)\<close>

type_synonym UINT = "uint32 cell"
type_synonym REAL = "float64 cell"
type_synonym FLOAT = "float32 cell"

datatype ObjectTypes =
    MATERIAL | TRANSFORM | ELEMENT | CENTERS | HEADER
  | LINE | TRIANGLE | QUAD
  | CURVE | BEZIER_TRIANGLE | BEZIER_PATCH
  | LINE_COLOR | TRIANGLE_COLOR | QUAD_COLOR
  | CURVE_COLOR | BEZIER_TRIANGLE_COLOR | BEZIER_PATCH_COLOR
  | TRIANGLES
  | DISK | CYLINDER | TUBE | SPHERE | HALF_SPHERE
  | ANIMATION
  | PIXEL

fun object_code :: "ObjectTypes \<Rightarrow> uint32" where
  "object_code MATERIAL = 1"
| "object_code TRANSFORM = 2"
| "object_code ELEMENT = 3"
| "object_code CENTERS = 4"
| "object_code HEADER = 5"
| "object_code LINE = 64"
| "object_code TRIANGLE = 65"
| "object_code QUAD = 66"
| "object_code CURVE = 128"
| "object_code BEZIER_TRIANGLE = 129"
| "object_code BEZIER_PATCH = 130"
| "object_code LINE_COLOR = 192"
| "object_code TRIANGLE_COLOR = 193"
| "object_code QUAD_COLOR = 194"
| "object_code CURVE_COLOR = 256"
| "object_code BEZIER_TRIANGLE_COLOR = 257"
| "object_code BEZIER_PATCH_COLOR = 258"
| "object_code TRIANGLES = 512"
| "object_code DISK = 1024"
| "object_code CYLINDER = 1025"
| "object_code TUBE = 1026"
| "object_code SPHERE = 1027"
| "object_code HALF_SPHERE = 1028"
| "object_code ANIMATION = 2048"
| "object_code PIXEL = 4096"

definition all_object_types :: "ObjectTypes list" where
  "all_object_types =
     [MATERIAL, TRANSFORM, ELEMENT, CENTERS, HEADER, LINE, TRIANGLE, QUAD, CURVE,
      BEZIER_TRIANGLE, BEZIER_PATCH, LINE_COLOR, TRIANGLE_COLOR, QUAD_COLOR, CURVE_COLOR,
      BEZIER_TRIANGLE_COLOR, BEZIER_PATCH_COLOR, TRIANGLES, DISK, CYLINDER, TUBE, SPHERE,
      HALF_SPHERE, ANIMATION, PIXEL]"

text \<open>The \<open>switch\<close> on the code: \<^term>\<open>None\<close> is the \<open>default\<close> branch.\<close>

definition object_of_code :: "uint32 \<Rightarrow> ObjectTypes option" where
  "object_of_code c = find (\<lambda>t. object_code t = c) all_object_types"

lemma object_of_code_code [simp]: "object_of_code (object_code t) = Some t"
  by (cases t) (simp_all add: object_of_code_def all_object_types_def)

datatype 'f V3dMaterial = Material
  (diffuse: "'f vec4") (emissive: "'f vec4") (specular: "'f vec4")
  (shininess: 'f) (metallic: 'f) (fresnel0: 'f) (lightOn: 'f)

text \<open>Class \<open>V3dTriangleGroup\<close>: the counts and arrays are initialised by the constructor
  (\<open>nI = 0\<close>, \<open>resize\<close>), the flags, \<open>nC\<close> and the indices only when they are read.\<close>

datatype ('r, 'u, 'f) tri_group = TriGroup
  (tg_nI: uint32) (tg_nP: uint32) (tg_positions: "'r vec3 list")
  (tg_nN: 'u) (tg_normals: "'r vec3 list") (tg_explicitNI: 'u)
  (tg_nC: 'u) (tg_colors: "float32 vec4 list") (tg_explicitCI: 'u)
  (tg_PI: "uint32 vec3 list") (tg_NI: "uint32 vec3 list") (tg_CI: "uint32 vec3 list")
  (tg_centerIndex: 'u) (tg_materialIndex: 'u)

datatype ('r, 'u, 'f) v3d_object =
    V3dBezierPatch "'r vec3 list" 'u 'u
  | V3dBezierTriangle "'r vec3 list" 'u 'u
  | V3dBezierPatchWithCornerColors "'r vec3 list" 'u 'u "'f vec4 list"
  | V3dBezierTriangleWithCornerColors "'r vec3 list" 'u 'u "'f vec4 list"
  | V3dStraightPlanarQuad "'r vec3 list" 'u 'u
  | V3dStraightTriangle "'r vec3 list" 'u 'u
  | V3dStraightPlanarQuadWithCornerColors "'r vec3 list" 'u 'u "'f vec4 list"
  | V3dStraightTriangleWithCornerColors "'r vec3 list" 'u 'u "'f vec4 list"
  | V3dTriangleGroup "('r, 'u, 'f) tri_group"
  | V3dSphere "'r vec3" 'r 'u 'u
  | V3dHemiSphere "'r vec3" 'r 'u 'u 'r 'r
  | V3dDisk "'r vec3" 'r 'u 'u 'r 'r
  | V3dCylinder "'r vec3" 'r 'r 'u 'u 'r 'r 'u
  | V3dTube "'r vec3 list" 'r 'u 'u 'u
  | V3dBezierCurve "'r vec3 list" 'u 'u
  | V3dLineSegment "'r vec3 list" 'u 'u
  | V3dPixel "'r vec3" 'r 'u

type_synonym parsed_object = "(REAL, UINT, FLOAT) v3d_object"

fun objectType :: "('r, 'u, 'f) v3d_object \<Rightarrow> ObjectTypes" where
  "objectType (V3dBezierPatch _ _ _) = BEZIER_PATCH"
| "objectType (V3dBezierTriangle _ _ _) = BEZIER_TRIANGLE"
| "objectType (V3dBezierPatchWithCornerColors _ _ _ _) = BEZIER_PATCH_COLOR"
| "objectType (V3dBezierTriangleWithCornerColors _ _ _ _) = BEZIER_TRIANGLE_COLOR"
| "objectType (V3dStraightPlanarQuad _ _ _) = QUAD"
| "objectType (V3dStraightTriangle _ _ _) = TRIANGLE"
| "objectType (V3dStraightPlanarQuadWithCornerColors _ _ _ _) = QUAD_COLOR"
| "objectType (V3dStraightTriangleWithCornerColors _ _ _ _) = TRIANGLE_COLOR"
| "objectType (V3dTriangleGroup _) = TRIANGLES"
| "objectType (V3dSphere _ _ _ _) = SPHERE"
| "objectType (V3dHemiSphere _ _ _ _ _ _) = HALF_SPHERE"
| "objectType (V3dDisk _ _ _ _ _ _) = DISK"
| "objectType (V3dCylinder _ _ _ _ _ _ _ _) = CYLINDER"
| "objectType (V3dTube _ _ _ _ _) = TUBE"
| "objectType (V3dBezierCurve _ _ _) = CURVE"
| "objectType (V3dLineSegment _ _ _) = LINE"
| "objectType (V3dPixel _ _ _) = PIXEL"

section \<open>Scalars and small aggregates\<close>

text \<open>\<open>readReal\<close> (\<^verbatim>\<open>V3dUtil.cpp\<close>).\<close>

definition readReal :: "uint32 \<Rightarrow> (ixstream, REAL) state" where
  "readReal doublePrecision =
     (if doublePrecision \<noteq> 0 then read_double False
      else do { val \<leftarrow> read_float; State_Monad.return (map_option f32_to_f64 val) })"

definition read_TRIPLE :: "uint32 \<Rightarrow> (ixstream, REAL vec3) state" where
  "read_TRIPLE dp = do {
     x \<leftarrow> readReal dp; y \<leftarrow> readReal dp; z \<leftarrow> readReal dp;
     State_Monad.return (V3 x y z) }"

definition read_RGBA :: "(ixstream, FLOAT vec4) state" where
  "read_RGBA = do {
     r \<leftarrow> read_float; g \<leftarrow> read_float; b \<leftarrow> read_float; a \<leftarrow> read_float;
     State_Monad.return (V4 r g b a) }"

text \<open>A read into an object that was value-initialised keeps \<open>0\<close> when it fails.\<close>

definition or_zero :: "'a::zero cell \<Rightarrow> 'a" where
  "or_zero c = (case c of Some v \<Rightarrow> v | None \<Rightarrow> 0)"

lemma or_zero_Some [simp]: "or_zero (Some x) = x"
  by (simp add: or_zero_def)

definition read_indices :: "(ixstream, uint32 vec3) state" where
  "read_indices = do {
     a \<leftarrow> read_uint32; b \<leftarrow> read_uint32; c \<leftarrow> read_uint32;
     State_Monad.return (V3 (or_zero a) (or_zero b) (or_zero c)) }"

section \<open>The stream constructors\<close>

definition read_points_ci_mi ::
  "nat \<Rightarrow> (REAL vec3 list \<Rightarrow> UINT \<Rightarrow> UINT \<Rightarrow> 'a) \<Rightarrow> uint32 \<Rightarrow> (ixstream, 'a) state" where
  "read_points_ci_mi n C dp = do {
     pts \<leftarrow> read_n n (read_TRIPLE dp);
     centerIndex \<leftarrow> read_uint32;
     materialIndex \<leftarrow> read_uint32;
     State_Monad.return (C pts centerIndex materialIndex) }"

definition read_points_ci_mi_colors ::
  "nat \<Rightarrow> nat \<Rightarrow> (REAL vec3 list \<Rightarrow> UINT \<Rightarrow> UINT \<Rightarrow> FLOAT vec4 list \<Rightarrow> 'a) \<Rightarrow>
   uint32 \<Rightarrow> (ixstream, 'a) state" where
  "read_points_ci_mi_colors n k C dp = do {
     pts \<leftarrow> read_n n (read_TRIPLE dp);
     centerIndex \<leftarrow> read_uint32;
     materialIndex \<leftarrow> read_uint32;
     cornerColors \<leftarrow> read_n k read_RGBA;
     State_Monad.return (C pts centerIndex materialIndex cornerColors) }"

definition ctor_BezierPatch :: "uint32 \<Rightarrow> (ixstream, parsed_object) state" where
  "ctor_BezierPatch = read_points_ci_mi 16 V3dBezierPatch"

definition ctor_BezierTriangle :: "uint32 \<Rightarrow> (ixstream, parsed_object) state" where
  "ctor_BezierTriangle = read_points_ci_mi 10 V3dBezierTriangle"

definition ctor_BezierPatchWithCornerColors :: "uint32 \<Rightarrow> (ixstream, parsed_object) state" where
  "ctor_BezierPatchWithCornerColors =
     read_points_ci_mi_colors 16 4 V3dBezierPatchWithCornerColors"

definition ctor_BezierTriangleWithCornerColors :: "uint32 \<Rightarrow> (ixstream, parsed_object) state" where
  "ctor_BezierTriangleWithCornerColors =
     read_points_ci_mi_colors 10 3 V3dBezierTriangleWithCornerColors"

definition ctor_StraightPlanarQuad :: "uint32 \<Rightarrow> (ixstream, parsed_object) state" where
  "ctor_StraightPlanarQuad = read_points_ci_mi 4 V3dStraightPlanarQuad"

definition ctor_StraightTriangle :: "uint32 \<Rightarrow> (ixstream, parsed_object) state" where
  "ctor_StraightTriangle = read_points_ci_mi 3 V3dStraightTriangle"

definition ctor_StraightPlanarQuadWithCornerColors ::
  "uint32 \<Rightarrow> (ixstream, parsed_object) state" where
  "ctor_StraightPlanarQuadWithCornerColors =
     read_points_ci_mi_colors 4 4 V3dStraightPlanarQuadWithCornerColors"

definition ctor_StraightTriangleWithCornerColors ::
  "uint32 \<Rightarrow> (ixstream, parsed_object) state" where
  "ctor_StraightTriangleWithCornerColors =
     read_points_ci_mi_colors 3 3 V3dStraightTriangleWithCornerColors"

definition ctor_Sphere :: "uint32 \<Rightarrow> (ixstream, parsed_object) state" where
  "ctor_Sphere dp = do {
     center \<leftarrow> read_TRIPLE dp; radius \<leftarrow> readReal dp;
     centerIndex \<leftarrow> read_uint32; materialIndex \<leftarrow> read_uint32;
     State_Monad.return (V3dSphere center radius centerIndex materialIndex) }"

definition ctor_HemiSphere :: "uint32 \<Rightarrow> (ixstream, parsed_object) state" where
  "ctor_HemiSphere dp = do {
     center \<leftarrow> read_TRIPLE dp; radius \<leftarrow> readReal dp;
     centerIndex \<leftarrow> read_uint32; materialIndex \<leftarrow> read_uint32;
     polarAngle \<leftarrow> readReal dp; azimuthalAngle \<leftarrow> readReal dp;
     State_Monad.return
       (V3dHemiSphere center radius centerIndex materialIndex polarAngle azimuthalAngle) }"

definition ctor_Disk :: "uint32 \<Rightarrow> (ixstream, parsed_object) state" where
  "ctor_Disk dp = do {
     center \<leftarrow> read_TRIPLE dp; radius \<leftarrow> readReal dp;
     centerIndex \<leftarrow> read_uint32; materialIndex \<leftarrow> read_uint32;
     polarAngle \<leftarrow> readReal dp; azimuthalAngle \<leftarrow> readReal dp;
     State_Monad.return
       (V3dDisk center radius centerIndex materialIndex polarAngle azimuthalAngle) }"

definition ctor_Cylinder :: "uint32 \<Rightarrow> (ixstream, parsed_object) state" where
  "ctor_Cylinder dp = do {
     center \<leftarrow> read_TRIPLE dp; radius \<leftarrow> readReal dp; height \<leftarrow> readReal dp;
     centerIndex \<leftarrow> read_uint32; materialIndex \<leftarrow> read_uint32;
     polarAngle \<leftarrow> readReal dp; azimuthalAngle \<leftarrow> readReal dp;
     core \<leftarrow> read_uint32;
     State_Monad.return
       (V3dCylinder center radius height centerIndex materialIndex
          polarAngle azimuthalAngle core) }"

definition ctor_Tube :: "uint32 \<Rightarrow> (ixstream, parsed_object) state" where
  "ctor_Tube dp = do {
     pts \<leftarrow> read_n 4 (read_TRIPLE dp); width \<leftarrow> readReal dp;
     centerIndex \<leftarrow> read_uint32; materialIndex \<leftarrow> read_uint32;
     core \<leftarrow> read_uint32;
     State_Monad.return (V3dTube pts width centerIndex materialIndex core) }"

definition ctor_BezierCurve :: "uint32 \<Rightarrow> (ixstream, parsed_object) state" where
  "ctor_BezierCurve = read_points_ci_mi 4 V3dBezierCurve"

definition ctor_LineSegment :: "uint32 \<Rightarrow> (ixstream, parsed_object) state" where
  "ctor_LineSegment = read_points_ci_mi 2 V3dLineSegment"

definition ctor_Pixel :: "uint32 \<Rightarrow> (ixstream, parsed_object) state" where
  "ctor_Pixel dp = do {
     position \<leftarrow> read_TRIPLE dp; width \<leftarrow> readReal dp;
     materialIndex \<leftarrow> read_uint32;
     State_Monad.return (V3dPixel position width materialIndex) }"

subsection \<open>V3dTriangleGroup\<close>

definition tg_maxCount :: uint32 where "tg_maxCount = 10000000"

text \<open>One iteration of the index loop.\<close>

definition read_tg_indices ::
  "bool \<Rightarrow> bool \<Rightarrow> (ixstream, uint32 vec3 \<times> uint32 vec3 \<times> uint32 vec3) state" where
  "read_tg_indices explicitNI explicitCI = do {
     pi \<leftarrow> read_indices;
     ni \<leftarrow> (if explicitNI then read_indices else State_Monad.return pi);
     ci \<leftarrow> (if explicitCI then read_indices else State_Monad.return pi);
     State_Monad.return (pi, ni, ci) }"

text \<open>The part of the constructor after \<open>nC\<close> has been read and capped.\<close>

definition read_tg_tail ::
  "uint32 \<Rightarrow> uint32 \<Rightarrow> uint32 \<Rightarrow> REAL vec3 list \<Rightarrow> uint32 \<Rightarrow> REAL vec3 list \<Rightarrow> UINT \<Rightarrow> uint32 \<Rightarrow>
   (ixstream, (REAL, UINT, FLOAT) tri_group option) state" where
  "read_tg_tail dp nI nP P nN N explicitNI nC = do {
     C \<leftarrow> (if nC > 0 then read_n (unat nC) read_RGBA else State_Monad.return []);
     explicitCI \<leftarrow> (if nC > 0 then read_uint32 else State_Monad.return None);
     if nI > 0 \<and> (explicitNI = None \<or> nC > 0 \<and> explicitCI = None)
     then State_Monad.return None
     else do {
       idx \<leftarrow> read_n (unat nI)
         (read_tg_indices (or_zero explicitNI \<noteq> 0) (nC > 0 \<and> or_zero explicitCI \<noteq> 0));
       centerIndex \<leftarrow> read_uint32;
       materialIndex \<leftarrow> read_uint32;
       State_Monad.return (Some (TriGroup nI nP P (Some nN) N explicitNI
         (Some nC) (map (map_vec4 or_zero) C) explicitCI
         (map fst idx) (map (fst \<circ> snd) idx) (map (snd \<circ> snd) idx)
         centerIndex materialIndex)) } }"

definition ctor_TriangleGroup ::
  "uint32 \<Rightarrow> (ixstream, (REAL, UINT, FLOAT) tri_group option) state" where
  "ctor_TriangleGroup dp = do {
     nI0 \<leftarrow> read_uint32; nP0 \<leftarrow> read_uint32;
     let nI = or_zero nI0;
     let nP = or_zero nP0;
     if nI > tg_maxCount \<or> nP > tg_maxCount
     then State_Monad.return
       (Some (TriGroup 0 0 [] None [] None None [] None [] [] [] None None))
     else do {
       P \<leftarrow> read_n (unat nP) (read_TRIPLE dp);
       nN0 \<leftarrow> read_uint32;
       let nN = (if or_zero nN0 > tg_maxCount then 0 else or_zero nN0);
       N \<leftarrow> read_n (unat nN) (read_TRIPLE dp);
       explicitNI \<leftarrow> read_uint32;
       nC0 \<leftarrow> read_uint32;
       case nC0 of
         None \<Rightarrow> State_Monad.return None
       | Some c \<Rightarrow>
           read_tg_tail dp nI nP P nN N explicitNI (if c > tg_maxCount then 0 else c) } }"

section \<open>The constructors are steady readers\<close>

lemma steady_readReal [simp, intro]: "steady (readReal dp)"
  by (auto simp: readReal_def)

lemma steady_read_TRIPLE [simp, intro]: "steady (read_TRIPLE dp)"
  by (auto simp: read_TRIPLE_def)

lemma steady_read_RGBA [simp, intro]: "steady read_RGBA"
  unfolding read_RGBA_def by (intro steady_bind steady_return field_steady)

lemma steady_read_indices [simp, intro]: "steady read_indices"
  unfolding read_indices_def by (intro steady_bind steady_return field_steady)

lemma steady_read_points_ci_mi [simp, intro]: "steady (read_points_ci_mi n C dp)"
  unfolding read_points_ci_mi_def
  by (intro steady_bind steady_read_n steady_return field_steady steady_read_TRIPLE)

lemma steady_read_points_ci_mi_colors [simp, intro]:
  "steady (read_points_ci_mi_colors n k C dp)"
  unfolding read_points_ci_mi_colors_def
  by (intro steady_bind steady_read_n steady_return field_steady steady_read_TRIPLE
      steady_read_RGBA)

lemmas ctor_points_defs =
  ctor_BezierPatch_def ctor_BezierTriangle_def ctor_BezierPatchWithCornerColors_def
  ctor_BezierTriangleWithCornerColors_def ctor_StraightPlanarQuad_def
  ctor_StraightTriangle_def ctor_StraightPlanarQuadWithCornerColors_def
  ctor_StraightTriangleWithCornerColors_def ctor_BezierCurve_def ctor_LineSegment_def

lemmas ctor_solid_defs =
  ctor_Sphere_def ctor_HemiSphere_def ctor_Disk_def ctor_Cylinder_def ctor_Tube_def
  ctor_Pixel_def

lemma steady_ctor_points [simp, intro]:
  "steady (ctor_BezierPatch dp)" "steady (ctor_BezierTriangle dp)"
  "steady (ctor_BezierPatchWithCornerColors dp)"
  "steady (ctor_BezierTriangleWithCornerColors dp)"
  "steady (ctor_StraightPlanarQuad dp)" "steady (ctor_StraightTriangle dp)"
  "steady (ctor_StraightPlanarQuadWithCornerColors dp)"
  "steady (ctor_StraightTriangleWithCornerColors dp)"
  "steady (ctor_BezierCurve dp)" "steady (ctor_LineSegment dp)"
  unfolding ctor_points_defs by simp_all

lemma steady_ctor_solid [simp, intro]:
  "steady (ctor_Sphere dp)" "steady (ctor_HemiSphere dp)" "steady (ctor_Disk dp)"
  "steady (ctor_Cylinder dp)" "steady (ctor_Tube dp)" "steady (ctor_Pixel dp)"
  unfolding ctor_solid_defs
  by (intro steady_bind steady_read_n steady_return field_steady steady_read_TRIPLE
      steady_readReal)+

lemma steady_case_option [intro]:
  "steady a \<Longrightarrow> (\<And>x. steady (b x)) \<Longrightarrow> steady (case c of None \<Rightarrow> a | Some x \<Rightarrow> b x)"
  by (cases c) auto

lemma steady_Let [intro]: "(\<And>x. steady (f x)) \<Longrightarrow> steady (let x = e in f x)"
  by (simp add: Let_def)

lemma steady_read_tg_indices [simp, intro]: "steady (read_tg_indices a b)"
  unfolding read_tg_indices_def
  by (intro steady_bind steady_if steady_return steady_read_indices)

lemma steady_read_tg_tail [simp, intro]: "steady (read_tg_tail dp nI nP P nN N e nC)"
  unfolding read_tg_tail_def
  by (intro steady_bind steady_if steady_return steady_read_n steady_read_RGBA field_steady
      steady_read_tg_indices)

lemma steady_ctor_TriangleGroup [simp, intro]: "steady (ctor_TriangleGroup dp)"
  unfolding ctor_TriangleGroup_def
  by (intro steady_bind steady_if steady_return steady_read_n steady_read_TRIPLE field_steady
      steady_Let steady_case_option steady_read_tg_tail)

section \<open>A stream that is still good has initialised the object\<close>

definition fully_initialised :: "parsed_object \<Rightarrow> bool" where
  "fully_initialised ob \<longleftrightarrow> pred_v3d_object initialised initialised initialised ob"

lemma yields_readReal: "yields (readReal dp) initialised"
proof (cases "dp = 0")
  case True
  then show ?thesis
    unfolding readReal_def
    by (auto intro!: yields_bind [OF f32.rd_init] yields_return)
next
  case False
  then show ?thesis by (simp add: readReal_def f64.rd_init)
qed

lemma yields_read_TRIPLE: "yields (read_TRIPLE dp) (pred_vec3 initialised)"
  unfolding read_TRIPLE_def
  by (intro yields_bind [OF yields_readReal] yields_return steady_bind steady_return
      steady_readReal) auto

lemma yields_read_RGBA: "yields read_RGBA (pred_vec4 initialised)"
  unfolding read_RGBA_def
  by (intro yields_bind [OF f32.rd_init] yields_return steady_bind steady_return
      field_steady) auto

lemma yields_read_points_ci_mi:
  assumes "\<And>pts ci mi. length pts = n \<Longrightarrow> list_all (pred_vec3 initialised) pts \<Longrightarrow>
      initialised ci \<Longrightarrow> initialised mi \<Longrightarrow> Q (C pts ci mi)"
  shows "yields (read_points_ci_mi n C dp) Q"
  unfolding read_points_ci_mi_def
  by (intro yields_bind [OF yields_read_n [OF steady_read_TRIPLE yields_read_TRIPLE]]
      yields_bind [OF u32.rd_init] yields_return steady_bind steady_return field_steady)
    (auto intro: assms)

lemma yields_read_points_ci_mi_colors:
  assumes "\<And>pts ci mi cs. length pts = n \<Longrightarrow> list_all (pred_vec3 initialised) pts \<Longrightarrow>
      initialised ci \<Longrightarrow> initialised mi \<Longrightarrow> length cs = k \<Longrightarrow>
      list_all (pred_vec4 initialised) cs \<Longrightarrow> Q (C pts ci mi cs)"
  shows "yields (read_points_ci_mi_colors n k C dp) Q"
  unfolding read_points_ci_mi_colors_def
  by (intro yields_bind [OF yields_read_n [OF steady_read_TRIPLE yields_read_TRIPLE]]
      yields_bind [OF u32.rd_init] yields_bind [OF yields_read_n [OF steady_read_RGBA
      yields_read_RGBA]] yields_return steady_bind steady_return field_steady steady_read_n
      steady_read_RGBA)
    (auto intro: assms)

lemma yields_ctor_points:
  "yields (ctor_BezierPatch dp) fully_initialised"
  "yields (ctor_BezierTriangle dp) fully_initialised"
  "yields (ctor_BezierPatchWithCornerColors dp) fully_initialised"
  "yields (ctor_BezierTriangleWithCornerColors dp) fully_initialised"
  "yields (ctor_StraightPlanarQuad dp) fully_initialised"
  "yields (ctor_StraightTriangle dp) fully_initialised"
  "yields (ctor_StraightPlanarQuadWithCornerColors dp) fully_initialised"
  "yields (ctor_StraightTriangleWithCornerColors dp) fully_initialised"
  "yields (ctor_BezierCurve dp) fully_initialised"
  "yields (ctor_LineSegment dp) fully_initialised"
  unfolding ctor_points_defs
  by (auto intro!: yields_read_points_ci_mi yields_read_points_ci_mi_colors
      simp: fully_initialised_def list.pred_set)

lemma yields_ctor_solid:
  "yields (ctor_Sphere dp) fully_initialised"
  "yields (ctor_HemiSphere dp) fully_initialised"
  "yields (ctor_Disk dp) fully_initialised"
  "yields (ctor_Cylinder dp) fully_initialised"
  "yields (ctor_Tube dp) fully_initialised"
  "yields (ctor_Pixel dp) fully_initialised"
  unfolding ctor_solid_defs
  by (intro yields_bind [OF yields_read_TRIPLE] yields_bind [OF yields_readReal]
      yields_bind [OF u32.rd_init] yields_return steady_bind steady_return field_steady
      steady_read_n steady_readReal
      yields_bind [OF yields_read_n [OF steady_read_TRIPLE yields_read_TRIPLE]];
      auto simp: fully_initialised_def list.pred_set)+

text \<open>A triangle group is either the empty one left by the size guard, or has all the arrays the
  counts announce. \<open>explicitCI\<close> stays indeterminate when there are no colours.\<close>

definition tg_rejected :: "(REAL, UINT, FLOAT) tri_group" where
  "tg_rejected = TriGroup 0 0 [] None [] None None [] None [] [] [] None None"

definition tg_sound :: "(REAL, UINT, FLOAT) tri_group \<Rightarrow> bool" where
  "tg_sound g \<longleftrightarrow> g = tg_rejected \<or>
     (length (tg_positions g) = unat (tg_nP g) \<and> list_all (pred_vec3 initialised) (tg_positions g) \<and>
      (\<exists>nN. tg_nN g = Some nN \<and> length (tg_normals g) = unat nN) \<and>
      list_all (pred_vec3 initialised) (tg_normals g) \<and>
      (\<exists>nC. tg_nC g = Some nC \<and> length (tg_colors g) = unat nC \<and>
         (nC > 0 \<longrightarrow> initialised (tg_explicitCI g))) \<and>
      initialised (tg_explicitNI g) \<and>
      length (tg_PI g) = unat (tg_nI g) \<and> length (tg_NI g) = unat (tg_nI g) \<and>
      length (tg_CI g) = unat (tg_nI g) \<and>
      unat (tg_nI g) \<le> 10000000 \<and> unat (tg_nP g) \<le> 10000000 \<and>
      initialised (tg_centerIndex g) \<and> initialised (tg_materialIndex g))"

fun sound_object :: "parsed_object \<Rightarrow> bool" where
  "sound_object (V3dTriangleGroup g) = tg_sound g"
| "sound_object ob = fully_initialised ob"

lemma sound_object_fully: "objectType ob \<noteq> TRIANGLES \<Longrightarrow> sound_object ob = fully_initialised ob"
  by (cases ob) auto

lemma yields_conj: "yields r P \<Longrightarrow> yields r Q \<Longrightarrow> yields r (\<lambda>x. P x \<and> Q x)"
  unfolding yields_def by blast

lemma yields_trivial: "yields r (\<lambda>_. True)"
  unfolding yields_def by blast

lemma yields_if: "(c \<Longrightarrow> yields a P) \<Longrightarrow> (\<not> c \<Longrightarrow> yields b P) \<Longrightarrow> yields (if c then a else b) P"
  by simp

lemma yields_case_option:
  "(c = None \<Longrightarrow> yields a P) \<Longrightarrow> (\<And>x. c = Some x \<Longrightarrow> yields (b x) P) \<Longrightarrow>
     yields (case c of None \<Rightarrow> a | Some x \<Rightarrow> b x) P"
  by (cases c) auto

lemma word_le_unat_bound: "\<not> w > tg_maxCount \<Longrightarrow> unat w \<le> 10000000"
  by (simp add: tg_maxCount_def not_less word_le_nat_alt)

lemma yields_read_n_length: "steady r \<Longrightarrow> yields (read_n n r) (\<lambda>xs. length xs = n)"
  by (rule yields_mono [OF yields_read_n [of r "\<lambda>_. True"]]) (auto intro: yields_trivial)

lemma yields_read_tg_tail:
  assumes "length P = unat nP" "list_all (pred_vec3 initialised) P"
    and "length N = unat nN" "list_all (pred_vec3 initialised) N" "initialised explicitNI"
    and "unat nI \<le> 10000000" "unat nP \<le> 10000000"
  shows "yields (read_tg_tail dp nI nP P nN N explicitNI nC) (\<lambda>r. \<exists>g. r = Some g \<and> tg_sound g)"
  unfolding read_tg_tail_def
  apply (rule yields_bind [where P = "\<lambda>C. length C = unat nC"])
    apply (rule yields_if [OF yields_read_n_length [OF steady_read_RGBA] yields_return])
    apply (simp add: word_neq_0_conv [symmetric])
   apply (intro steady_bind steady_if steady_return steady_read_n field_steady
      steady_read_tg_indices)
  apply (rule yields_bind [where P = "\<lambda>e. nC > 0 \<longrightarrow> initialised e"])
    apply (rule yields_if [OF yields_mono [OF u32.rd_init] yields_return], simp, simp)
   apply (intro steady_bind steady_if steady_return steady_read_n field_steady
      steady_read_tg_indices)
  subgoal premises prems for C explicitCI
    using prems assms
    by (intro yields_if yields_bind [OF yields_read_n_length [OF steady_read_tg_indices]]
        yields_bind [OF u32.rd_init] yields_return steady_bind steady_return field_steady)
      (auto simp: initialised_def tg_sound_def)
  done

lemma yields_ctor_TriangleGroup:
  "yields (ctor_TriangleGroup dp) (\<lambda>r. \<exists>g. r = Some g \<and> tg_sound g)"
  unfolding ctor_TriangleGroup_def Let_def
  apply (rule yields_bind [OF u32.rd_init],
      (intro steady_bind steady_if steady_return steady_read_n steady_read_TRIPLE field_steady
      steady_case_option steady_read_tg_tail))
  apply (rule yields_bind [OF u32.rd_init],
      (intro steady_bind steady_if steady_return steady_read_n steady_read_TRIPLE field_steady
      steady_case_option steady_read_tg_tail))
  apply (rule yields_if)
   apply (rule yields_return, simp add: tg_sound_def tg_rejected_def)
  apply (intro yields_bind [OF yields_read_n [OF steady_read_TRIPLE yields_read_TRIPLE]]
      yields_bind [OF u32.rd_init] steady_bind steady_if steady_return steady_read_n
      steady_read_TRIPLE field_steady steady_case_option steady_read_tg_tail)
  apply (rule yields_case_option)
   apply (simp add: initialised_def)
  apply (rule yields_read_tg_tail)
        apply (auto simp: word_le_unat_bound)
  done

end
