(* ===== verification/V3dFile.thy ===== *)
theory V3dFile
  imports V3dObjects
begin

text \<open>
  The loader of \<^verbatim>\<open>v3d-Common/V3dFile/V3dFile.cpp\<close> and the header structure of
  \<^verbatim>\<open>V3dHeaderInfo.h\<close>. The handlers of the \<open>switch\<close> in \<open>V3dFile::load\<close> are state-monad programs
  over the stream that return the updated file and the \<open>stopParsing\<close> flag; the \<open>while\<close> loop is a
  terminating recursive function. A result \<^term>\<open>None\<close> is a run in which the code branches on an
  indeterminate value. The messages written to \<open>std::cout\<close> are not modelled.
\<close>

section \<open>Header information (V3dHeaderInfo.h)\<close>

datatype HeaderTypes =
    CANVAS_WIDTH | CANVAS_HEIGHT | V3D_ABSOLUTE | MIN_BOUND | MAX_BOUND | ORTHOGRAPHIC
  | ANGLE_OF_VIEW | INITIAL_ZOOM | VIEWPORT_SHIFT | VIEWPORT_MARGIN | LIGHT | BACKGROUND
  | ZOOM_FACTOR | ZOOM_PINCH_FACTOR | ZOOM_PINCH_CAP | ZOOM_STEP | SHIFT_HOLD_DISTANCE
  | SHIFT_WAIT_TIME | VIBRATE_TIME | IMAGE

fun header_code :: "HeaderTypes \<Rightarrow> uint32" where
  "header_code CANVAS_WIDTH = 1"
| "header_code CANVAS_HEIGHT = 2"
| "header_code V3D_ABSOLUTE = 3"
| "header_code MIN_BOUND = 4"
| "header_code MAX_BOUND = 5"
| "header_code ORTHOGRAPHIC = 6"
| "header_code ANGLE_OF_VIEW = 7"
| "header_code INITIAL_ZOOM = 8"
| "header_code VIEWPORT_SHIFT = 9"
| "header_code VIEWPORT_MARGIN = 10"
| "header_code LIGHT = 11"
| "header_code BACKGROUND = 12"
| "header_code ZOOM_FACTOR = 13"
| "header_code ZOOM_PINCH_FACTOR = 14"
| "header_code ZOOM_PINCH_CAP = 15"
| "header_code ZOOM_STEP = 16"
| "header_code SHIFT_HOLD_DISTANCE = 17"
| "header_code SHIFT_WAIT_TIME = 18"
| "header_code VIBRATE_TIME = 19"
| "header_code IMAGE = 20"

definition all_header_types :: "HeaderTypes list" where
  "all_header_types =
     [CANVAS_WIDTH, CANVAS_HEIGHT, V3D_ABSOLUTE, MIN_BOUND, MAX_BOUND, ORTHOGRAPHIC,
      ANGLE_OF_VIEW, INITIAL_ZOOM, VIEWPORT_SHIFT, VIEWPORT_MARGIN, LIGHT, BACKGROUND,
      ZOOM_FACTOR, ZOOM_PINCH_FACTOR, ZOOM_PINCH_CAP, ZOOM_STEP, SHIFT_HOLD_DISTANCE,
      SHIFT_WAIT_TIME, VIBRATE_TIME, IMAGE]"

definition header_of_code :: "uint32 \<Rightarrow> HeaderTypes option" where
  "header_of_code c = find (\<lambda>t. header_code t = c) all_header_types"

text \<open>Bit patterns of the floating-point literals used as defaults.\<close>

definition f64_0 :: float64 where "f64_0 = 0"
definition f64_1 :: float64 where "f64_1 = 0x3FF0000000000000"
definition f64_100 :: float64 where "f64_100 = 0x4059000000000000"
definition f64_radians45 :: float64 where "f64_radians45 = 0x3FE921FB54442D18"
definition f32_1 :: float32 where "f32_1 = 0x3F800000"

record Light =
  direction :: "REAL vec3"
  color :: "float32 vec3"

record V3dHeaderInfo =
  canvasWidth :: uint32
  canvasHeight :: uint32
  absolute :: uint32
  minBound :: "REAL vec3"
  maxBound :: "REAL vec3"
  orthographic :: uint32
  angleOfView :: REAL
  initialZoom :: REAL
  viewportShift :: "REAL vec2"
  viewportMargin :: "REAL vec2"
  lights :: "Light list"
  background :: "float32 vec4"
  zoomFactor :: REAL
  zoomPinchFactor :: REAL
  zoomPinchCap :: REAL
  zoomStep :: REAL
  shiftHoldDistance :: REAL
  shiftWaitTime :: REAL
  vibrateTime :: REAL
  imageName :: string

definition V3dHeaderInfo_init :: V3dHeaderInfo where
  "V3dHeaderInfo_init = \<lparr>
     canvasWidth = 500, canvasHeight = 500, absolute = 0,
     minBound = V3 (Some f64_0) (Some f64_0) (Some f64_0),
     maxBound = V3 (Some f64_100) (Some f64_100) (Some f64_100),
     orthographic = 0, angleOfView = Some f64_radians45, initialZoom = Some f64_1,
     viewportShift = V2 (Some f64_0) (Some f64_0),
     viewportMargin = V2 (Some f64_0) (Some f64_0),
     lights = [], background = V4 f32_1 f32_1 f32_1 f32_1,
     zoomFactor = Some f64_1, zoomPinchFactor = Some f64_1, zoomPinchCap = Some f64_1,
     zoomStep = Some f64_1, shiftHoldDistance = Some f64_1, shiftWaitTime = Some f64_1,
     vibrateTime = Some f64_1, imageName = []\<rparr>"

section \<open>The file (class V3dFile)\<close>

record V3dFile_data =
  versionNumber :: UINT
  doublePrecisionFlag :: UINT
  centers :: "REAL vec3 list"
  materials :: "FLOAT V3dMaterial list"
  objects :: "parsed_object list"
  headerInfo :: V3dHeaderInfo

definition V3dFile_init :: V3dFile_data where
  "V3dFile_init = \<lparr>versionNumber = None, doublePrecisionFlag = None, centers = [],
     materials = [], objects = [], headerInfo = V3dHeaderInfo_init\<rparr>"

definition kMaxHeaderEntries :: nat where "kMaxHeaderEntries = 10000"
definition kMaxUnknownHeaderWords :: int where "kMaxUnknownHeaderWords = 1000000"
definition kMaxCenters :: nat where "kMaxCenters = 1000000"
definition kMaxImageName :: nat where "kMaxImageName = 4096"

definition remainingBytes :: "(ixstream, int) state" where
  "remainingBytes = State (\<lambda>s.
     if \<not> xios_good s then (-1, s)
     else let cur = xstream_tell s
          in if cur < 0 then (-1, s)
             else let s1 = xstream_seek 0 End s;
                      sz = xstream_tell s1;
                      s2 = xstream_seek cur Beg s1
                  in (if sz \<ge> cur then sz - cur else -1, s2))"

section \<open>Header entries\<close>

text \<open>A read into a member that already has a value keeps it when the read fails.\<close>

definition keep :: "'a \<Rightarrow> 'a cell \<Rightarrow> 'a" where
  "keep old c = (case c of Some v \<Rightarrow> v | None \<Rightarrow> old)"

definition read_PAIR :: "uint32 \<Rightarrow> (ixstream, REAL vec2) state" where
  "read_PAIR dp = do {
     x \<leftarrow> readReal dp; y \<leftarrow> readReal dp;
     State_Monad.return (V2 x y) }"

definition read_Light :: "uint32 \<Rightarrow> (ixstream, Light) state" where
  "read_Light dp = do {
     d \<leftarrow> read_TRIPLE dp;
     r \<leftarrow> read_float; g \<leftarrow> read_float; b \<leftarrow> read_float;
     State_Monad.return \<lparr>direction = d, color = V3 (or_zero r) (or_zero g) (or_zero b)\<rparr> }"

definition read_background :: "float32 vec4 \<Rightarrow> (ixstream, float32 vec4) state" where
  "read_background old = do {
     r \<leftarrow> read_float; g \<leftarrow> read_float; b \<leftarrow> read_float; a \<leftarrow> read_float;
     State_Monad.return (V4 (keep (v4r old) r) (keep (v4g old) g) (keep (v4b old) b)
       (keep (v4a old) a)) }"

text \<open>The byte loops of the \<open>IMAGE\<close> entry: stop at the first failed read (\<open>truncated\<close>).\<close>

fun read_bytes :: "nat \<Rightarrow> (ixstream, byte list \<times> bool) state" where
  "read_bytes 0 = State_Monad.return ([], False)"
| "read_bytes (Suc n) = do {
     c \<leftarrow> read_xbyte;
     ok \<leftarrow> stream_ok;
     if \<not> ok then State_Monad.return ([], True)
     else do {
       (cs, truncated) \<leftarrow> read_bytes n;
       State_Monad.return (or_zero c # cs, truncated) } }"

definition char_of_byte :: "byte \<Rightarrow> char" where
  "char_of_byte b = char_of (unat b)"

definition byte_of_char :: "char \<Rightarrow> byte" where
  "byte_of_char c = of_nat (of_char c)"

definition pad_bytes :: "nat \<Rightarrow> nat" where
  "pad_bytes strLen = (strLen + 3) div 4 * 4 - strLen"

definition load_IMAGE :: "V3dHeaderInfo \<Rightarrow> (ixstream, V3dHeaderInfo \<times> bool) state" where
  "load_IMAGE hi = do {
     strLen0 \<leftarrow> read_uint64;
     ok \<leftarrow> stream_ok;
     let strLen = unat (or_zero strLen0);
     if \<not> ok then State_Monad.return (hi, True)
     else if strLen > kMaxImageName then State_Monad.return (hi, True)
     else do {
       (s, truncated) \<leftarrow> read_bytes strLen;
       if truncated then State_Monad.return (hi, True)
       else do {
         (_, truncated') \<leftarrow> read_bytes (pad_bytes strLen);
         if truncated' then State_Monad.return (hi, True)
         else State_Monad.return (hi\<lparr>imageName := map char_of_byte s\<rparr>, False) } } }"

fun skip_words :: "nat \<Rightarrow> (ixstream, bool) state" where
  "skip_words 0 = State_Monad.return False"
| "skip_words (Suc n) = do {
     _ \<leftarrow> read_uint32;
     ok \<leftarrow> stream_ok;
     if \<not> ok then State_Monad.return True else skip_words n }"

definition skip_unknown :: "uint32 \<Rightarrow> (ixstream, bool) state" where
  "skip_unknown len = do {
     remaining \<leftarrow> remainingBytes;
     let maxWords = (if remaining \<ge> 0 \<and> remaining div 4 < kMaxUnknownHeaderWords
                     then remaining div 4 else kMaxUnknownHeaderWords);
     if uint len > maxWords then State_Monad.return True
     else skip_words (unat len) }"

definition load_known :: "uint32 \<Rightarrow> V3dHeaderInfo \<Rightarrow> HeaderTypes \<Rightarrow>
    (ixstream, V3dHeaderInfo \<times> bool) state" where
  "load_known dp hi key = (case key of
     CANVAS_WIDTH \<Rightarrow> do { v \<leftarrow> read_uint32;
       State_Monad.return (hi\<lparr>canvasWidth := keep (canvasWidth hi) v\<rparr>, False) }
   | CANVAS_HEIGHT \<Rightarrow> do { v \<leftarrow> read_uint32;
       State_Monad.return (hi\<lparr>canvasHeight := keep (canvasHeight hi) v\<rparr>, False) }
   | V3D_ABSOLUTE \<Rightarrow> do { v \<leftarrow> read_uint32;
       State_Monad.return (hi\<lparr>absolute := keep (absolute hi) v\<rparr>, False) }
   | MIN_BOUND \<Rightarrow> do { v \<leftarrow> read_TRIPLE dp; State_Monad.return (hi\<lparr>minBound := v\<rparr>, False) }
   | MAX_BOUND \<Rightarrow> do { v \<leftarrow> read_TRIPLE dp; State_Monad.return (hi\<lparr>maxBound := v\<rparr>, False) }
   | ORTHOGRAPHIC \<Rightarrow> do { v \<leftarrow> read_uint32;
       State_Monad.return (hi\<lparr>orthographic := keep (orthographic hi) v\<rparr>, False) }
   | ANGLE_OF_VIEW \<Rightarrow> do { v \<leftarrow> readReal dp;
       State_Monad.return (hi\<lparr>angleOfView := v\<rparr>, False) }
   | INITIAL_ZOOM \<Rightarrow> do { v \<leftarrow> readReal dp; State_Monad.return (hi\<lparr>initialZoom := v\<rparr>, False) }
   | VIEWPORT_SHIFT \<Rightarrow> do { v \<leftarrow> read_PAIR dp;
       State_Monad.return (hi\<lparr>viewportShift := v\<rparr>, False) }
   | VIEWPORT_MARGIN \<Rightarrow> do { v \<leftarrow> read_PAIR dp;
       State_Monad.return (hi\<lparr>viewportMargin := v\<rparr>, False) }
   | LIGHT \<Rightarrow> do { l \<leftarrow> read_Light dp;
       State_Monad.return (hi\<lparr>lights := lights hi @ [l]\<rparr>, False) }
   | BACKGROUND \<Rightarrow> do { v \<leftarrow> read_background (background hi);
       State_Monad.return (hi\<lparr>background := v\<rparr>, False) }
   | ZOOM_FACTOR \<Rightarrow> do { v \<leftarrow> readReal dp; State_Monad.return (hi\<lparr>zoomFactor := v\<rparr>, False) }
   | ZOOM_PINCH_FACTOR \<Rightarrow> do { v \<leftarrow> readReal dp;
       State_Monad.return (hi\<lparr>zoomPinchFactor := v\<rparr>, False) }
   | ZOOM_PINCH_CAP \<Rightarrow> do { v \<leftarrow> readReal dp;
       State_Monad.return (hi\<lparr>zoomPinchCap := v\<rparr>, False) }
   | ZOOM_STEP \<Rightarrow> do { v \<leftarrow> readReal dp; State_Monad.return (hi\<lparr>zoomStep := v\<rparr>, False) }
   | SHIFT_HOLD_DISTANCE \<Rightarrow> do { v \<leftarrow> readReal dp;
       State_Monad.return (hi\<lparr>shiftHoldDistance := v\<rparr>, False) }
   | SHIFT_WAIT_TIME \<Rightarrow> do { v \<leftarrow> readReal dp;
       State_Monad.return (hi\<lparr>shiftWaitTime := v\<rparr>, False) }
   | VIBRATE_TIME \<Rightarrow> do { v \<leftarrow> readReal dp;
       State_Monad.return (hi\<lparr>vibrateTime := v\<rparr>, False) }
   | IMAGE \<Rightarrow> load_IMAGE hi)"

text \<open>The body of the entry loop: key, length, then the \<open>switch\<close> on the key.\<close>

definition load_entry :: "uint32 \<Rightarrow> V3dHeaderInfo \<Rightarrow> (ixstream, V3dHeaderInfo \<times> bool) state" where
  "load_entry dp hi = do {
     headerKey \<leftarrow> read_uint32;
     ok \<leftarrow> stream_ok;
     if \<not> ok then State_Monad.return (hi, True)
     else do {
       len \<leftarrow> read_uint32;
       ok' \<leftarrow> stream_ok;
       if \<not> ok' then State_Monad.return (hi, True)
       else (case header_of_code (or_zero headerKey) of
               Some key \<Rightarrow> load_known dp hi key
             | None \<Rightarrow> do { stop \<leftarrow> skip_unknown (or_zero len);
                 State_Monad.return (hi, stop) }) } }"

fun load_entries :: "uint32 \<Rightarrow> nat \<Rightarrow> V3dHeaderInfo \<Rightarrow>
    (ixstream, V3dHeaderInfo \<times> bool) state" where
  "load_entries dp 0 hi = State_Monad.return (hi, False)"
| "load_entries dp (Suc n) hi = do {
     (hi', stop) \<leftarrow> load_entry dp hi;
     if stop then State_Monad.return (hi', True) else load_entries dp n hi' }"

definition load_HEADER :: "uint32 \<Rightarrow> V3dFile_data \<Rightarrow> (ixstream, V3dFile_data \<times> bool) state" where
  "load_HEADER dp f = do {
     n0 \<leftarrow> read_uint32;
     ok \<leftarrow> stream_ok;
     let headerEntryCount = unat (or_zero n0);
     if \<not> ok then State_Monad.return (f, True)
     else if headerEntryCount > kMaxHeaderEntries then State_Monad.return (f, True)
     else do {
       (hi, stop) \<leftarrow> load_entries dp headerEntryCount (headerInfo f);
       State_Monad.return (f\<lparr>headerInfo := hi\<rparr>, stop) } }"

section \<open>Centers and materials\<close>

definition resize_list :: "'a \<Rightarrow> nat \<Rightarrow> 'a list \<Rightarrow> 'a list" where
  "resize_list z n xs = take n xs @ replicate (n - length xs) z"

text \<open>The loop over \<open>centers\<close>: each element is overwritten in turn; the elements after a failed
  read keep what \<open>resize\<close> left there.\<close>

fun read_centers :: "uint32 \<Rightarrow> REAL vec3 list \<Rightarrow> (ixstream, REAL vec3 list \<times> bool) state" where
  "read_centers dp [] = State_Monad.return ([], False)"
| "read_centers dp (old # rest) = do {
     c \<leftarrow> read_TRIPLE dp;
     ok \<leftarrow> stream_ok;
     if \<not> ok then State_Monad.return (c # rest, True)
     else do {
       (cs, stop) \<leftarrow> read_centers dp rest;
       State_Monad.return (c # cs, stop) } }"

definition load_CENTERS :: "uint32 \<Rightarrow> V3dFile_data \<Rightarrow> (ixstream, V3dFile_data \<times> bool) state" where
  "load_CENTERS dp f = do {
     n0 \<leftarrow> read_uint32;
     ok \<leftarrow> stream_ok;
     let centersLength = unat (or_zero n0);
     if \<not> ok then State_Monad.return (f, True)
     else if centersLength > kMaxCenters then State_Monad.return (f, True)
     else if centersLength > 0 then do {
       (cs, stop) \<leftarrow> read_centers dp
         (resize_list (V3 (Some 0) (Some 0) (Some 0)) centersLength (centers f));
       State_Monad.return (f\<lparr>centers := cs\<rparr>, stop) }
     else State_Monad.return (f, False) }"

definition read_material :: "uint32 \<Rightarrow> (ixstream, FLOAT V3dMaterial) state" where
  "read_material version = do {
     d \<leftarrow> read_RGBA; e \<leftarrow> read_RGBA; sp \<leftarrow> read_RGBA;
     sh \<leftarrow> read_float; m \<leftarrow> read_float; fr \<leftarrow> read_float;
     lo \<leftarrow> (if version \<ge> 2 then read_float else State_Monad.return (Some f32_1));
     State_Monad.return (Material d e sp sh m fr lo) }"

definition load_MATERIAL :: "uint32 \<Rightarrow> V3dFile_data \<Rightarrow> (ixstream, V3dFile_data \<times> bool) state" where
  "load_MATERIAL version f = do {
     m \<leftarrow> read_material version;
     State_Monad.return (f\<lparr>materials := materials f @ [m]\<rparr>, False) }"

section \<open>The switch and the main loop\<close>

definition push_object :: "V3dFile_data \<Rightarrow> (ixstream, parsed_object) state \<Rightarrow>
    (ixstream, (V3dFile_data \<times> bool) option) state" where
  "push_object f ctor = do {
     ob \<leftarrow> ctor;
     State_Monad.return (Some (f\<lparr>objects := objects f @ [ob]\<rparr>, False)) }"

definition push_group :: "V3dFile_data \<Rightarrow> uint32 \<Rightarrow>
    (ixstream, (V3dFile_data \<times> bool) option) state" where
  "push_group f dp = do {
     g \<leftarrow> ctor_TriangleGroup dp;
     State_Monad.return
       (map_option (\<lambda>g. (f\<lparr>objects := objects f @ [V3dTriangleGroup g]\<rparr>, False)) g) }"

definition load_switch :: "uint32 \<Rightarrow> uint32 \<Rightarrow> V3dFile_data \<Rightarrow> ObjectTypes option \<Rightarrow>
    (ixstream, (V3dFile_data \<times> bool) option) state" where
  "load_switch version dp f t = (case t of
     None \<Rightarrow> State_Monad.return (Some (f, False))
   | Some MATERIAL \<Rightarrow> do { r \<leftarrow> load_MATERIAL version f; State_Monad.return (Some r) }
   | Some TRANSFORM \<Rightarrow> State_Monad.return (Some (f, False))
   | Some ELEMENT \<Rightarrow> State_Monad.return (Some (f, False))
   | Some CENTERS \<Rightarrow> do { r \<leftarrow> load_CENTERS dp f; State_Monad.return (Some r) }
   | Some HEADER \<Rightarrow> do { r \<leftarrow> load_HEADER dp f; State_Monad.return (Some r) }
   | Some LINE \<Rightarrow> push_object f (ctor_LineSegment dp)
   | Some TRIANGLE \<Rightarrow> push_object f (ctor_StraightTriangle dp)
   | Some QUAD \<Rightarrow> push_object f (ctor_StraightPlanarQuad dp)
   | Some CURVE \<Rightarrow> push_object f (ctor_BezierCurve dp)
   | Some BEZIER_TRIANGLE \<Rightarrow> push_object f (ctor_BezierTriangle dp)
   | Some BEZIER_PATCH \<Rightarrow> push_object f (ctor_BezierPatch dp)
   | Some LINE_COLOR \<Rightarrow> State_Monad.return (Some (f, False))
   | Some TRIANGLE_COLOR \<Rightarrow> push_object f (ctor_StraightTriangleWithCornerColors dp)
   | Some QUAD_COLOR \<Rightarrow> push_object f (ctor_StraightPlanarQuadWithCornerColors dp)
   | Some CURVE_COLOR \<Rightarrow> State_Monad.return (Some (f, False))
   | Some BEZIER_TRIANGLE_COLOR \<Rightarrow> push_object f (ctor_BezierTriangleWithCornerColors dp)
   | Some BEZIER_PATCH_COLOR \<Rightarrow> push_object f (ctor_BezierPatchWithCornerColors dp)
   | Some TRIANGLES \<Rightarrow> push_group f dp
   | Some DISK \<Rightarrow> push_object f (ctor_Disk dp)
   | Some CYLINDER \<Rightarrow> push_object f (ctor_Cylinder dp)
   | Some TUBE \<Rightarrow> push_object f (ctor_Tube dp)
   | Some SPHERE \<Rightarrow> push_object f (ctor_Sphere dp)
   | Some HALF_SPHERE \<Rightarrow> push_object f (ctor_HemiSphere dp)
   | Some ANIMATION \<Rightarrow> State_Monad.return (Some (f, False))
   | Some PIXEL \<Rightarrow> push_object f (ctor_Pixel dp))"

subsection \<open>The handlers are steady\<close>

lemma steady_remainingBytes [simp, intro]: "steady remainingBytes"
  by (auto simp: steady_def remainingBytes_def xstream_tell_def xstream_seek_def seek_target_def
      xios_clear_def xios_set_def xios_good_def Let_def split: if_splits)

lemma steady_case_prod [intro]:
  "(\<And>x y. steady (f x y)) \<Longrightarrow> steady (case p of (x, y) \<Rightarrow> f x y)"
  by (cases p) auto

lemma steady_read_bytes [simp, intro]: "steady (read_bytes n)"
proof (induction n)
  case (Suc n)
  then show ?case
    unfolding read_bytes.simps
    by (intro steady_bind steady_if steady_case_prod steady_return field_steady steady_stream_ok)
qed simp

lemma steady_skip_words [simp, intro]: "steady (skip_words n)"
  by (induction n) (auto intro!: steady_bind steady_if)

lemma steady_skip_unknown [simp, intro]: "steady (skip_unknown n)"
  unfolding skip_unknown_def by (intro steady_bind steady_Let steady_if) auto

lemma steady_header_parts [simp, intro]:
  "steady (read_PAIR dp)" "steady (read_Light dp)" "steady (read_background old)"
  unfolding read_PAIR_def read_Light_def read_background_def
  by (intro steady_bind steady_return steady_readReal steady_read_TRIPLE field_steady)+

lemma steady_load_IMAGE [simp, intro]: "steady (load_IMAGE hi)"
  unfolding load_IMAGE_def
  by (intro steady_bind steady_Let steady_if steady_case_prod steady_return field_steady
      steady_stream_ok steady_read_bytes)

lemma steady_load_known [simp, intro]: "steady (load_known dp hi key)"
  unfolding load_known_def
  by (cases key)
    (simp_all, (intro steady_bind steady_return steady_readReal steady_read_TRIPLE field_steady
      steady_header_parts)+)

lemma steady_load_entry [simp, intro]: "steady (load_entry dp hi)"
  unfolding load_entry_def
  by (intro steady_bind steady_if steady_case_option steady_return field_steady
      steady_stream_ok steady_load_known steady_skip_unknown)

lemma steady_load_entries [simp, intro]: "steady (load_entries dp n hi)"
  by (induction n arbitrary: hi) (auto intro!: steady_bind steady_if)

lemma steady_load_HEADER [simp, intro]: "steady (load_HEADER dp f)"
  unfolding load_HEADER_def
  by (intro steady_bind steady_Let steady_if steady_case_prod steady_return field_steady
      steady_stream_ok steady_load_entries)

lemma steady_read_centers [simp, intro]: "steady (read_centers dp cs)"
  by (induction cs) (auto intro!: steady_bind steady_if)

lemma steady_load_CENTERS [simp, intro]: "steady (load_CENTERS dp f)"
  unfolding load_CENTERS_def
  by (intro steady_bind steady_Let steady_if steady_case_prod steady_return field_steady
      steady_stream_ok steady_read_centers)

lemma steady_read_material [simp, intro]: "steady (read_material v)"
  unfolding read_material_def
  by (intro steady_bind steady_if steady_return field_steady steady_read_RGBA)

lemma steady_load_MATERIAL [simp, intro]: "steady (load_MATERIAL v f)"
  unfolding load_MATERIAL_def by (intro steady_bind steady_return steady_read_material)

lemma steady_push_object [simp, intro]: "steady c \<Longrightarrow> steady (push_object f c)"
  unfolding push_object_def by (intro steady_bind steady_return)

lemma steady_push_group [simp, intro]: "steady (push_group f dp)"
  unfolding push_group_def by (intro steady_bind steady_return steady_ctor_TriangleGroup)

lemma steady_load_switch [simp, intro]: "steady (load_switch version dp f t)"
proof (cases t)
  case (Some ty)
  then show ?thesis
    unfolding load_switch_def
    by (cases ty) (auto intro!: steady_bind)
qed (simp add: load_switch_def)

subsection \<open>The while loop\<close>

function load_loop :: "uint32 \<Rightarrow> uint32 \<Rightarrow> V3dFile_data \<Rightarrow> ixstream \<Rightarrow>
    V3dFile_data option \<times> ixstream" where
  "load_loop version dp f s =
     (case run_state read_uint32 s of
        (None, s1) \<Rightarrow> (Some f, s1)
      | (Some code, s1) \<Rightarrow>
          if \<not> xios_good s1 then (Some f, s1)
          else (case run_state (load_switch version dp f (object_of_code code)) s1 of
                  (None, s2) \<Rightarrow> (None, s2)
                | (Some (f', stopParsing), s2) \<Rightarrow>
                    if stopParsing then (Some f', s2) else load_loop version dp f' s2))"
  by pat_completeness auto

lemma read_uint32_advances:
  assumes "run_state read_uint32 s = (Some c, s1)"
  shows "xs_pos s1 = xs_pos s + 4" and "xs_pos s + 4 \<le> length (xs_data s)"
    and "xs_data s1 = xs_data s" and "xs_state s1 = xs_state s"
  using assms
  by (auto simp: read_uint32_def ix_read_def xdr_u_type_def fread_def split: if_splits)

lemma load_step_advances:
  assumes 1: "run_state read_uint32 s = (Some code, s1)"
    and 2: "run_state (load_switch version dp f t) s1 = (r, s2)"
  shows "length (xs_data s2) - xs_pos s2 < length (xs_data s) - xs_pos s"
    and "xs_data s2 = xs_data s" and "xs_pos s + 4 \<le> xs_pos s2"
    and "xs_pos s2 \<le> length (xs_data s)"
  using read_uint32_advances [OF 1] steadyD [OF steady_load_switch 2] by auto

termination load_loop
  by (relation "measure (\<lambda>(v, dp, f, s). length (xs_data s) - xs_pos s)")
    (auto dest!: load_step_advances(1) [rotated] dest: sym)

declare load_loop.simps [simp del]

section \<open>V3dFile::load and the constructors\<close>

definition load :: "ixstream \<Rightarrow> V3dFile_data option \<times> ixstream" where
  "load s =
     (case run_state read_uint32 s of (version, s1) \<Rightarrow>
        let f1 = V3dFile_init\<lparr>versionNumber := version\<rparr>
        in if \<not> xios_good s1 then (Some f1, s1)
           else if or_zero version < 1 then (Some f1, s1)
           else (case run_state read_uint32 s1 of (dp, s2) \<Rightarrow>
                   let f2 = f1\<lparr>doublePrecisionFlag := dp\<rparr>
                   in if \<not> xios_good s2 then (Some f2, s2)
                      else load_loop (or_zero version) (or_zero dp) f2 s2))"

text \<open>\<open>V3dFile(fileName)\<close>: when \<open>fopen\<close> fails the XDR handle of the stream was never created, and
  \<open>load\<close> reads through it.\<close>

definition V3dFile_of_name :: "(string \<Rightarrow> byte list option) \<Rightarrow> string \<Rightarrow> V3dFile_data option" where
  "V3dFile_of_name fopen fileName =
     (case fopen fileName of
        None \<Rightarrow> None
      | Some bs \<Rightarrow> fst (load (ixstream_open (Some bs))))"

definition V3dFile_of_mem :: "byte list \<Rightarrow> V3dFile_data option" where
  "V3dFile_of_mem bs = fst (load (memixstream bs))"

section \<open>Every stored item was paid for by input bytes\<close>

text \<open>\<open>tracks r P\<close>: every run of \<open>r\<close> relates start stream, value and end stream by \<open>P\<close>.\<close>

definition tracks :: "(ixstream, 'a) state \<Rightarrow> (ixstream \<Rightarrow> 'a \<Rightarrow> ixstream \<Rightarrow> bool) \<Rightarrow> bool" where
  "tracks r P \<longleftrightarrow> (\<forall>s a s'. run_state r s = (a, s') \<longrightarrow> P s a s')"

lemma tracksD: "tracks r P \<Longrightarrow> run_state r s = (a, s') \<Longrightarrow> P s a s'"
  unfolding tracks_def by blast

lemma tracks_return: "(\<And>s. P s x s) \<Longrightarrow> tracks (State_Monad.return x) P"
  by (simp add: tracks_def State_Monad.return_def)

lemma tracks_bind:
  assumes "tracks r P" and "\<And>x. tracks (f x) (Q x)"
    and "\<And>s x s1 y s2. P s x s1 \<Longrightarrow> Q x s1 y s2 \<Longrightarrow> R s y s2"
  shows "tracks (State_Monad.bind r f) R"
  unfolding tracks_def
proof (intro allI impI)
  fix s a s'
  assume run: "run_state (State_Monad.bind r f) s = (a, s')"
  obtain x t where r: "run_state r s = (x, t)" by fastforce
  with run have f: "run_state (f x) t = (a, s')" by (simp add: State_Monad.bind_def)
  show "R s a s'" by (rule assms(3) [OF tracksD [OF assms(1) r] tracksD [OF assms(2) f]])
qed

lemma tracks_steady: "steady r \<Longrightarrow> tracks r (\<lambda>s _ s'. xs_pos s \<le> xs_pos s')"
  unfolding tracks_def by (blast dest: steadyD(2))

lemma tracks_mono:
  "tracks r P \<Longrightarrow> (\<And>s a s'. P s a s' \<Longrightarrow> Q s a s') \<Longrightarrow> tracks r Q"
  unfolding tracks_def by blast

lemma tracks_if: "(c \<Longrightarrow> tracks a P) \<Longrightarrow> (\<not> c \<Longrightarrow> tracks b P) \<Longrightarrow> tracks (if c then a else b) P"
  by simp

lemma tracks_any: "tracks r (\<lambda>s a s'. True)"
  by (simp add: tracks_def)

lemma tracks_seq:
  assumes "tracks r (\<lambda>s a s'. P a)" and "\<And>x. P x \<Longrightarrow> tracks (f x) (\<lambda>s a s'. R a)"
  shows "tracks (State_Monad.bind r f) (\<lambda>s a s'. R a)"
  using assms by (fastforce simp: tracks_def State_Monad.bind_def split: prod.splits)

lemma tracks_case_prod:
  "(\<And>x y. p = (x, y) \<Longrightarrow> tracks (f x y) P) \<Longrightarrow> tracks (case p of (x, y) \<Rightarrow> f x y) P"
  by (cases p) auto

lemma tracks_stream_ok:
  "tracks stream_ok (\<lambda>s ok s'. s' = s \<and> ok = xios_good s)"
  by (simp add: tracks_def stream_ok_def)

lemma tracks_read_bytes: "tracks (read_bytes n) (\<lambda>s r s'. length (fst r) \<le> n)"
proof (induction n)
  case (Suc n)
  show ?case
    unfolding read_bytes.simps
    by (intro tracks_seq [OF tracks_any] tracks_if tracks_return tracks_seq [OF Suc]
        tracks_case_prod) auto
qed (simp add: tracks_return)

abbreviation light_cost :: "V3dHeaderInfo \<Rightarrow> nat" where
  "light_cost hi \<equiv> 8 * length (lights hi)"

text \<open>What one header entry may do to the header structure.\<close>

definition entry_ok :: "V3dHeaderInfo \<Rightarrow> nat \<Rightarrow> V3dHeaderInfo \<Rightarrow> bool" where
  "entry_ok hi k hi' \<longleftrightarrow> length (lights hi') \<le> length (lights hi) + k \<and>
     (length (imageName hi) \<le> kMaxImageName \<longrightarrow> length (imageName hi') \<le> kMaxImageName)"

lemma entry_ok_refl [simp]: "entry_ok hi k hi"
  by (simp add: entry_ok_def)

lemma entry_ok_trans: "entry_ok a k b \<Longrightarrow> entry_ok b l c \<Longrightarrow> entry_ok a (k + l) c"
  by (auto simp: entry_ok_def)

lemma tracks_load_IMAGE: "tracks (load_IMAGE hi) (\<lambda>s r s'. entry_ok hi 1 (fst r))"
  unfolding load_IMAGE_def Let_def
  by (intro tracks_seq [OF tracks_any] tracks_if tracks_return tracks_seq [OF tracks_read_bytes]
      tracks_case_prod)
    (auto simp: entry_ok_def)

lemma tracks_const: "(\<And>x. Q (f x)) \<Longrightarrow>
    tracks (do { x \<leftarrow> r; State_Monad.return (f x) }) (\<lambda>s a s'. Q a)"
  by (intro tracks_seq [OF tracks_any] tracks_return)

lemma tracks_load_known: "tracks (load_known dp hi key) (\<lambda>s r s'. entry_ok hi 1 (fst r))"
  unfolding load_known_def
  by (cases key; simp only: HeaderTypes.case)
    (intro tracks_const tracks_load_IMAGE; simp add: entry_ok_def)+

text \<open>A checked read: either it stops with \<open>a\<close>, or four bytes were consumed.\<close>

lemma tracks_checked_u32:
  assumes stop: "\<And>s s'. xs_pos s \<le> xs_pos s' \<Longrightarrow> P s a s'"
    and cont: "\<And>c. tracks (k c) (\<lambda>s1 r s'. \<forall>s. xs_pos s + 4 = xs_pos s1 \<longrightarrow> P s r s')"
  shows "tracks (do { c \<leftarrow> read_uint32; ok \<leftarrow> stream_ok;
      if \<not> ok then State_Monad.return a else k c }) P"
  unfolding tracks_def
proof (intro allI impI)
  fix s r s'
  assume run: "run_state (do { c \<leftarrow> read_uint32; ok \<leftarrow> stream_ok;
      if \<not> ok then State_Monad.return a else k c }) s = (r, s')"
  obtain c t where c: "run_state read_uint32 s = (c, t)" by fastforce
  show "P s r s'"
  proof (cases "xios_good t")
    case False
    with run c have "r = a" "s' = t"
      by (simp_all add: State_Monad.bind_def State_Monad.return_def stream_ok_def)
    then show ?thesis using stop steadyD(2) [OF u32.rd_steady c] by simp
  next
    case True
    with c have "initialised c" using u32.rd_init unfolding yields_def by blast
    then obtain v where "c = Some v" by (cases c) auto
    with c have "xs_pos s + 4 = xs_pos t" by (simp add: read_uint32_advances)
    moreover have "run_state (k c) t = (r, s')"
      using run c True by (simp add: State_Monad.bind_def stream_ok_def)
    ultimately show ?thesis using tracksD [OF cont] by blast
  qed
qed

definition header_paid :: "V3dHeaderInfo \<Rightarrow> ixstream \<Rightarrow> V3dHeaderInfo \<Rightarrow> ixstream \<Rightarrow> bool" where
  "header_paid hi s hi' s' \<longleftrightarrow> xs_pos s \<le> xs_pos s' \<and>
     light_cost hi' + xs_pos s \<le> light_cost hi + xs_pos s' \<and>
     (length (imageName hi) \<le> kMaxImageName \<longrightarrow> length (imageName hi') \<le> kMaxImageName)"

lemma tracks_conj: "tracks r P \<Longrightarrow> tracks r Q \<Longrightarrow> tracks r (\<lambda>s a s'. P s a s' \<and> Q s a s')"
  unfolding tracks_def by blast

lemma tracks_load_entry: "tracks (load_entry dp hi) (\<lambda>s r s'. header_paid hi s (fst r) s')"
proof -
  have known: "tracks (load_known dp hi key)
      (\<lambda>s r s'. xs_pos s \<le> xs_pos s' \<and> entry_ok hi 1 (fst r))" for key
    by (intro tracks_conj tracks_steady steady_load_known tracks_load_known)
  have unknown: "tracks (do { stop \<leftarrow> skip_unknown n; State_Monad.return (hi, stop) })
      (\<lambda>s r s'. xs_pos s \<le> xs_pos s' \<and> entry_ok hi 1 (fst r))" for n
    by (intro tracks_conj tracks_const) (auto intro!: tracks_steady steady_bind)
  have entry: "tracks (case header_of_code key of Some key \<Rightarrow> load_known dp hi key
      | None \<Rightarrow> do { stop \<leftarrow> skip_unknown n; State_Monad.return (hi, stop) })
      (\<lambda>s r s'. xs_pos s \<le> xs_pos s' \<and> entry_ok hi 1 (fst r))" for key n
    using known unknown by (cases "header_of_code key") simp_all
  show ?thesis
    unfolding load_entry_def
    by (intro tracks_checked_u32 tracks_mono [OF entry])
      (auto simp: header_paid_def entry_ok_def)
qed

lemma header_paid_refl: "header_paid a s a s"
  by (simp add: header_paid_def)

lemma header_paid_trans:
  "header_paid a s b t \<Longrightarrow> header_paid b t c u \<Longrightarrow> header_paid a s c u"
  by (auto simp: header_paid_def)

lemma tracks_load_entries:
  "tracks (load_entries dp n hi) (\<lambda>s r s'. header_paid hi s (fst r) s')"
proof (induction n arbitrary: hi)
  case 0
  then show ?case by (simp add: tracks_return header_paid_def)
next
  case (Suc n)
  show ?case
    unfolding load_entries.simps
    by (rule tracks_bind [OF tracks_load_entry,
          where Q = "\<lambda>x s r s'. header_paid (fst x) s (fst r) s'"])
      (auto intro!: tracks_case_prod tracks_if tracks_return Suc header_paid_refl
        intro: header_paid_trans)
qed

text \<open>The same account for the whole file; \<open>file_cost\<close> counts four bytes per stored object or
  material (its type word) and eight per light (key and length).\<close>

definition file_cost :: "V3dFile_data \<Rightarrow> nat" where
  "file_cost f = 4 * (length (objects f) + length (materials f)) + light_cost (headerInfo f)"

definition file_caps :: "V3dFile_data \<Rightarrow> bool" where
  "file_caps f \<longleftrightarrow> length (centers f) \<le> kMaxCenters \<and>
     length (imageName (headerInfo f)) \<le> kMaxImageName"

definition file_paid :: "nat \<Rightarrow> V3dFile_data \<Rightarrow> ixstream \<Rightarrow> V3dFile_data \<Rightarrow> ixstream \<Rightarrow> bool" where
  "file_paid k f s f' s' \<longleftrightarrow> xs_pos s \<le> xs_pos s' \<and>
     file_cost f' + xs_pos s \<le> file_cost f + xs_pos s' + k \<and> (file_caps f \<longrightarrow> file_caps f')"

lemma tracks_read_centers:
  "tracks (read_centers dp cs) (\<lambda>s r s'. length (fst r) = length cs)"
proof (induction cs)
  case (Cons c cs)
  show ?case
    unfolding read_centers.simps
    by (intro tracks_seq [OF tracks_any] tracks_if tracks_return tracks_seq [OF Cons]
        tracks_case_prod) auto
qed (simp add: tracks_return)

lemma length_resize_list [simp]: "length (resize_list z n xs) = n"
  by (simp add: resize_list_def)

lemma tracks_load_CENTERS:
  "tracks (load_CENTERS dp f) (\<lambda>s r s'. file_cost (fst r) = file_cost f \<and>
     (file_caps f \<longrightarrow> file_caps (fst r)))"
  unfolding load_CENTERS_def Let_def
  by (intro tracks_seq [OF tracks_any] tracks_if tracks_return tracks_seq [OF tracks_read_centers]
      tracks_case_prod)
    (auto simp: file_cost_def file_caps_def)

lemma tracks_load_HEADER: "tracks (load_HEADER dp f) (\<lambda>s r s'. file_paid 0 f s (fst r) s')"
proof -
  have entries: "tracks (do { (hi, stop) \<leftarrow> load_entries dp n (headerInfo f);
       State_Monad.return (f\<lparr>headerInfo := hi\<rparr>, stop) }) (\<lambda>s r s'. file_paid 0 f s (fst r) s')" for n
    by (rule tracks_bind [OF tracks_load_entries,
          where Q = "\<lambda>x s r s'. s' = s \<and> fst r = f\<lparr>headerInfo := fst x\<rparr>"])
      (auto intro!: tracks_case_prod tracks_return
        simp: header_paid_def file_paid_def file_cost_def file_caps_def)
  show ?thesis
    unfolding load_HEADER_def Let_def
    by (intro tracks_checked_u32 tracks_if tracks_return tracks_mono [OF entries])
      (auto simp: file_paid_def)
qed

lemma tracks_push_object:
  "steady c \<Longrightarrow>
   tracks (push_object f c) (\<lambda>s r s'. \<forall>f' st. r = Some (f', st) \<longrightarrow> file_paid 4 f s f' s')"
  unfolding push_object_def
  by (rule tracks_bind [OF tracks_steady, of _ _ "\<lambda>x s r s'. s' = s \<and>
        r = Some (f\<lparr>objects := objects f @ [x]\<rparr>, False)"])
    (auto intro!: tracks_return simp: file_paid_def file_cost_def file_caps_def)

lemma tracks_push_group:
  "tracks (push_group f dp) (\<lambda>s r s'. \<forall>f' st. r = Some (f', st) \<longrightarrow> file_paid 4 f s f' s')"
  unfolding push_group_def
  by (rule tracks_bind [OF tracks_steady, of _ _ "\<lambda>x s r s'. s' = s \<and>
        r = map_option (\<lambda>g. (f\<lparr>objects := objects f @ [V3dTriangleGroup g]\<rparr>, False)) x"])
    (auto intro!: tracks_return simp: file_paid_def file_cost_def file_caps_def)

lemma tracks_lift_Some:
  "tracks r (\<lambda>s a s'. file_paid 4 f s (fst a) s') \<Longrightarrow>
   tracks (do { a \<leftarrow> r; State_Monad.return (Some a) })
     (\<lambda>s r s'. \<forall>f' st. r = Some (f', st) \<longrightarrow> file_paid 4 f s f' s')"
  by (erule tracks_bind [where Q = "\<lambda>x s r s'. s' = s \<and> r = Some x"])
    (auto intro!: tracks_return)

lemma tracks_load_MATERIAL:
  "tracks (load_MATERIAL v f) (\<lambda>s r s'. file_paid 4 f s (fst r) s')"
  unfolding load_MATERIAL_def
  by (rule tracks_bind [OF tracks_steady, of _ _ "\<lambda>x s r s'. s' = s \<and>
        r = (f\<lparr>materials := materials f @ [x]\<rparr>, False)"])
    (auto intro!: tracks_return simp: file_paid_def file_cost_def file_caps_def)

lemma tracks_load_switch:
  "tracks (load_switch version dp f t)
     (\<lambda>s r s'. \<forall>f' st. r = Some (f', st) \<longrightarrow> file_paid 4 f s f' s')"
proof -
  have skip: "tracks (State_Monad.return (Some (f, False)))
     (\<lambda>s r s'. \<forall>f' st. r = Some (f', st) \<longrightarrow> file_paid 4 f s f' s')"
    by (rule tracks_return) (simp add: file_paid_def)
  have centers: "tracks (load_CENTERS dp f) (\<lambda>s a s'. file_paid 4 f s (fst a) s')"
    by (rule tracks_mono [OF tracks_conj [OF tracks_steady [OF steady_load_CENTERS]
          tracks_load_CENTERS]]) (auto simp: file_paid_def)
  have header: "tracks (load_HEADER dp f) (\<lambda>s a s'. file_paid 4 f s (fst a) s')"
    by (rule tracks_mono [OF tracks_load_HEADER]) (auto simp: file_paid_def)
  note intros = skip tracks_lift_Some centers header tracks_load_MATERIAL tracks_push_group
    tracks_push_object steady_ctor_points steady_ctor_solid
  show ?thesis
  proof (cases t)
    case None
    then show ?thesis unfolding load_switch_def by (simp only: option.case skip)
  next
    case (Some ty)
    then show ?thesis
      unfolding load_switch_def
      by (cases ty; simp only: option.case ObjectTypes.case; intro intros)
  qed
qed

lemma load_loop_paid:
  "load_loop v dp f s = (Some f', s') \<Longrightarrow> file_paid 0 f s f' s'"
proof (induction v dp f s rule: load_loop.induct)
  case (1 v dp f s)
  obtain c s1 where c: "run_state read_uint32 s = (c, s1)" by fastforce
  have le: "xs_pos s \<le> xs_pos s1" by (rule steadyD(2) [OF u32.rd_steady c])
  show ?case
  proof (cases "c = None \<or> \<not> xios_good s1")
    case True
    with "1.prems" c le show ?thesis
      by (subst (asm) load_loop.simps) (auto simp: file_paid_def split: option.splits)
  next
    case False
    then obtain code where code: "c = Some code" and good: "xios_good s1" by auto
    obtain r s2 where r: "run_state (load_switch v dp f (object_of_code code)) s1 = (r, s2)"
      by fastforce
    with "1.prems" c code good obtain g stop where g: "r = Some (g, stop)"
      by (subst (asm) load_loop.simps) (auto split: option.splits)
    have step: "file_paid 0 f s g s2"
      using tracksD [OF tracks_load_switch r] g read_uint32_advances [OF c [unfolded code]]
      by (auto simp: file_paid_def)
    show ?thesis
    proof (cases stop)
      case True
      with "1.prems" c code good r g step show ?thesis by (subst (asm) load_loop.simps) auto
    next
      case False
      with "1.prems" c code good r g have "load_loop v dp g s2 = (Some f', s')"
        by (subst (asm) load_loop.simps) auto
      with "1.IH" [OF c [symmetric] code _ r [symmetric] g refl False] good
      have "file_paid 0 g s2 f' s'" by simp
      with step show ?thesis by (auto simp: file_paid_def)
    qed
  qed
qed

section \<open>Items stored before the last one are complete\<close>

definition good_file :: "V3dFile_data \<Rightarrow> bool" where
  "good_file f \<longleftrightarrow> list_all sound_object (objects f) \<and>
     list_all (pred_V3dMaterial initialised) (materials f)"

definition almost_good_file :: "V3dFile_data \<Rightarrow> bool" where
  "almost_good_file f \<longleftrightarrow> list_all sound_object (butlast (objects f)) \<and>
     list_all (pred_V3dMaterial initialised) (butlast (materials f)) \<and>
     (list_all sound_object (objects f) \<or> list_all (pred_V3dMaterial initialised) (materials f))"

lemma list_all_butlast: "list_all P xs \<Longrightarrow> list_all P (butlast xs)"
  by (auto simp: list_all_iff dest: in_set_butlastD)

lemma good_almost: "good_file f \<Longrightarrow> almost_good_file f"
  by (auto simp: good_file_def almost_good_file_def list_all_iff dest: in_set_butlastD)

text \<open>What one pass through the \<open>switch\<close> leaves, from a file without incomplete items.\<close>

definition step_sound :: "(V3dFile_data \<times> bool) option \<Rightarrow> ixstream \<Rightarrow> bool" where
  "step_sound r s' \<longleftrightarrow> (case r of None \<Rightarrow> \<not> xios_good s'
     | Some (f', _) \<Rightarrow> almost_good_file f' \<and> (xios_good s' \<longrightarrow> good_file f'))"

lemma yields_read_material: "yields (read_material v) (pred_V3dMaterial initialised)"
  unfolding read_material_def
  by (intro yields_bind [OF yields_read_RGBA] yields_bind [OF f32.rd_init]
      yields_bind [where P = initialised] yields_if yields_return f32.rd_init
      steady_bind steady_if steady_return field_steady steady_read_RGBA)
    auto

lemma push_object_sound:
  assumes "good_file f" and "yields c sound_object"
  shows "tracks (push_object f c) (\<lambda>s r s'. step_sound r s')"
  using assms
  by (auto simp: tracks_def push_object_def State_Monad.bind_def State_Monad.return_def yields_def
      step_sound_def good_file_def almost_good_file_def list_all_butlast split: prod.splits)

lemma push_group_sound:
  assumes "good_file f"
  shows "tracks (push_group f dp) (\<lambda>s r s'. step_sound r s')"
  unfolding tracks_def
proof (intro allI impI)
  fix s r s'
  assume run: "run_state (push_group f dp) s = (r, s')"
  obtain g t where g: "run_state (ctor_TriangleGroup dp) s = (g, t)" by fastforce
  have "xios_good t \<Longrightarrow> \<exists>h. g = Some h \<and> tg_sound h"
    using yields_ctor_TriangleGroup [of dp] g unfolding yields_def by blast
  with run g assms show "step_sound r s'"
    by (cases g) (auto simp: push_group_def State_Monad.bind_def State_Monad.return_def
        step_sound_def good_file_def almost_good_file_def list_all_butlast)
qed

lemma load_MATERIAL_sound:
  assumes "good_file f"
  shows "tracks (do { r \<leftarrow> load_MATERIAL v f; State_Monad.return (Some r) })
    (\<lambda>s r s'. step_sound r s')"
  using assms yields_read_material [of v]
  by (auto simp: tracks_def load_MATERIAL_def State_Monad.bind_def State_Monad.return_def
      yields_def step_sound_def good_file_def almost_good_file_def list_all_butlast
      split: prod.splits)

lemma same_items_sound:
  assumes "good_file f" and "tracks r (\<lambda>s a s'. objects (fst a) = objects f \<and>
      materials (fst a) = materials f)"
  shows "tracks (do { a \<leftarrow> r; State_Monad.return (Some a) }) (\<lambda>s r s'. step_sound r s')"
  by (rule tracks_bind [OF assms(2), where Q = "\<lambda>x s r s'. r = Some x"])
    (use assms(1) good_almost in \<open>auto intro!: tracks_return simp: step_sound_def good_file_def
      almost_good_file_def split: prod.splits\<close>)

lemma load_CENTERS_items:
  "tracks (load_CENTERS dp f) (\<lambda>s a s'. objects (fst a) = objects f \<and> materials (fst a) = materials f)"
  unfolding load_CENTERS_def Let_def
  by (intro tracks_seq [OF tracks_any] tracks_if tracks_return tracks_case_prod) auto

lemma load_HEADER_items:
  "tracks (load_HEADER dp f) (\<lambda>s a s'. objects (fst a) = objects f \<and> materials (fst a) = materials f)"
  unfolding load_HEADER_def Let_def
  by (intro tracks_seq [OF tracks_any] tracks_if tracks_return tracks_case_prod) auto

lemma yields_sound_points:
  "yields (ctor_BezierPatch dp) sound_object" "yields (ctor_BezierTriangle dp) sound_object"
  "yields (ctor_BezierPatchWithCornerColors dp) sound_object"
  "yields (ctor_BezierTriangleWithCornerColors dp) sound_object"
  "yields (ctor_StraightPlanarQuad dp) sound_object"
  "yields (ctor_StraightTriangle dp) sound_object"
  "yields (ctor_StraightPlanarQuadWithCornerColors dp) sound_object"
  "yields (ctor_StraightTriangleWithCornerColors dp) sound_object"
  "yields (ctor_BezierCurve dp) sound_object" "yields (ctor_LineSegment dp) sound_object"
  unfolding ctor_points_defs
  by (auto intro!: yields_read_points_ci_mi yields_read_points_ci_mi_colors
      simp: fully_initialised_def list.pred_set)

lemma yields_sound_solid:
  "yields (ctor_Sphere dp) sound_object" "yields (ctor_HemiSphere dp) sound_object"
  "yields (ctor_Disk dp) sound_object" "yields (ctor_Cylinder dp) sound_object"
  "yields (ctor_Tube dp) sound_object" "yields (ctor_Pixel dp) sound_object"
  unfolding ctor_solid_defs
  by (intro yields_bind [OF yields_read_TRIPLE] yields_bind [OF yields_readReal]
      yields_bind [OF u32.rd_init] yields_return steady_bind steady_return field_steady
      steady_read_n steady_readReal
      yields_bind [OF yields_read_n [OF steady_read_TRIPLE yields_read_TRIPLE]];
      auto simp: fully_initialised_def list.pred_set)+

lemma load_switch_sound:
  assumes "good_file f"
  shows "tracks (load_switch version dp f t) (\<lambda>s r s'. step_sound r s')"
proof -
  have skip: "tracks (State_Monad.return (Some (f, False))) (\<lambda>s r s'. step_sound r s')"
    by (rule tracks_return) (simp add: step_sound_def assms good_almost)
  note intros = skip load_MATERIAL_sound [OF assms] push_group_sound [OF assms]
    push_object_sound [OF assms] same_items_sound [OF assms] load_CENTERS_items load_HEADER_items
    yields_sound_points yields_sound_solid
  show ?thesis
  proof (cases t)
    case None
    then show ?thesis unfolding load_switch_def by (simp only: option.case skip)
  next
    case (Some ty)
    then show ?thesis
      unfolding load_switch_def
      by (cases ty; simp only: option.case ObjectTypes.case; intro intros)
  qed
qed

lemma load_loop_stops: "\<not> xios_good s \<Longrightarrow>
    fst (load_loop v dp f s) = Some f \<and> \<not> xios_good (snd (load_loop v dp f s))"
  using steadyD(4) [OF u32.rd_steady, of s]
  by (subst (1 2) load_loop.simps) (auto split: prod.splits option.splits)

lemma load_loop_sound:
  "load_loop v dp f s = (r, s') \<Longrightarrow> good_file f \<Longrightarrow>
     (case r of None \<Rightarrow> \<not> xios_good s' | Some f' \<Rightarrow> almost_good_file f')"
proof (induction v dp f s rule: load_loop.induct)
  case (1 v dp f s)
  obtain c s1 where c: "run_state read_uint32 s = (c, s1)" by fastforce
  show ?case
  proof (cases "c = None \<or> \<not> xios_good s1")
    case True
    with "1.prems" c show ?thesis
      by (subst (asm) load_loop.simps) (auto simp: good_almost split: option.splits)
  next
    case False
    then obtain code where code: "c = Some code" and good: "xios_good s1" by auto
    obtain q s2 where q: "run_state (load_switch v dp f (object_of_code code)) s1 = (q, s2)"
      by fastforce
    have snd: "step_sound q s2" by (rule tracksD [OF load_switch_sound [OF "1.prems"(2)] q])
    consider "q = None" | g where "q = Some (g, True)" | g where "q = Some (g, False)"
      by (cases q) auto
    then show ?thesis
    proof cases
      case 1
      with snd "1.prems" c code good q show ?thesis
        by (subst (asm) load_loop.simps) (auto simp: step_sound_def)
    next
      case 2
      with snd "1.prems" c code good q show ?thesis
        by (subst (asm) load_loop.simps) (auto simp: step_sound_def)
    next
      case (3 g)
      with "1.prems" c code good q have rest: "load_loop v dp g s2 = (r, s')"
        by (subst (asm) load_loop.simps) auto
      show ?thesis
      proof (cases "xios_good s2")
        case True
        with snd 3 have "good_file g" by (simp add: step_sound_def)
        with "1.IH" [OF c [symmetric] code _ q [symmetric] 3 refl] good rest show ?thesis by simp
      next
        case False
        with load_loop_stops [OF this, of v dp g] rest snd 3 show ?thesis
          by (simp add: step_sound_def)
      qed
    qed
  qed
qed

section \<open>Properties of the loader\<close>

lemma load_cases:
  assumes "load s = (r, s')"
  obtains (no_version) "r = Some (V3dFile_init\<lparr>versionNumber := fst (run_state read_uint32 s)\<rparr>)"
      and "s' = snd (run_state read_uint32 s)"
  | (no_precision) v s1 where "run_state read_uint32 s = (v, s1)" and "xios_good s1"
      and "r = Some (V3dFile_init\<lparr>versionNumber := v,
              doublePrecisionFlag := fst (run_state read_uint32 s1)\<rparr>)"
      and "s' = snd (run_state read_uint32 s1)"
  | (loop) v s1 dp s2 where "run_state read_uint32 s = (v, s1)" and "xios_good s1"
      and "or_zero v \<noteq> 0" and "run_state read_uint32 s1 = (dp, s2)" and "xios_good s2"
      and "load_loop (or_zero v) (or_zero dp)
             (V3dFile_init\<lparr>versionNumber := v, doublePrecisionFlag := dp\<rparr>) s2 = (r, s')"
  using assms
  by (auto simp: load_def Let_def not_less split: prod.splits if_splits)

lemma init_file_facts [simp]:
  "file_cost (V3dFile_init\<lparr>versionNumber := v\<rparr>) = 0"
  "file_cost (V3dFile_init\<lparr>versionNumber := v, doublePrecisionFlag := d\<rparr>) = 0"
  "file_caps (V3dFile_init\<lparr>versionNumber := v\<rparr>)"
  "file_caps (V3dFile_init\<lparr>versionNumber := v, doublePrecisionFlag := d\<rparr>)"
  "good_file (V3dFile_init\<lparr>versionNumber := v\<rparr>)"
  "good_file (V3dFile_init\<lparr>versionNumber := v, doublePrecisionFlag := d\<rparr>)"
  by (simp_all add: file_cost_def file_caps_def good_file_def V3dFile_init_def
      V3dHeaderInfo_init_def)

lemma load_loop_pos:
  "xs_pos s \<le> length (xs_data s) \<Longrightarrow> load_loop v dp f s = (r, s') \<Longrightarrow>
     xs_data s' = xs_data s \<and> xs_pos s \<le> xs_pos s' \<and> xs_pos s' \<le> length (xs_data s)"
proof (induction v dp f s rule: load_loop.induct)
  case (1 v dp f s)
  obtain c s1 where c: "run_state read_uint32 s = (c, s1)" by fastforce
  note c' = steadyD [OF u32.rd_steady c]
  show ?case
  proof (cases "c = None \<or> \<not> xios_good s1")
    case True
    with "1.prems" c c' show ?thesis
      by (subst (asm) load_loop.simps) (auto split: option.splits)
  next
    case False
    then obtain code where code: "c = Some code" and good: "xios_good s1" by auto
    obtain q s2 where q: "run_state (load_switch v dp f (object_of_code code)) s1 = (q, s2)"
      by fastforce
    note q' = load_step_advances [OF c [unfolded code] q]
    consider "q = None \<or> (\<exists>g. q = Some (g, True))" | g where "q = Some (g, False)"
      by (cases q) auto
    then show ?thesis
    proof cases
      case 1
      with "1.prems" c code good q q' show ?thesis by (subst (asm) load_loop.simps) auto
    next
      case (2 g)
      with "1.prems" c code good q have rest: "load_loop v dp g s2 = (r, s')"
        by (subst (asm) load_loop.simps) auto
      from "1.IH" [OF c [symmetric] code _ q [symmetric] 2 refl _ _ rest] good q'
      show ?thesis by simp
    qed
  qed
qed

text \<open>C2: resource bounds of \<open>V3dFile::load\<close>: whatever the bytes are, the loader reads only inside
  the file, stores at most a million centers and an IBL name of at most 4096 bytes, and every
  stored object, material and light was paid for by input bytes (so no small file can make it
  allocate an unbounded number of them).\<close>

theorem load_resources:
  "xs_pos (snd (load (memixstream bs))) \<le> length bs \<and>
   (case fst (load (memixstream bs)) of None \<Rightarrow> True | Some f \<Rightarrow>
      length (centers f) \<le> 1000000 \<and> length (imageName (headerInfo f)) \<le> 4096 \<and>
      4 * (length (objects f) + length (materials f)) + 8 * length (lights (headerInfo f))
        \<le> length bs)"
proof -
  let ?s = "memixstream bs"
  obtain r s' where l: "load ?s = (r, s')" by fastforce
  have bs: "xs_data ?s = bs" "xs_pos ?s = 0" by (simp_all add: memixstream_def)
  have "xs_pos s' \<le> length bs \<and>
      (case r of None \<Rightarrow> True | Some f \<Rightarrow> file_caps f \<and> file_cost f \<le> length bs)"
    using l
  proof (cases rule: load_cases)
    case no_version
    with steadyD(3) [OF u32.rd_steady surjective_pairing, of ?s] bs show ?thesis by simp
  next
    case (no_precision v s1)
    note 1 = steadyD [OF u32.rd_steady no_precision(1)]
    from steadyD(3) [OF u32.rd_steady surjective_pairing, of s1] 1 no_precision bs
    show ?thesis by simp
  next
    case (loop v s1 dp s2)
    note 1 = steadyD [OF u32.rd_steady loop(1)] and 2 = steadyD [OF u32.rd_steady loop(4)]
    have "xs_pos s2 \<le> length bs" "xs_data s2 = bs" using 1 2 bs by auto
    with load_loop_pos [OF _ loop(6)] have "xs_pos s' \<le> length bs" by simp
    moreover have "file_paid 0 (V3dFile_init\<lparr>versionNumber := v, doublePrecisionFlag := dp\<rparr>) s2 f s'"
      if "r = Some f" for f
      using load_loop_paid loop(6) that by blast
    ultimately show ?thesis by (auto simp: file_paid_def split: option.splits)
  qed
  with l show ?thesis
    by (auto simp: file_caps_def file_cost_def kMaxCenters_def kMaxImageName_def
        split: option.splits)
qed


lemma reads_any_uint32:
  assumes "length bs = 4"
  obtains w where "reads read_uint32 bs (Some w)"
proof
  show "reads read_uint32 bs (Some (word_of_nat (be_val bs)))"
    using assms by (simp add: reads_def read_uint32_def ix_read_def xdr_u_type_def fread_def)
qed

lemma reads_skip_words: "length bs = 4 * n \<Longrightarrow> reads (skip_words n) bs False"
proof (induction n arbitrary: bs)
  case (Suc n)
  obtain w where w: "reads read_uint32 (take 4 bs) (Some w)"
    using reads_any_uint32 [of "take 4 bs"] Suc.prems by auto
  have "reads (skip_words n) (drop 4 bs) False" using Suc by simp
  then have "reads (do { ok \<leftarrow> stream_ok; if \<not> ok then State_Monad.return True else skip_words n })
      (drop 4 bs) False"
    by (simp add: reads_def stream_ok_def State_Monad.bind_def)
  from reads_bind [OF w, of "\<lambda>_. do { ok \<leftarrow> stream_ok;
      if \<not> ok then State_Monad.return True else skip_words n }", OF this]
  show ?case by simp
qed simp

lemma remainingBytes_good:
  assumes "xios_good s" and "xs_pos s \<le> length (xs_data s)"
  shows "run_state remainingBytes s = (int (length (xs_data s) - xs_pos s), s)"
  using assms
  by (simp add: remainingBytes_def xstream_tell_def xstream_seek_def seek_target_def xios_clear_def
      xios_good_def Let_def of_nat_diff)

lemma skip_unknown_reads:
  assumes "length bs = 4 * unat len" and "unat len \<le> 1000000"
  shows "reads (skip_unknown len) bs False"
  unfolding reads_def
proof (intro allI impI)
  fix s :: ixstream and pre post
  assume d: "xs_data s = pre @ bs @ post" and p: "xs_pos s = length pre" and g: "xios_good s"
  have r: "run_state remainingBytes s = (int (length bs + length post), s)"
    using remainingBytes_good [OF g] d p by simp
  have len: "uint len = int (unat len)" by simp
  have ub: "uint len \<le> 1000000" using len assms(2) by linarith
  have "run_state (skip_unknown len) s = run_state (skip_words (unat len)) s"
    using assms len ub
    by (auto simp: skip_unknown_def State_Monad.bind_def r Let_def kMaxUnknownHeaderWords_def)
  with reads_skip_words [OF assms(1)] d p g
  show "run_state (skip_unknown len) s = (False, s\<lparr>xs_pos := length pre + length bs\<rparr>)"
    unfolding reads_def by simp
qed

text \<open>C9: forward compatibility: a header entry whose key this version does not know, with any
  payload of the announced number of words (up to a million), is skipped exactly, leaves the
  header structure unchanged and does not stop the parse.\<close>

theorem unknown_header_skipped:
  assumes "header_of_code key = None" and "length payload = 4 * unat len"
    and "unat len \<le> 1000000"
  shows "reads (load_entry dp hi) (write_uint32 key @ write_uint32 len @ payload) (hi, False)"
proof -
  have "reads (do { stop \<leftarrow> skip_unknown len; State_Monad.return (hi, stop) }) payload (hi, False)"
    by (rule reads_bind_return [OF skip_unknown_reads [OF assms(2,3)]])
  then have len: "reads (do { len \<leftarrow> read_uint32; ok' \<leftarrow> stream_ok;
      if \<not> ok' then State_Monad.return (hi, True)
      else (case header_of_code key of Some k \<Rightarrow> load_known dp hi k
             | None \<Rightarrow> do { stop \<leftarrow> skip_unknown (or_zero len); State_Monad.return (hi, stop) }) })
      (write_uint32 len @ payload) (hi, False)"
    by (intro reads_bind [OF u32.rd_wr])
      (simp add: assms(1) reads_def stream_ok_def State_Monad.bind_def or_zero_def)
  then show ?thesis
    unfolding load_entry_def
    by (intro reads_bind [OF u32.rd_wr] reads_ok_bind) (unfold or_zero_Some, simp)
qed

theorem unknown_header_skipped_witness:
  "reads (load_entry 1 V3dHeaderInfo_init)
     (write_uint32 99 @ write_uint32 2 @ [1, 2, 3, 4, 5, 6, 7, 8]) (V3dHeaderInfo_init, False)"
  using unknown_header_skipped [of 99 "[1, 2, 3, 4, 5, 6, 7, 8]" 2 1 V3dHeaderInfo_init]
  by (simp add: header_of_code_def all_header_types_def)

end
