(* ===== verification/IblNames.thy ===== *)
theory IblNames
  imports Prelude
begin

text \<open>
  The treatment of the image-based-lighting (IBL) name that a document carries:
  \<open>normalizeIBLName\<close>, \<open>iblNameOK\<close>, \<open>logRejectedIBLName\<close>, \<open>resolveIBLPath\<close> and \<open>getIBLBase\<close> of
  \<^verbatim>\<open>v3d-Common/V3dModelManager.cpp\<close>, and the check of the same name in
  \<^verbatim>\<open>asymptote/settings.cc\<close> that the writer uses. The file system is a predicate on paths, the
  environment variable an optional string and the platform's data directory a string.
  The names come from untrusted files; the main results say that an accepted name cannot leave
  the image library directory and that the log line is printable.
\<close>

section \<open>Definitions\<close>

abbreviation slash :: char where "slash \<equiv> CHR 0x2F"
abbreviation backslash :: char where "backslash \<equiv> CHR 0x5C"
abbreviation percent :: char where "percent \<equiv> CHR 0x25"

text \<open>\<open>while (!name.empty() && name.back() == '/') name.pop_back()\<close>\<close>

function pop_slashes :: "string \<Rightarrow> string" where
  "pop_slashes name =
     (if name \<noteq> [] \<and> last name = slash then pop_slashes (butlast name) else name)"
  by pat_completeness auto
termination by (relation "measure length") auto

declare pop_slashes.simps [simp del]

text \<open>\<open>name.find_last_of('/')\<close> on a non-empty name that contains one.\<close>

definition find_last_of :: "char \<Rightarrow> string \<Rightarrow> nat option" where
  "find_last_of c name =
     (if c \<in> set name then Some (length name - 1 - length (takeWhile (\<lambda>d. d \<noteq> c) (rev name)))
      else None)"

definition normalizeIBLName :: "string \<Rightarrow> string" where
  "normalizeIBLName imageName =
     (let name =
        (if imageName \<noteq> [] \<and> hd imageName = slash
         then (case find_last_of slash imageName of
                 Some lastSlash \<Rightarrow>
                   if lastSlash \<noteq> 0 then drop (lastSlash + 1) imageName else drop 1 imageName
               | None \<Rightarrow> drop 0 imageName)
         else imageName)
      in pop_slashes name)"

definition is_separator :: "char \<Rightarrow> bool" where
  "is_separator c \<longleftrightarrow> c = slash \<or> c = backslash"

definition is_control :: "char \<Rightarrow> bool" where
  "is_control c \<longleftrightarrow> (of_char c :: nat) < 0x20 \<or> (of_char c :: nat) = 0x7f"

text \<open>The component loop of \<open>iblNameOK\<close>, on the part of the name from \<open>start\<close> on.\<close>

function scan_components :: "string \<Rightarrow> bool" where
  "scan_components rest =
     (let component = takeWhile (\<lambda>c. \<not> is_separator c) rest
      in if component = ''..'' then False
         else if length component = length rest then True
         else scan_components (drop (length component + 1) rest))"
  by pat_completeness auto
termination
proof (relation "measure length")
  fix rest x
  assume "x = takeWhile (\<lambda>c. \<not> is_separator c) rest" and "length x \<noteq> length rest"
  then have "length x < length rest" using length_takeWhile_le [of _ rest] by (simp add: le_neq_implies_less)
  then show "(drop (length x + 1) rest, rest) \<in> measure length" by simp
qed simp

declare scan_components.simps [simp del]

definition iblNameOK :: "string \<Rightarrow> bool" where
  "iblNameOK name \<longleftrightarrow>
     (if percent \<in> set name then False
      else if list_ex is_control name then False
      else if name \<noteq> [] \<and> (hd name = slash \<or> hd name = backslash) then False
      else scan_components name)"

text \<open>\<open>settings::iblNameOK\<close> of the writer, in \<^verbatim>\<open>asymptote/settings.cc\<close>.\<close>

definition settings_iblNameOK :: "string \<Rightarrow> bool" where
  "settings_iblNameOK name \<longleftrightarrow>
     (if percent \<in> set name then False
      else if list_ex is_control name then False
      else if name \<noteq> [] \<and> (hd name = slash \<or> hd name = backslash) then False
      else scan_components name)"

definition hex_digit :: "nat \<Rightarrow> char" where
  "hex_digit n = ''0123456789abcdef'' ! n"

definition escape_char :: "char \<Rightarrow> string" where
  "escape_char ch =
     (let c = (of_char ch :: nat)
      in if 0x20 \<le> c \<and> c \<le> 0x7e then [ch]
         else [backslash, CHR ''x'', hex_digit (c div 16 mod 16), hex_digit (c mod 16)])"

text \<open>The string that \<open>logRejectedIBLName\<close> hands to \<open>LOG\<close>.\<close>

definition logRejectedIBLName :: "string \<Rightarrow> string" where
  "logRejectedIBLName name = concat (map escape_char name)"

definition getIBLBase :: "string option \<Rightarrow> string \<Rightarrow> string" where
  "getIBLBase envDir dataDir =
     (case envDir of
        Some d \<Rightarrow> if length d > 0 then d else dataDir @ ''/okular/ibl''
      | None \<Rightarrow> dataDir @ ''/okular/ibl'')"

definition tryPath :: "(string \<Rightarrow> bool) \<Rightarrow> string \<Rightarrow> string" where
  "tryPath fileExists path = (if fileExists path then path else '''')"

definition layer_names :: "string list" where
  "layer_names = [''refl0.exr'', ''refl1.exr'', ''refl2.exr'', ''refl3.exr'', ''refl4.exr'',
     ''refl5.exr'', ''refl6.exr'', ''refl7.exr'', ''refl8.exr'', ''refl9.exr'', ''refl10.exr'']"

definition tryIBLDir :: "(string \<Rightarrow> bool) \<Rightarrow> string \<Rightarrow> string" where
  "tryIBLDir fileExists dir =
     (if dir \<noteq> [] \<and> last dir = slash then dir
      else let d = dir @ [slash]
           in if tryPath fileExists (d @ ''diffuse.exr'') = [] then []
              else if list_ex (\<lambda>l. tryPath fileExists (d @ l) = []) layer_names then []
              else let parent = take (length d - 1) d
                   in (case find_last_of slash parent of
                         None \<Rightarrow> []
                       | Some i \<Rightarrow>
                           let parentDir = take (i + 1) parent
                           in if tryPath fileExists (parentDir @ ''refl.exr'') = [] then []
                              else take (length d - 1) d))"

definition resolveIBLPath :: "(string \<Rightarrow> bool) \<Rightarrow> string option \<Rightarrow> string \<Rightarrow> string \<Rightarrow> string" where
  "resolveIBLPath fileExists envDir dataDir imageName =
     (if imageName = [] then []
      else let name = normalizeIBLName imageName
           in if name = [] then []
              else if \<not> iblNameOK name then []
              else let iblBase = getIBLBase envDir dataDir;
                       found = tryIBLDir fileExists (iblBase @ [slash] @ name)
                   in if found \<noteq> [] then found else [])"

section \<open>Reference notions\<close>

text \<open>The components of a path, and its lexical resolution against a stack of directories
  (innermost first): \<open>..\<close> pops, \<open>.\<close> and the empty component stay, anything else descends.\<close>

fun components :: "string \<Rightarrow> string list" where
  "components [] = [[]]"
| "components (c # cs) =
     (if is_separator c then [] # components cs
      else (case components cs of k # ks \<Rightarrow> (c # k) # ks | [] \<Rightarrow> [[c]]))"

fun resolve :: "string list \<Rightarrow> string list \<Rightarrow> string list" where
  "resolve stack [] = stack"
| "resolve stack (k # ks) =
     (if k = ''..'' then resolve (tl stack) ks
      else if k = [] \<or> k = ''.'' then resolve stack ks
      else resolve (k # stack) ks)"

definition printable :: "char \<Rightarrow> bool" where
  "printable c \<longleftrightarrow> 0x20 \<le> (of_char c :: nat) \<and> (of_char c :: nat) \<le> 0x7e"

section \<open>Lemmas\<close>

lemma components_not_Nil [simp]: "components s \<noteq> []"
  by (cases s) (auto split: list.splits)

lemma components_unfold:
  "components s =
     (let w = takeWhile (\<lambda>c. \<not> is_separator c) s
      in if length w = length s then [w] else w # components (drop (length w + 1) s))"
proof (induction s)
  case (Cons c cs)
  show ?case
  proof (cases "is_separator c")
    case False
    let ?w = "takeWhile (\<lambda>c. \<not> is_separator c) cs"
    show ?thesis using False Cons by (cases "length ?w = length cs") (simp_all add: Let_def)
  qed simp
qed simp

lemma scan_components_iff: "scan_components s \<longleftrightarrow> ''..'' \<notin> set (components s)"
proof (induction s rule: scan_components.induct)
  case (1 rest)
  then show ?case
    by (subst scan_components.simps, subst components_unfold) (auto simp: Let_def)
qed

lemma resolve_extends: "''..'' \<notin> set ks \<Longrightarrow> \<exists>down. resolve stack ks = down @ stack"
proof (induction ks arbitrary: stack)
  case (Cons k ks)
  then have "k \<noteq> ''..''" "''..'' \<notin> set ks" by auto
  moreover obtain d where "resolve stack ks = d @ stack" using Cons by auto
  moreover obtain e where "resolve (k # stack) ks = e @ k # stack" using Cons by auto
  ultimately show ?case by auto
qed simp

lemma pop_slashes_last: "pop_slashes s \<noteq> [] \<Longrightarrow> last (pop_slashes s) \<noteq> slash"
proof (induction s rule: pop_slashes.induct)
  case (1 s)
  show ?case
  proof (cases "s \<noteq> [] \<and> last s = slash")
    case True
    then have "pop_slashes s = pop_slashes (butlast s)" by (subst pop_slashes.simps) simp
    with True 1 show ?thesis by simp
  next
    case False
    then have "pop_slashes s = s" by (subst pop_slashes.simps) auto
    with False "1.prems" show ?thesis by auto
  qed
qed

lemma pop_slashes_prefix: "\<exists>n. pop_slashes s = take n s"
proof (induction s rule: pop_slashes.induct)
  case (1 s)
  show ?case
  proof (cases "s \<noteq> [] \<and> last s = slash")
    case True
    then obtain n where "pop_slashes (butlast s) = take n (butlast s)" using 1 by blast
    with True have "pop_slashes s = take (min n (length s - 1)) s"
      by (subst pop_slashes.simps) (simp add: butlast_conv_take)
    then show ?thesis by blast
  next
    case False
    then have "pop_slashes s = take (length s) s" by (subst pop_slashes.simps) auto
    then show ?thesis by blast
  qed
qed

lemma drop_after_last:
  assumes "c \<in> set xs"
  shows "c \<notin> set (drop (length xs - 1 - length (takeWhile (\<lambda>d. d \<noteq> c) (rev xs)) + 1) xs)"
proof -
  let ?w = "takeWhile (\<lambda>d. d \<noteq> c) (rev xs)"
  have "?w \<noteq> rev xs" using assms by (auto simp: takeWhile_eq_all_conv)
  then have lt: "length ?w < length xs"
    using takeWhile_dropWhile_id [of "\<lambda>d. d \<noteq> c" "rev xs"] length_takeWhile_le [of "\<lambda>d. d \<noteq> c" "rev xs"]
    by (metis append_Nil2 append_eq_conv_conj le_neq_implies_less length_rev take_all_iff)
  then have "drop (length xs - 1 - length ?w + 1) xs = drop (length xs - length ?w) xs"
    by (simp add: Suc_diff_Suc)
  also have "\<dots> = rev (take (length ?w) (rev xs))" by (simp add: rev_take)
  also have "\<dots> = rev ?w" by (simp only: takeWhile_eq_take [symmetric])
  finally show ?thesis by (auto dest: set_takeWhileD)
qed

lemma settings_same: "settings_iblNameOK = iblNameOK"
  by (intro ext) (simp add: settings_iblNameOK_def iblNameOK_def)

lemma iblNameOK_D:
  assumes "iblNameOK name"
  shows "percent \<notin> set name" and "\<And>c. c \<in> set name \<Longrightarrow> \<not> is_control c"
    and "''..'' \<notin> set (components name)"
  using assms by (auto simp: iblNameOK_def scan_components_iff list_ex_iff split: if_splits)

lemma find_last_of_hd:
  assumes "imageName \<noteq> []" and "hd imageName = slash"
  obtains i where "find_last_of slash imageName = Some i"
    and "slash \<notin> set (drop (i + 1) imageName)"
  using assms drop_after_last [of slash imageName] hd_in_set [of imageName]
  by (auto simp: find_last_of_def)

lemma normalize_before_pop:
  "\<exists>name. normalizeIBLName imageName = pop_slashes name \<and> (name = [] \<or> hd name \<noteq> slash)"
proof (cases "imageName \<noteq> [] \<and> hd imageName = slash")
  case True
  then obtain i where i: "find_last_of slash imageName = Some i"
    and free: "slash \<notin> set (drop (i + 1) imageName)"
    using find_last_of_hd by blast
  have "normalizeIBLName imageName = pop_slashes (drop (i + 1) imageName)"
    using True i by (simp add: normalizeIBLName_def)
  moreover have "drop (i + 1) imageName = [] \<or> hd (drop (i + 1) imageName) \<noteq> slash"
    using free hd_in_set by metis
  ultimately show ?thesis by blast
next
  case False
  then show ?thesis by (auto simp: normalizeIBLName_def Let_def)
qed

lemma normalize_shape:
  "normalizeIBLName s = [] \<or> (hd (normalizeIBLName s) \<noteq> slash \<and> last (normalizeIBLName s) \<noteq> slash)"
proof -
  obtain name where n: "normalizeIBLName s = pop_slashes name" "name = [] \<or> hd name \<noteq> slash"
    using normalize_before_pop by blast
  obtain k where "pop_slashes name = take k name" using pop_slashes_prefix by blast
  then have "pop_slashes name = [] \<or> hd (pop_slashes name) \<noteq> slash"
    using n(2) by (cases k; cases name) auto
  then show ?thesis using n pop_slashes_last by auto
qed

lemma pop_slashes_id: "s = [] \<or> last s \<noteq> slash \<Longrightarrow> pop_slashes s = s"
  by (subst pop_slashes.simps) auto

section \<open>Properties\<close>

text \<open>\<open>normalizeIBLName\<close> always yields a name without a leading or trailing slash, and
  normalising twice changes nothing (so the guard in \<open>RenderModel\<close>, the prompt and the download,
  which each normalise again, talk about the same name).\<close>

theorem normalizeIBLName_relative:
  "(normalizeIBLName s = [] \<or>
      (hd (normalizeIBLName s) \<noteq> slash \<and> last (normalizeIBLName s) \<noteq> slash)) \<and>
   normalizeIBLName (normalizeIBLName s) = normalizeIBLName s"
proof -
  note shape = normalize_shape [of s]
  then have "normalizeIBLName (normalizeIBLName s) = pop_slashes (normalizeIBLName s)"
    by (auto simp: normalizeIBLName_def [of "normalizeIBLName s"])
  with shape show ?thesis by (auto simp: pop_slashes_id)
qed

lemma escape_printable: "c \<in> set (escape_char ch) \<Longrightarrow> printable c"
proof -
  have hexd: "printable (hex_digit n)" if "n < 16" for n
  proof -
    have "hex_digit n \<in> set ''0123456789abcdef''"
      unfolding hex_digit_def by (rule nth_mem) (use that in simp)
    then show ?thesis by (auto simp: printable_def)
  qed
  have bs: "printable backslash" "printable (CHR ''x'')" by (simp_all add: printable_def)
  show "c \<in> set (escape_char ch) \<Longrightarrow> printable c"
    using hexd bs by (auto simp: escape_char_def Let_def printable_def [of ch] split: if_splits)
qed

text \<open>The line \<open>logRejectedIBLName\<close> logs contains only printable ASCII, whatever bytes the
  document supplied, is at most four times as long as the name, and shows a name that is already
  printable unchanged.\<close>

theorem logRejectedIBLName_printable:
  "list_all printable (logRejectedIBLName name) \<and>
   length (logRejectedIBLName name) \<le> 4 * length name \<and>
   (list_all printable name \<longrightarrow> logRejectedIBLName name = name)"
proof (intro conjI impI)
  show "list_all printable (logRejectedIBLName name)"
    using escape_printable by (auto simp: logRejectedIBLName_def list_all_iff)
  show "length (logRejectedIBLName name) \<le> 4 * length name"
    by (induction name) (auto simp: logRejectedIBLName_def escape_char_def Let_def)
  assume "list_all printable name"
  then show "logRejectedIBLName name = name"
    by (induction name) (auto simp: logRejectedIBLName_def escape_char_def printable_def)
qed

theorem logRejectedIBLName_printable_witness:
  "logRejectedIBLName ''a b'' = ''a b'' \<and> logRejectedIBLName [CHR 0x1B] = [backslash, CHR ''x'', CHR ''1'', CHR ''b'']"
  using logRejectedIBLName_printable [of "''a b''"]
  by (simp add: printable_def logRejectedIBLName_def escape_char_def hex_digit_def)

text \<open>C8: an image name that \<open>iblNameOK\<close> accepts stays inside the image library: resolved
  component by component from any directory it never climbs above it, at no prefix of the path;
  and it carries no control character, no \<open>%\<close> and no leading separator.\<close>

theorem iblNameOK_contained:
  assumes "iblNameOK name"
  shows "(\<forall>n. \<exists>down. resolve base (take n (components name)) = down @ base) \<and>
    (\<forall>c \<in> set name. \<not> is_control c \<and> c \<noteq> percent) \<and>
    (name = [] \<or> \<not> is_separator (hd name))"
proof (intro conjI allI)
  show "\<exists>down. resolve base (take n (components name)) = down @ base" for n
    using iblNameOK_D(3) [OF assms] by (intro resolve_extends) (auto dest: in_set_takeD)
  show "\<forall>c \<in> set name. \<not> is_control c \<and> c \<noteq> percent"
    using iblNameOK_D [OF assms] by auto
  show "name = [] \<or> \<not> is_separator (hd name)"
    using assms by (auto simp: iblNameOK_def is_separator_def split: if_splits)
qed

theorem iblNameOK_contained_witness:
  "iblNameOK ''snowyField/day'' \<and>
   (\<exists>down. resolve [''ibl''] (take 2 (components ''snowyField/day'')) = down @ [''ibl''])"
proof -
  have ok: "iblNameOK ''snowyField/day''" by code_simp
  with iblNameOK_contained [OF ok, of "[''ibl'']"] show ?thesis by blast
qed

lemma tryPath_nonempty: "tryPath ex p \<noteq> [] \<Longrightarrow> ex p"
  by (auto simp: tryPath_def split: if_splits)

lemma find_last_of_single:
  assumes "slash \<notin> set b"
  shows "find_last_of slash (a @ slash # b) = Some (length a)"
  using assms by (simp add: find_last_of_def takeWhile_append takeWhile_eq_all_conv [THEN iffD2])

lemma tryIBLDir_eq:
  assumes "slash \<notin> set b" and "b \<noteq> []"
  shows "tryIBLDir ex (a @ slash # b) =
    (if ex (a @ slash # b @ ''/diffuse.exr'') \<and> list_all (\<lambda>l. ex (a @ slash # b @ slash # l)) layer_names \<and>
        ex (a @ ''/refl.exr'') then a @ slash # b else [])"
proof -
  have "last (a @ slash # b) \<noteq> slash" using assms by (auto dest: last_in_set)
  then show ?thesis
    using find_last_of_single [OF assms(1), of a]
    by (auto simp: tryIBLDir_def Let_def tryPath_def list_ex_iff list_all_iff)
qed

lemma tryIBLDir_complete:
  assumes "tryIBLDir ex dir \<noteq> []" and "slash \<in> set dir" and "last dir \<noteq> slash"
  shows "tryIBLDir ex dir = dir \<and> ex (dir @ ''/diffuse.exr'') \<and>
    list_all (\<lambda>l. ex (dir @ slash # l)) layer_names \<and>
    (\<exists>a b. dir = a @ slash # b \<and> slash \<notin> set b \<and> ex (a @ ''/refl.exr''))"
proof -
  obtain a b where ab: "dir = a @ slash # b" and free: "slash \<notin> set b"
    using split_list_last [OF assms(2)] by blast
  then have "b \<noteq> []" using assms(3) by auto
  from tryIBLDir_eq [OF free this, of ex a] assms(1) ab free show ?thesis
    by (auto split: if_splits)
qed

text \<open>C10: a non-empty result of \<open>resolveIBLPath\<close> is the directory \<open>iblBase/name\<close> itself for the
  normalised name of the document, that name passes \<open>iblNameOK\<close>, \<open>diffuse.exr\<close> and all eleven
  reflection layers exist in it and \<open>refl.exr\<close> exists beside it (no partial download is accepted,
  nothing outside the library is ever returned).\<close>

theorem resolveIBLPath_complete:
  assumes "resolveIBLPath ex envDir dataDir imageName = p" and "p \<noteq> []"
  shows "p = getIBLBase envDir dataDir @ slash # normalizeIBLName imageName \<and>
    iblNameOK (normalizeIBLName imageName) \<and> ex (p @ ''/diffuse.exr'') \<and>
    list_all (\<lambda>l. ex (p @ slash # l)) layer_names \<and>
    (\<exists>dir b. p = dir @ slash # b \<and> slash \<notin> set b \<and> ex (dir @ ''/refl.exr''))"
proof -
  let ?name = "normalizeIBLName imageName"
  from assms have ok: "?name \<noteq> []" "iblNameOK ?name"
    and p: "p = tryIBLDir ex (getIBLBase envDir dataDir @ slash # ?name)"
    by (auto simp: resolveIBLPath_def Let_def split: if_splits)
  let ?dir = "getIBLBase envDir dataDir @ slash # ?name"
  have "last ?dir \<noteq> slash" "slash \<in> set ?dir"
    using normalize_shape [of imageName] ok(1) by auto
  with tryIBLDir_complete [of ex ?dir] assms(2) p have "p = ?dir" by simp
  with tryIBLDir_complete [of ex ?dir] \<open>last ?dir \<noteq> slash\<close> \<open>slash \<in> set ?dir\<close> assms(2) p ok(2)
  show ?thesis by (simp only: simp_thms)
qed

theorem resolveIBLPath_complete_witness:
  "resolveIBLPath (\<lambda>_. True) None ''/home/u/.local/share'' ''/old/snowyField''
     = ''/home/u/.local/share/okular/ibl/snowyField'' \<and> iblNameOK ''snowyField''"
proof -
  have eq: "resolveIBLPath (\<lambda>_. True) None ''/home/u/.local/share'' ''/old/snowyField''
      = ''/home/u/.local/share/okular/ibl/snowyField''"
    and n: "normalizeIBLName ''/old/snowyField'' = ''snowyField''"
    by code_simp+
  with resolveIBLPath_complete [OF eq] show ?thesis by simp
qed

end
