(* ===== verification/V3dWriter.thy ===== *)
theory V3dWriter
  imports V3dFile IblNames
begin

text \<open>
  The exporter of \<^verbatim>\<open>asymptote/v3dfile.cc\<close> and \<^verbatim>\<open>asymptote/v3dfile.h\<close>, which produces the files the
  loader reads. Doubles are given by their bit patterns; \<open>singleprecision\<close> is the setting that
  makes \<open>oxstream\<close> narrow every \<open>double\<close> to a \<open>float\<close>. The globals \<open>drawElement::centerIndex\<close> and
  \<open>materialIndex\<close> that the drawing code sets between two calls are arguments of the calls.
  The end of the theory proves that the loader reads back what this writer wrote.
\<close>

section \<open>Scalars and aggregates (triple.h, pair.h, rgba.h)\<close>

fun write_triple :: "bool \<Rightarrow> float64 vec3 \<Rightarrow> byte list" where
  "write_triple sp (V3 x y z) = write_double sp x @ write_double sp y @ write_double sp z"

fun write_pair :: "bool \<Rightarrow> float64 vec2 \<Rightarrow> byte list" where
  "write_pair sp (V2 x y) = write_double sp x @ write_double sp y"

fun write_RGBAColour :: "float64 vec4 \<Rightarrow> byte list" where
  "write_RGBAColour (V4 r g b a) =
     write_float (f64_to_f32 r) @ write_float (f64_to_f32 g) @
     write_float (f64_to_f32 b) @ write_float (f64_to_f32 a)"

definition write_bool :: "bool \<Rightarrow> byte list" where
  "write_bool b = write_uint32 (if b then 1 else 0)"

definition addTriples :: "bool \<Rightarrow> float64 vec3 list \<Rightarrow> byte list" where
  "addTriples sp ts = concat (map (write_triple sp) ts)"

definition addColors :: "float64 vec4 list \<Rightarrow> byte list" where
  "addColors cs = concat (map write_RGBAColour cs)"

fun addIndices :: "uint32 vec3 \<Rightarrow> byte list" where
  "addIndices (V3 a b c) = write_uint32 a @ write_uint32 b @ write_uint32 c"

fun addvec4 :: "float32 vec4 \<Rightarrow> byte list" where
  "addvec4 (V4 x y z w) = write_float x @ write_float y @ write_float z @ write_float w"

record globals =
  centerIndex :: uint32
  materialIndex :: uint32

definition addCenterIndexMat :: "globals \<Rightarrow> byte list" where
  "addCenterIndexMat g = write_uint32 (centerIndex g) @ write_uint32 (materialIndex g)"

section \<open>The add operations\<close>

definition addColoured :: "ObjectTypes \<Rightarrow> ObjectTypes \<Rightarrow> bool \<Rightarrow> globals \<Rightarrow> float64 vec3 list \<Rightarrow>
    float64 vec4 list option \<Rightarrow> byte list" where
  "addColoured plain coloured sp g controls c =
     write_uint32 (object_code (if c \<noteq> None then coloured else plain)) @
     addTriples sp controls @ addCenterIndexMat g @
     (case c of Some cs \<Rightarrow> addColors cs | None \<Rightarrow> [])"

definition addPatch :: "bool \<Rightarrow> globals \<Rightarrow> float64 vec3 list \<Rightarrow> float64 vec4 list option \<Rightarrow> byte list" where
  "addPatch = addColoured BEZIER_PATCH BEZIER_PATCH_COLOR"

definition addStraightPatch ::
  "bool \<Rightarrow> globals \<Rightarrow> float64 vec3 list \<Rightarrow> float64 vec4 list option \<Rightarrow> byte list" where
  "addStraightPatch = addColoured QUAD QUAD_COLOR"

definition addBezierTriangle ::
  "bool \<Rightarrow> globals \<Rightarrow> float64 vec3 list \<Rightarrow> float64 vec4 list option \<Rightarrow> byte list" where
  "addBezierTriangle = addColoured BEZIER_TRIANGLE BEZIER_TRIANGLE_COLOR"

definition addStraightBezierTriangle ::
  "bool \<Rightarrow> globals \<Rightarrow> float64 vec3 list \<Rightarrow> float64 vec4 list option \<Rightarrow> byte list" where
  "addStraightBezierTriangle = addColoured TRIANGLE TRIANGLE_COLOR"

record wMaterial =
  wdiffuse :: "float32 vec4"
  wemissive :: "float32 vec4"
  wspecular :: "float32 vec4"
  wparameters :: "float32 vec4"

definition addMaterial :: "wMaterial \<Rightarrow> byte list" where
  "addMaterial m = write_uint32 (object_code MATERIAL) @
     addvec4 (wdiffuse m) @ addvec4 (wemissive m) @ addvec4 (wspecular m) @
     addvec4 (wparameters m)"

definition addHemisphere ::
  "bool \<Rightarrow> globals \<Rightarrow> float64 vec3 \<Rightarrow> float64 \<Rightarrow> float64 \<Rightarrow> float64 \<Rightarrow> byte list" where
  "addHemisphere sp g center radius polar azimuth =
     write_uint32 (object_code HALF_SPHERE) @ write_triple sp center @ write_double sp radius @
     addCenterIndexMat g @ write_double sp polar @ write_double sp azimuth"

definition addSphere :: "bool \<Rightarrow> globals \<Rightarrow> float64 vec3 \<Rightarrow> float64 \<Rightarrow> byte list" where
  "addSphere sp g center radius =
     write_uint32 (object_code SPHERE) @ write_triple sp center @ write_double sp radius @
     addCenterIndexMat g"

definition addCylinder :: "bool \<Rightarrow> globals \<Rightarrow> float64 vec3 \<Rightarrow> float64 \<Rightarrow> float64 \<Rightarrow> float64 \<Rightarrow>
    float64 \<Rightarrow> bool \<Rightarrow> byte list" where
  "addCylinder sp g center radius height polar azimuth core =
     write_uint32 (object_code CYLINDER) @ write_triple sp center @ write_double sp radius @
     write_double sp height @ addCenterIndexMat g @ write_double sp polar @
     write_double sp azimuth @ write_bool core"

definition addDisk ::
  "bool \<Rightarrow> globals \<Rightarrow> float64 vec3 \<Rightarrow> float64 \<Rightarrow> float64 \<Rightarrow> float64 \<Rightarrow> byte list" where
  "addDisk sp g center radius polar azimuth =
     write_uint32 (object_code DISK) @ write_triple sp center @ write_double sp radius @
     addCenterIndexMat g @ write_double sp polar @ write_double sp azimuth"

definition addTube :: "bool \<Rightarrow> globals \<Rightarrow> float64 vec3 list \<Rightarrow> float64 \<Rightarrow> bool \<Rightarrow> byte list" where
  "addTube sp g ctrl width core =
     write_uint32 (object_code TUBE) @ addTriples sp ctrl @ write_double sp width @
     addCenterIndexMat g @ write_bool core"

text \<open>\<open>distinct\<close> of \<^verbatim>\<open>abs3doutfile.h\<close>.\<close>

fun distinct_idx :: "uint32 vec3 \<Rightarrow> uint32 vec3 \<Rightarrow> bool" where
  "distinct_idx (V3 a b c) (V3 a' b' c') \<longleftrightarrow> a \<noteq> a' \<or> b \<noteq> b' \<or> c \<noteq> c'"

text \<open>\<open>addTriangles\<close>. The second search sets \<open>explicitNI\<close> (not \<open>explicitCI\<close>), after \<open>explicitNI\<close>
  has been written. Each triangle is given with its three index triples \<open>(PI, NI, CI)\<close>.\<close>

definition addTriangles :: "bool \<Rightarrow> globals \<Rightarrow> float64 vec3 list \<Rightarrow> float64 vec3 list \<Rightarrow>
    float64 vec4 list \<Rightarrow> (uint32 vec3 \<times> uint32 vec3 \<times> uint32 vec3) list \<Rightarrow> byte list" where
  "addTriangles sp g P N C tris =
     (let nI = length tris; nC = length C;
          explicitNI = list_ex (\<lambda>(p, n, c). distinct_idx n p) tris;
          explicitCI = False;
          explicitNI' = (explicitNI \<or> nC > 0 \<and> list_ex (\<lambda>(p, n, c). distinct_idx c p) tris)
      in write_uint32 (object_code TRIANGLES) @ write_uint32 (of_nat nI) @
         write_uint32 (of_nat (length P)) @ addTriples sp P @
         write_uint32 (of_nat (length N)) @ addTriples sp N @
         write_bool explicitNI @
         write_uint32 (of_nat nC) @
         (if nC > 0 then addColors C @ write_bool explicitCI else []) @
         concat (map (\<lambda>(p, n, c).
           addIndices p @ (if explicitNI' then addIndices n else []) @
           (if nC > 0 \<and> explicitCI then addIndices c else [])) tris) @
         addCenterIndexMat g)"

definition addCurve4 :: "bool \<Rightarrow> globals \<Rightarrow> float64 vec3 \<Rightarrow> float64 vec3 \<Rightarrow> float64 vec3 \<Rightarrow>
    float64 vec3 \<Rightarrow> byte list" where
  "addCurve4 sp g z0 c0 c1 z1 =
     write_uint32 (object_code CURVE) @ addTriples sp [z0, c0, c1, z1] @ addCenterIndexMat g"

definition addCurve2 :: "bool \<Rightarrow> globals \<Rightarrow> float64 vec3 \<Rightarrow> float64 vec3 \<Rightarrow> byte list" where
  "addCurve2 sp g z0 z1 =
     write_uint32 (object_code LINE) @ addTriples sp [z0, z1] @ addCenterIndexMat g"

definition addPixel :: "bool \<Rightarrow> globals \<Rightarrow> float64 vec3 \<Rightarrow> float64 \<Rightarrow> byte list" where
  "addPixel sp g z0 width =
     write_uint32 (object_code PIXEL) @ write_triple sp z0 @ write_double sp width @
     write_uint32 (materialIndex g)"

definition addCenters :: "bool \<Rightarrow> float64 vec3 list \<Rightarrow> byte list" where
  "addCenters sp cs =
     write_uint32 (object_code CENTERS) @ write_uint32 (of_nat (length cs)) @
     (if length cs > 0 then addTriples sp cs else [])"

section \<open>Headers (class AHeader and its subclasses)\<close>

datatype AHeader =
    Uint32Header HeaderTypes uint32
  | TripleHeader HeaderTypes "float64 vec3"
  | PairHeader HeaderTypes "float64 vec2"
  | DoubleHeader HeaderTypes float64
  | RGBAHeader HeaderTypes "float64 vec4"
  | StringHeader HeaderTypes string
  | LightHeader "float64 vec3" "float64 vec4"

fun header_ty :: "AHeader \<Rightarrow> HeaderTypes" where
  "header_ty (Uint32Header t _) = t"
| "header_ty (TripleHeader t _) = t"
| "header_ty (PairHeader t _) = t"
| "header_ty (DoubleHeader t _) = t"
| "header_ty (RGBAHeader t _) = t"
| "header_ty (StringHeader t _) = t"
| "header_ty (LightHeader _ _) = LIGHT"

definition SingleObjectHeader_wordSize :: "bool \<Rightarrow> nat \<Rightarrow> nat \<Rightarrow> nat" where
  "SingleObjectHeader_wordSize singleprecision realWords floatWords =
     (if singleprecision then 1 else 2) * realWords + floatWords"

fun getWordSize :: "bool \<Rightarrow> AHeader \<Rightarrow> uint32" where
  "getWordSize sp (Uint32Header _ _) = of_nat (SingleObjectHeader_wordSize sp 0 1)"
| "getWordSize sp (TripleHeader _ _) = of_nat (SingleObjectHeader_wordSize sp 3 0)"
| "getWordSize sp (PairHeader _ _) = of_nat (SingleObjectHeader_wordSize sp 2 0)"
| "getWordSize sp (DoubleHeader _ _) = of_nat (SingleObjectHeader_wordSize sp 1 0)"
| "getWordSize sp (RGBAHeader _ _) = of_nat (SingleObjectHeader_wordSize sp 0 4)"
| "getWordSize sp (StringHeader _ s) = of_nat (2 + (length s + 3) div 4)"
| "getWordSize sp (LightHeader _ _) = of_nat ((if sp then 1 else 2) * 3 + 3)"

definition StringHeader_writeContent :: "string \<Rightarrow> byte list" where
  "StringHeader_writeContent s =
     write_uint64 (of_nat (length s)) @ map byte_of_char s @
     replicate (4 * ((length s + 3) div 4) - length s) 0"

definition LightHeader_writeContent :: "bool \<Rightarrow> float64 vec3 \<Rightarrow> float64 vec4 \<Rightarrow> byte list" where
  "LightHeader_writeContent sp d c =
     write_triple sp d @ write_float (f64_to_f32 (v4r c)) @ write_float (f64_to_f32 (v4g c)) @
     write_float (f64_to_f32 (v4b c))"

fun writeContent :: "bool \<Rightarrow> AHeader \<Rightarrow> byte list" where
  "writeContent sp (Uint32Header _ w) = write_uint32 w"
| "writeContent sp (TripleHeader _ v) = write_triple sp v"
| "writeContent sp (PairHeader _ v) = write_pair sp v"
| "writeContent sp (DoubleHeader _ x) = write_double sp x"
| "writeContent sp (RGBAHeader _ c) = write_RGBAColour c"
| "writeContent sp (StringHeader _ s) = StringHeader_writeContent s"
| "writeContent sp (LightHeader d c) = LightHeader_writeContent sp d c"

text \<open>What \<open>addHeaders\<close> reads of the renderer and of the settings. \<open>scaledShift\<close> is
  \<open>Shift*Zoom0\<close> when \<open>Shift\<close> is not zero.\<close>

record scene =
  fullWidth :: uint32
  fullHeight :: uint32
  sAbsolute :: bool
  Xmin_Ymin_Zmin :: "float64 vec3"
  Xmax_Ymax_Zmax :: "float64 vec3"
  sOrthographic :: bool
  Angle :: float64
  Zoom0 :: float64
  scaledShift :: "float64 vec2 option"
  Margin :: "float64 vec2"
  Lights :: "(float64 vec3 \<times> float64 vec4) list"
  Background :: "float64 vec4"
  szoomfactor :: float64
  szoomPinchFactor :: float64
  szoomPinchCap :: float64
  szoomstep :: float64
  sshiftHoldDistance :: float64
  sshiftWaitTime :: float64
  svibrateTime :: float64
  ibl :: bool
  image :: string

definition headers :: "scene \<Rightarrow> AHeader list" where
  "headers gl =
     [Uint32Header CANVAS_WIDTH (fullWidth gl), Uint32Header CANVAS_HEIGHT (fullHeight gl),
      Uint32Header V3D_ABSOLUTE (if sAbsolute gl then 1 else 0),
      TripleHeader MIN_BOUND (Xmin_Ymin_Zmin gl), TripleHeader MAX_BOUND (Xmax_Ymax_Zmax gl),
      Uint32Header ORTHOGRAPHIC (if sOrthographic gl then 1 else 0),
      DoubleHeader ANGLE_OF_VIEW (Angle gl), DoubleHeader INITIAL_ZOOM (Zoom0 gl)] @
     (case scaledShift gl of Some p \<Rightarrow> [PairHeader VIEWPORT_SHIFT p] | None \<Rightarrow> []) @
     [PairHeader VIEWPORT_MARGIN (Margin gl)] @
     map (\<lambda>(d, c). LightHeader d c) (Lights gl) @
     [RGBAHeader BACKGROUND (Background gl),
      DoubleHeader ZOOM_FACTOR (szoomfactor gl),
      DoubleHeader ZOOM_PINCH_FACTOR (szoomPinchFactor gl),
      DoubleHeader ZOOM_PINCH_CAP (szoomPinchCap gl),
      DoubleHeader ZOOM_STEP (szoomstep gl),
      DoubleHeader SHIFT_HOLD_DISTANCE (sshiftHoldDistance gl),
      DoubleHeader SHIFT_WAIT_TIME (sshiftWaitTime gl),
      DoubleHeader VIBRATE_TIME (svibrateTime gl)] @
     (if ibl gl \<and> image gl \<noteq> [] \<and> settings_iblNameOK (image gl)
      then [StringHeader IMAGE (image gl)] else [])"

definition write_header :: "bool \<Rightarrow> AHeader \<Rightarrow> byte list" where
  "write_header sp h =
     write_uint32 (header_code (header_ty h)) @ write_uint32 (getWordSize sp h) @
     writeContent sp h"

definition addHeaders :: "bool \<Rightarrow> scene \<Rightarrow> byte list" where
  "addHeaders sp gl =
     write_uint32 (object_code HEADER) @ write_uint32 (of_nat (length (headers gl))) @
     concat (map (write_header sp) (headers gl))"

definition v3dVersion :: uint32 where "v3dVersion = 2"

definition writeInit :: "bool \<Rightarrow> scene \<Rightarrow> byte list" where
  "writeInit sp gl = write_uint32 v3dVersion @ write_bool (\<not> sp) @ addHeaders sp gl"

section \<open>An export session\<close>

datatype draw_op =
    AddPatch globals "float64 vec3 list" "float64 vec4 list option"
  | AddStraightPatch globals "float64 vec3 list" "float64 vec4 list option"
  | AddBezierTriangle globals "float64 vec3 list" "float64 vec4 list option"
  | AddStraightBezierTriangle globals "float64 vec3 list" "float64 vec4 list option"
  | AddMaterial wMaterial
  | AddHemisphere globals "float64 vec3" float64 float64 float64
  | AddSphere globals "float64 vec3" float64
  | AddCylinder globals "float64 vec3" float64 float64 float64 float64 bool
  | AddDisk globals "float64 vec3" float64 float64 float64
  | AddTube globals "float64 vec3 list" float64 bool
  | AddTriangles globals "float64 vec3 list" "float64 vec3 list" "float64 vec4 list"
      "(uint32 vec3 \<times> uint32 vec3 \<times> uint32 vec3) list"
  | AddCurve4 globals "float64 vec3" "float64 vec3" "float64 vec3" "float64 vec3"
  | AddCurve2 globals "float64 vec3" "float64 vec3"
  | AddPixel globals "float64 vec3" float64

fun write_op :: "bool \<Rightarrow> draw_op \<Rightarrow> byte list" where
  "write_op sp (AddPatch g cs c) = addPatch sp g cs c"
| "write_op sp (AddStraightPatch g cs c) = addStraightPatch sp g cs c"
| "write_op sp (AddBezierTriangle g cs c) = addBezierTriangle sp g cs c"
| "write_op sp (AddStraightBezierTriangle g cs c) = addStraightBezierTriangle sp g cs c"
| "write_op sp (AddMaterial m) = addMaterial m"
| "write_op sp (AddHemisphere g v r p a) = addHemisphere sp g v r p a"
| "write_op sp (AddSphere g v r) = addSphere sp g v r"
| "write_op sp (AddCylinder g v r h p a k) = addCylinder sp g v r h p a k"
| "write_op sp (AddDisk g v r p a) = addDisk sp g v r p a"
| "write_op sp (AddTube g vs w k) = addTube sp g vs w k"
| "write_op sp (AddTriangles g P N C ts) = addTriangles sp g P N C ts"
| "write_op sp (AddCurve4 g a b c d) = addCurve4 sp g a b c d"
| "write_op sp (AddCurve2 g a b) = addCurve2 sp g a b"
| "write_op sp (AddPixel g v w) = addPixel sp g v w"

text \<open>The \<open>finalized\<close> flag of class \<open>v3dfile\<close>: the centers are written once, however often
  \<open>finalize\<close> is called (\<open>close\<close> calls it again from the destructor).\<close>

record v3dfile =
  out :: "byte list"
  finalized :: bool

definition finalize :: "bool \<Rightarrow> float64 vec3 list \<Rightarrow> v3dfile \<Rightarrow> v3dfile" where
  "finalize sp cs w =
     (if \<not> finalized w then \<lparr>out = out w @ addCenters sp cs, finalized = True\<rparr> else w)"

definition v3dfile_open :: "bool \<Rightarrow> scene \<Rightarrow> v3dfile" where
  "v3dfile_open sp gl = \<lparr>out = writeInit sp gl, finalized = False\<rparr>"

definition v3dfile_op :: "bool \<Rightarrow> draw_op \<Rightarrow> v3dfile \<Rightarrow> v3dfile" where
  "v3dfile_op sp dop w = w\<lparr>out := out w @ write_op sp dop\<rparr>"

definition export :: "bool \<Rightarrow> scene \<Rightarrow> draw_op list \<Rightarrow> float64 vec3 list \<Rightarrow> byte list" where
  "export sp gl ops cs =
     out (finalize sp cs (finalize sp cs (fold (v3dfile_op sp) ops (v3dfile_open sp gl))))"

section \<open>Reading back the scalars and aggregates\<close>

text \<open>The value a double has after the trip: unchanged in double precision, rounded to \<open>float\<close>
  and widened again in single precision.\<close>

definition trip :: "bool \<Rightarrow> float64 \<Rightarrow> float64" where
  "trip sp x = (if sp then f32_to_f64 (f64_to_f32 x) else x)"

definition flag :: "bool \<Rightarrow> uint32" where "flag b = (if b then 1 else 0)"

definition back3 :: "bool \<Rightarrow> float64 vec3 \<Rightarrow> REAL vec3" where
  "back3 sp = map_vec3 (Some \<circ> trip sp)"

definition backc :: "float64 vec4 \<Rightarrow> FLOAT vec4" where
  "backc = map_vec4 (Some \<circ> f64_to_f32)"

lemma reads_eq: "reads r bs v \<Longrightarrow> v = w \<Longrightarrow> reads r bs w" by simp

lemma reads_return_Nil: "v = w \<Longrightarrow> reads (State_Monad.return v) [] w" by simp

lemma reads_bind_last: "reads r bs v \<Longrightarrow> reads (f v) [] w \<Longrightarrow> reads (State_Monad.bind r f) bs w"
  using reads_bind [of r bs v f "[]" w] by simp

lemma reads_readReal: "reads (readReal (flag (\<not> sp))) (write_double sp x) (Some (trip sp x))"
proof (cases sp)
  case True
  have "reads (do { val \<leftarrow> read_float; State_Monad.return (map_option f32_to_f64 val) })
      (write_float (f64_to_f32 x)) (map_option f32_to_f64 (Some (f64_to_f32 x)))"
    by (rule reads_bind_return [OF f32.rd_wr])
  with True show ?thesis by (simp add: readReal_def flag_def write_double_def trip_def)
next
  case False
  with f64.rd_wr [of x] show ?thesis by (simp add: readReal_def flag_def trip_def)
qed

lemma reads_bool: "reads read_uint32 (write_bool b) (Some (flag b))"
  using u32.rd_wr by (simp add: write_bool_def flag_def)

lemma reads_TRIPLE: "reads (read_TRIPLE (flag (\<not> sp))) (write_triple sp v) (back3 sp v)"
  unfolding read_TRIPLE_def
  by (cases v) (auto intro!: reads_bind [OF reads_readReal] reads_bind_last [OF reads_readReal]
      reads_return_Nil simp: back3_def)

lemma reads_PAIR:
  "reads (read_PAIR (flag (\<not> sp))) (write_pair sp v) (map_vec2 (Some \<circ> trip sp) v)"
  unfolding read_PAIR_def
  by (cases v) (auto intro!: reads_bind [OF reads_readReal] reads_bind_last [OF reads_readReal]
      reads_return_Nil)

lemma reads_RGBA: "reads read_RGBA (write_RGBAColour c) (backc c)"
  unfolding read_RGBA_def
  by (cases c) (auto intro!: reads_bind [OF f32.rd_wr] reads_bind_last [OF f32.rd_wr]
      reads_return_Nil simp: backc_def)

lemma reads_vec4: "reads read_RGBA (addvec4 c) (map_vec4 Some c)"
  unfolding read_RGBA_def
  by (cases c) (auto intro!: reads_bind [OF f32.rd_wr] reads_bind_last [OF f32.rd_wr]
      reads_return_Nil)

lemma reads_indices: "reads read_indices (addIndices i) i"
  unfolding read_indices_def
  by (cases i) (auto intro!: reads_bind [OF u32.rd_wr] reads_bind_last [OF u32.rd_wr]
      reads_return_Nil simp: or_zero_def)

lemma reads_triples:
  "length vs = n \<Longrightarrow>
   reads (read_n n (read_TRIPLE (flag (\<not> sp)))) (addTriples sp vs) (map (back3 sp) vs)"
  unfolding addTriples_def by (rule reads_read_n [OF reads_TRIPLE])

lemma reads_colors: "length cs = n \<Longrightarrow> reads (read_n n read_RGBA) (addColors cs) (map backc cs)"
  unfolding addColors_def by (rule reads_read_n [OF reads_RGBA])

lemma reads_points:
  assumes "length vs = n"
  shows "reads (read_points_ci_mi n K (flag (\<not> sp))) (addTriples sp vs @ addCenterIndexMat g)
    (K (map (back3 sp) vs) (Some (centerIndex g)) (Some (materialIndex g)))"
  unfolding read_points_ci_mi_def addCenterIndexMat_def
  by (intro reads_bind [OF reads_triples [OF assms]] reads_bind [OF u32.rd_wr]
      reads_bind_last [OF u32.rd_wr] reads_return_Nil refl)

lemma reads_points_colors:
  assumes "length vs = n" and "length cs = k"
  shows "reads (read_points_ci_mi_colors n k K (flag (\<not> sp)))
    (addTriples sp vs @ addCenterIndexMat g @ addColors cs)
    (K (map (back3 sp) vs) (Some (centerIndex g)) (Some (materialIndex g)) (map backc cs))"
  unfolding read_points_ci_mi_colors_def addCenterIndexMat_def append_assoc
  by (intro reads_bind [OF reads_triples [OF assms(1)]] reads_bind [OF u32.rd_wr]
      reads_bind_last [OF reads_colors [OF assms(2)]] reads_return_Nil refl)

section \<open>Reading back one drawing operation\<close>

text \<open>The sizes the callers guarantee (fixed arrays in the C++ code), the counts the reader
  accepts and, for triangle groups with colours, colour indices equal to the position indices.\<close>

fun op_ok :: "draw_op \<Rightarrow> bool" where
  "op_ok (AddPatch g cs c) = (length cs = 16 \<and> pred_option (\<lambda>k. length k = 4) c)"
| "op_ok (AddStraightPatch g cs c) = (length cs = 4 \<and> pred_option (\<lambda>k. length k = 4) c)"
| "op_ok (AddBezierTriangle g cs c) = (length cs = 10 \<and> pred_option (\<lambda>k. length k = 3) c)"
| "op_ok (AddStraightBezierTriangle g cs c) =
     (length cs = 3 \<and> pred_option (\<lambda>k. length k = 3) c)"
| "op_ok (AddTube g vs w k) = (length vs = 4)"
| "op_ok (AddTriangles g P N C ts) =
     (length P \<le> 10000000 \<and> length N \<le> 10000000 \<and> length C \<le> 10000000 \<and>
      length ts \<le> 10000000 \<and> (C \<noteq> [] \<longrightarrow> list_all (\<lambda>(p, n, c). c = p) ts))"
| "op_ok _ = True"

fun readback :: "bool \<Rightarrow> draw_op \<Rightarrow> parsed_object list" where
  "readback sp (AddPatch g cs c) = [case c of
     None \<Rightarrow> V3dBezierPatch (map (back3 sp) cs) (Some (centerIndex g)) (Some (materialIndex g))
   | Some k \<Rightarrow> V3dBezierPatchWithCornerColors (map (back3 sp) cs)
       (Some (centerIndex g)) (Some (materialIndex g)) (map backc k)]"
| "readback sp (AddStraightPatch g cs c) = [case c of
     None \<Rightarrow> V3dStraightPlanarQuad (map (back3 sp) cs)
       (Some (centerIndex g)) (Some (materialIndex g))
   | Some k \<Rightarrow> V3dStraightPlanarQuadWithCornerColors (map (back3 sp) cs)
       (Some (centerIndex g)) (Some (materialIndex g)) (map backc k)]"
| "readback sp (AddBezierTriangle g cs c) = [case c of
     None \<Rightarrow> V3dBezierTriangle (map (back3 sp) cs)
       (Some (centerIndex g)) (Some (materialIndex g))
   | Some k \<Rightarrow> V3dBezierTriangleWithCornerColors (map (back3 sp) cs)
       (Some (centerIndex g)) (Some (materialIndex g)) (map backc k)]"
| "readback sp (AddStraightBezierTriangle g cs c) = [case c of
     None \<Rightarrow> V3dStraightTriangle (map (back3 sp) cs)
       (Some (centerIndex g)) (Some (materialIndex g))
   | Some k \<Rightarrow> V3dStraightTriangleWithCornerColors (map (back3 sp) cs)
       (Some (centerIndex g)) (Some (materialIndex g)) (map backc k)]"
| "readback sp (AddMaterial m) = []"
| "readback sp (AddHemisphere g v r p a) = [V3dHemiSphere (back3 sp v) (Some (trip sp r))
     (Some (centerIndex g)) (Some (materialIndex g)) (Some (trip sp p)) (Some (trip sp a))]"
| "readback sp (AddSphere g v r) = [V3dSphere (back3 sp v) (Some (trip sp r))
     (Some (centerIndex g)) (Some (materialIndex g))]"
| "readback sp (AddCylinder g v r h p a k) = [V3dCylinder (back3 sp v) (Some (trip sp r))
     (Some (trip sp h)) (Some (centerIndex g)) (Some (materialIndex g)) (Some (trip sp p))
     (Some (trip sp a)) (Some (flag k))]"
| "readback sp (AddDisk g v r p a) = [V3dDisk (back3 sp v) (Some (trip sp r))
     (Some (centerIndex g)) (Some (materialIndex g)) (Some (trip sp p)) (Some (trip sp a))]"
| "readback sp (AddTube g vs w k) = [V3dTube (map (back3 sp) vs) (Some (trip sp w))
     (Some (centerIndex g)) (Some (materialIndex g)) (Some (flag k))]"
| "readback sp (AddTriangles g P N C ts) = [V3dTriangleGroup (TriGroup
     (of_nat (length ts)) (of_nat (length P)) (map (back3 sp) P)
     (Some (of_nat (length N))) (map (back3 sp) N)
     (Some (flag (list_ex (\<lambda>(p, n, c). n \<noteq> p) ts)))
     (Some (of_nat (length C))) (map (map_vec4 f64_to_f32) C)
     (if C = [] then None else Some 0)
     (map fst ts) (map (fst \<circ> snd) ts) (map fst ts)
     (Some (centerIndex g)) (Some (materialIndex g)))]"
| "readback sp (AddCurve4 g a b c d) = [V3dBezierCurve (map (back3 sp) [a, b, c, d])
     (Some (centerIndex g)) (Some (materialIndex g))]"
| "readback sp (AddCurve2 g a b) = [V3dLineSegment (map (back3 sp) [a, b])
     (Some (centerIndex g)) (Some (materialIndex g))]"
| "readback sp (AddPixel g v w) = [V3dPixel (back3 sp v) (Some (trip sp w))
     (Some (materialIndex g))]"

fun readback_material :: "draw_op \<Rightarrow> FLOAT V3dMaterial list" where
  "readback_material (AddMaterial m) = [map_V3dMaterial Some
     (Material (wdiffuse m) (wemissive m) (wspecular m) (v4r (wparameters m))
       (v4g (wparameters m)) (v4b (wparameters m)) (v4a (wparameters m)))]"
| "readback_material _ = []"

text \<open>\<open>item_of v dp f bs f'\<close>: the bytes are one item (type word and payload) that takes the file
  from \<open>f\<close> to \<open>f'\<close> without stopping the parse.\<close>

definition item_of :: "uint32 \<Rightarrow> uint32 \<Rightarrow> V3dFile_data \<Rightarrow> byte list \<Rightarrow> V3dFile_data \<Rightarrow> bool" where
  "item_of v dp f bs f' \<longleftrightarrow> (\<exists>t payload. bs = write_uint32 (object_code t) @ payload \<and>
     reads (load_switch v dp f (Some t)) payload (Some (f', False)))"

lemma item_ofI:
  "reads (load_switch v dp f (Some t)) payload (Some (f', False)) \<Longrightarrow>
     item_of v dp f (write_uint32 (object_code t) @ payload) f'"
  unfolding item_of_def by blast

lemma reads_push_object:
  "reads c bs ob \<Longrightarrow> reads (push_object f c) bs (Some (f\<lparr>objects := objects f @ [ob]\<rparr>, False))"
  unfolding push_object_def by (rule reads_bind_return)

lemma item_object:
  assumes "reads c bs ob" and "load_switch v dp f (Some t) = push_object f c"
  shows "item_of v dp f (write_uint32 (object_code t) @ bs) (f\<lparr>objects := objects f @ [ob]\<rparr>)"
  unfolding item_of_def using assms reads_push_object by metis

lemma item_points:
  assumes "length vs = n"
    and "load_switch v (flag (\<not> sp)) f (Some t) = push_object f (read_points_ci_mi n K (flag (\<not> sp)))"
  shows "item_of v (flag (\<not> sp)) f
    (write_uint32 (object_code t) @ addTriples sp vs @ addCenterIndexMat g)
    (f\<lparr>objects := objects f @
      [K (map (back3 sp) vs) (Some (centerIndex g)) (Some (materialIndex g))]\<rparr>)"
  by (rule item_object [OF reads_points [OF assms(1)] assms(2)])

lemma item_points_colors:
  assumes "length vs = n" "length cs = k" and "load_switch v (flag (\<not> sp)) f (Some t) =
      push_object f (read_points_ci_mi_colors n k K (flag (\<not> sp)))"
  shows "item_of v (flag (\<not> sp)) f
    (write_uint32 (object_code t) @ addTriples sp vs @ addCenterIndexMat g @ addColors cs)
    (f\<lparr>objects := objects f @ [K (map (back3 sp) vs) (Some (centerIndex g))
       (Some (materialIndex g)) (map backc cs)]\<rparr>)"
  by (rule item_object [OF reads_points_colors [OF assms(1,2)] assms(3)])

lemma item_coloured:
  assumes "length vs = n" "pred_option (\<lambda>k. length k = m) c"
    and "load_switch v (flag (\<not> sp)) f (Some plain) = push_object f (read_points_ci_mi n K (flag (\<not> sp)))"
    and "load_switch v (flag (\<not> sp)) f (Some coloured) =
      push_object f (read_points_ci_mi_colors n m L (flag (\<not> sp)))"
  shows "item_of v (flag (\<not> sp)) f (addColoured plain coloured sp g vs c)
    (f\<lparr>objects := objects f @ [case c of
       None \<Rightarrow> K (map (back3 sp) vs) (Some (centerIndex g)) (Some (materialIndex g))
     | Some k \<Rightarrow> L (map (back3 sp) vs) (Some (centerIndex g)) (Some (materialIndex g))
         (map backc k)]\<rparr>)"
proof (cases c)
  case None
  with item_points [OF assms(1,3)] show ?thesis by (simp add: addColoured_def)
next
  case (Some k)
  with assms(2) have "length k = m" by simp
  from item_points_colors [OF assms(1) this assms(4)] Some show ?thesis
    by (simp add: addColoured_def)
qed

lemmas reads_steps =
  reads_bind [OF reads_TRIPLE] reads_bind [OF reads_readReal] reads_bind [OF u32.rd_wr]
  reads_bind [OF reads_bool] reads_bind_last [OF reads_readReal] reads_bind_last [OF u32.rd_wr]
  reads_bind_last [OF reads_bool] reads_return_Nil

lemma reads_solids:
  "reads (ctor_Sphere (flag (\<not> sp))) (write_triple sp v @ write_double sp r @ addCenterIndexMat g)
     (V3dSphere (back3 sp v) (Some (trip sp r)) (Some (centerIndex g)) (Some (materialIndex g)))"
  "reads (ctor_HemiSphere (flag (\<not> sp)))
     (write_triple sp v @ write_double sp r @ addCenterIndexMat g @ write_double sp p @ write_double sp a)
     (V3dHemiSphere (back3 sp v) (Some (trip sp r)) (Some (centerIndex g)) (Some (materialIndex g))
       (Some (trip sp p)) (Some (trip sp a)))"
  "reads (ctor_Disk (flag (\<not> sp)))
     (write_triple sp v @ write_double sp r @ addCenterIndexMat g @ write_double sp p @ write_double sp a)
     (V3dDisk (back3 sp v) (Some (trip sp r)) (Some (centerIndex g)) (Some (materialIndex g))
       (Some (trip sp p)) (Some (trip sp a)))"
  "reads (ctor_Cylinder (flag (\<not> sp)))
     (write_triple sp v @ write_double sp r @ write_double sp h @ addCenterIndexMat g @
      write_double sp p @ write_double sp a @ write_bool k)
     (V3dCylinder (back3 sp v) (Some (trip sp r)) (Some (trip sp h)) (Some (centerIndex g))
       (Some (materialIndex g)) (Some (trip sp p)) (Some (trip sp a)) (Some (flag k)))"
  "reads (ctor_Pixel (flag (\<not> sp)))
     (write_triple sp v @ write_double sp r @ write_uint32 (materialIndex g))
     (V3dPixel (back3 sp v) (Some (trip sp r)) (Some (materialIndex g)))"
  unfolding ctor_solid_defs addCenterIndexMat_def append_assoc
  by (intro reads_steps refl)+

lemma reads_tube:
  assumes "length vs = 4"
  shows "reads (ctor_Tube (flag (\<not> sp)))
     (addTriples sp vs @ write_double sp w @ addCenterIndexMat g @ write_bool k)
     (V3dTube (map (back3 sp) vs) (Some (trip sp w)) (Some (centerIndex g))
       (Some (materialIndex g)) (Some (flag k)))"
  unfolding ctor_Tube_def addCenterIndexMat_def append_assoc
  by (intro reads_bind [OF reads_triples [OF assms]] reads_steps refl)

lemma reads_material:
  "reads (read_material 2)
     (addvec4 a @ addvec4 b @ addvec4 c @ addvec4 p)
     (map_V3dMaterial Some (Material a b c (v4r p) (v4g p) (v4b p) (v4a p)))"
proof (cases p)
  case (V4 x y z w)
  have "reads (do { sh \<leftarrow> read_float; m \<leftarrow> read_float; fr \<leftarrow> read_float;
      lo \<leftarrow> (if (2::uint32) \<ge> 2 then read_float else State_Monad.return (Some f32_1));
      State_Monad.return (Material (map_vec4 Some a) (map_vec4 Some b) (map_vec4 Some c) sh m fr lo) })
     (addvec4 p) (map_V3dMaterial Some (Material a b c (v4r p) (v4g p) (v4b p) (v4a p)))"
    by (simp add: V4)
      (intro reads_bind [OF f32.rd_wr] reads_bind_last [OF f32.rd_wr] reads_return_Nil refl)
  then show ?thesis
    unfolding read_material_def by (intro reads_bind [OF reads_vec4])
qed

subsection \<open>Triangle groups\<close>

lemma distinct_idx_iff [simp]: "distinct_idx a b \<longleftrightarrow> a \<noteq> b"
  by (cases a; cases b) auto

lemma flag_simps [simp]: "flag True = 1" "flag False = 0" "flag b = 0 \<longleftrightarrow> \<not> b"
  by (simp_all add: flag_def)

lemma small_of_nat:
  assumes "n \<le> 10000000"
  shows "unat (of_nat n :: uint32) = n" and "\<not> (of_nat n :: uint32) > tg_maxCount"
    and "(of_nat n :: uint32) > 0 \<longleftrightarrow> n > 0"
  using assms
  by (simp_all add: unat_of_nat tg_maxCount_def word_less_nat_alt)

definition tri_bytes :: "bool \<Rightarrow> uint32 vec3 \<times> uint32 vec3 \<times> uint32 vec3 \<Rightarrow> byte list" where
  "tri_bytes explicitNI t =
     (case t of (p, n, c) \<Rightarrow> addIndices p @ (if explicitNI then addIndices n else []))"

lemma reads_tri:
  assumes "\<not> e \<longrightarrow> fst (snd t) = fst t"
  shows "reads (read_tg_indices e False) (tri_bytes e t) (fst t, fst (snd t), fst t)"
proof -
  obtain p n c where t: "t = (p, n, c)" by (cases t)
  show ?thesis
  proof (cases e)
    case True
    then show ?thesis
      unfolding read_tg_indices_def t tri_bytes_def
      by (auto intro!: reads_bind [OF reads_indices] reads_bind_last [OF reads_indices]
          reads_bind_last [OF reads_return])
  next
    case False
    with assms t have "n = p" by simp
    with False show ?thesis
      unfolding read_tg_indices_def t tri_bytes_def
      by (auto intro!: reads_bind_last [OF reads_indices] reads_bind_last [OF reads_return])
  qed
qed

lemma or_zero_backc: "map (map_vec4 or_zero) (map backc C) = map (map_vec4 f64_to_f32) C"
  by (auto simp: backc_def vec4.map_comp o_def)

lemma reads_tg_tail:
  assumes "length C \<le> 10000000" "length ts \<le> 10000000"
    and NI: "\<not> e \<longrightarrow> list_all (\<lambda>(p, n, c). n = p) ts"
  shows "reads (read_tg_tail dp (of_nat (length ts)) nP P nN N (Some (flag e)) (of_nat (length C)))
    ((if C \<noteq> [] then addColors C @ write_bool False else []) @
     concat (map (tri_bytes e) ts) @ addCenterIndexMat g)
    (Some (TriGroup (of_nat (length ts)) nP P (Some nN) N (Some (flag e))
      (Some (of_nat (length C))) (map (map_vec4 f64_to_f32) C) (if C = [] then None else Some 0)
      (map fst ts) (map (fst \<circ> snd) ts) (map fst ts)
      (Some (centerIndex g)) (Some (materialIndex g))))"
proof -
  have idx: "reads (read_n (length ts) (read_tg_indices e False)) (concat (map (tri_bytes e) ts))
      (map (\<lambda>t. (fst t, fst (snd t), fst t)) ts)"
    by (rule reads_read_n [OF reads_tri]) (use NI in \<open>auto simp: list_all_iff\<close>)
  have rest: "reads (do { idx \<leftarrow> read_n (length ts) (read_tg_indices e False);
       centerIndex \<leftarrow> read_uint32; materialIndex \<leftarrow> read_uint32;
       State_Monad.return (Some (TriGroup nI nP P (Some nN) N (Some (flag e)) nC CC eCI
         (map fst idx) (map (fst \<circ> snd) idx) (map (snd \<circ> snd) idx)
         centerIndex materialIndex)) })
     (concat (map (tri_bytes e) ts) @ write_uint32 (centerIndex g) @ write_uint32 (materialIndex g))
     (Some (TriGroup nI nP P (Some nN) N (Some (flag e)) nC CC eCI
      (map fst ts) (map (fst \<circ> snd) ts) (map fst ts)
      (Some (centerIndex g)) (Some (materialIndex g))))" for nI nC CC eCI
    by (intro reads_bind [OF idx] reads_bind [OF u32.rd_wr] reads_bind_last [OF u32.rd_wr]
        reads_return_Nil) (simp add: o_def)
  note C = small_of_nat [OF assms(1)] and T = small_of_nat [OF assms(2)]
  show ?thesis
  proof (cases "C = []")
    case True
    show ?thesis
      unfolding read_tg_tail_def addCenterIndexMat_def
      using rest [of "of_nat (length ts)" "Some 0" "[]" None] by (simp add: True T(1))
  next
    case False
    have head: "reads (do { C \<leftarrow> read_n (length C) read_RGBA; explicitCI \<leftarrow> read_uint32;
        K C explicitCI }) (addColors C @ write_bool False @ bs) v"
      if "reads (K (map backc C) (Some 0)) bs v" for K bs v
      using that reads_bool [of False]
      by (intro reads_bind [OF reads_colors [OF refl]] reads_bind [OF reads_bool]) simp
    have pos: "0 < (of_nat (length C) :: uint32)" using False C(3) by simp
    show ?thesis
      unfolding read_tg_tail_def addCenterIndexMat_def
      using False rest [of "of_nat (length ts)" "Some (of_nat (length C))"
          "map (map_vec4 or_zero) (map backc C)" "Some 0"]
      by (simp only: pos C(1) if_True not_False_eq_True append_assoc)
        (rule head, simp add: T(1) or_zero_backc [unfolded map_map])
  qed
qed

lemma addTriangles_bytes:
  assumes "C \<noteq> [] \<longrightarrow> list_all (\<lambda>(p, n, c). c = p) ts"
    and "e = list_ex (\<lambda>(p, n, c). n \<noteq> p) ts"
  shows "addTriangles sp g P N C ts =
    write_uint32 (object_code TRIANGLES) @ write_uint32 (of_nat (length ts)) @
    write_uint32 (of_nat (length P)) @ addTriples sp P @
    write_uint32 (of_nat (length N)) @ addTriples sp N @ write_bool e @
    write_uint32 (of_nat (length C)) @
    ((if C \<noteq> [] then addColors C @ write_bool False else []) @
     concat (map (tri_bytes e) ts) @ addCenterIndexMat g)"
proof -
  have ci: "(e \<or> C \<noteq> [] \<and> list_ex (\<lambda>(p, n, c). c \<noteq> p) ts) = e"
    using assms(1) by (auto simp: list_all_iff list_ex_iff)
  show ?thesis
    using ci assms(2)
    by (simp add: addTriangles_def Let_def tri_bytes_def case_prod_unfold cong: list.map_cong)
qed

lemma reads_TriangleGroup:
  assumes "length P \<le> 10000000" "length N \<le> 10000000" "length C \<le> 10000000"
    "length ts \<le> 10000000" "e = list_ex (\<lambda>(p, n, c). n \<noteq> p) ts"
  shows "reads (ctor_TriangleGroup (flag (\<not> sp)))
    (write_uint32 (of_nat (length ts)) @
     write_uint32 (of_nat (length P)) @ addTriples sp P @
     write_uint32 (of_nat (length N)) @ addTriples sp N @ write_bool e @
     write_uint32 (of_nat (length C)) @
     ((if C \<noteq> [] then addColors C @ write_bool False else []) @
      concat (map (tri_bytes e) ts) @ addCenterIndexMat g))
    (Some (TriGroup (of_nat (length ts)) (of_nat (length P)) (map (back3 sp) P)
      (Some (of_nat (length N))) (map (back3 sp) N) (Some (flag e))
      (Some (of_nat (length C))) (map (map_vec4 f64_to_f32) C) (if C = [] then None else Some 0)
      (map fst ts) (map (fst \<circ> snd) ts) (map fst ts)
      (Some (centerIndex g)) (Some (materialIndex g))))"
proof -
  note P = small_of_nat [OF assms(1)] and N = small_of_nat [OF assms(2)]
    and C = small_of_nat [OF assms(3)] and T = small_of_nat [OF assms(4)]
  have e: "\<not> e \<longrightarrow> list_all (\<lambda>(p, n, c). n = p) ts"
    using assms(5) by (auto simp: list_all_iff list_ex_iff)
  show ?thesis
    unfolding ctor_TriangleGroup_def Let_def
    apply (rule reads_bind [OF u32.rd_wr], rule reads_bind [OF u32.rd_wr])
    apply (simp only: or_zero_Some P(2) T(2) P(1) if_False simp_thms)
    apply (rule reads_bind [OF reads_triples [OF refl]], rule reads_bind [OF u32.rd_wr])
    apply (simp only: or_zero_Some N(2) N(1) if_False)
    apply (rule reads_bind [OF reads_triples [OF refl]], rule reads_bind [OF reads_bool],
        rule reads_bind [OF u32.rd_wr])
    apply (simp only: option.case C(2) if_False)
    apply (rule reads_tg_tail [OF assms(3,4) e])
    done
qed

definition apply_op :: "bool \<Rightarrow> draw_op \<Rightarrow> V3dFile_data \<Rightarrow> V3dFile_data" where
  "apply_op sp dop f =
     f\<lparr>objects := objects f @ readback sp dop, materials := materials f @ readback_material dop\<rparr>"

lemma apply_op_objects:
  "readback_material dop = [] \<Longrightarrow> apply_op sp dop f = f\<lparr>objects := objects f @ readback sp dop\<rparr>"
  by (cases f) (simp add: apply_op_def)

lemma switch_simps:
  "load_switch v dp f (Some LINE) = push_object f (read_points_ci_mi 2 V3dLineSegment dp)"
  "load_switch v dp f (Some CURVE) = push_object f (read_points_ci_mi 4 V3dBezierCurve dp)"
  "load_switch v dp f (Some TRIANGLE) = push_object f (read_points_ci_mi 3 V3dStraightTriangle dp)"
  "load_switch v dp f (Some QUAD) = push_object f (read_points_ci_mi 4 V3dStraightPlanarQuad dp)"
  "load_switch v dp f (Some BEZIER_TRIANGLE) = push_object f (read_points_ci_mi 10 V3dBezierTriangle dp)"
  "load_switch v dp f (Some BEZIER_PATCH) = push_object f (read_points_ci_mi 16 V3dBezierPatch dp)"
  "load_switch v dp f (Some TRIANGLE_COLOR) =
     push_object f (read_points_ci_mi_colors 3 3 V3dStraightTriangleWithCornerColors dp)"
  "load_switch v dp f (Some QUAD_COLOR) =
     push_object f (read_points_ci_mi_colors 4 4 V3dStraightPlanarQuadWithCornerColors dp)"
  "load_switch v dp f (Some BEZIER_TRIANGLE_COLOR) =
     push_object f (read_points_ci_mi_colors 10 3 V3dBezierTriangleWithCornerColors dp)"
  "load_switch v dp f (Some BEZIER_PATCH_COLOR) =
     push_object f (read_points_ci_mi_colors 16 4 V3dBezierPatchWithCornerColors dp)"
  "load_switch v dp f (Some SPHERE) = push_object f (ctor_Sphere dp)"
  "load_switch v dp f (Some HALF_SPHERE) = push_object f (ctor_HemiSphere dp)"
  "load_switch v dp f (Some DISK) = push_object f (ctor_Disk dp)"
  "load_switch v dp f (Some CYLINDER) = push_object f (ctor_Cylinder dp)"
  "load_switch v dp f (Some TUBE) = push_object f (ctor_Tube dp)"
  "load_switch v dp f (Some PIXEL) = push_object f (ctor_Pixel dp)"
  "load_switch v dp f (Some TRIANGLES) = push_group f dp"
  by (simp_all add: load_switch_def ctor_points_defs)

lemma item_material:
  "item_of 2 dp f (addMaterial m) (f\<lparr>materials := materials f @ [map_V3dMaterial Some
     (Material (wdiffuse m) (wemissive m) (wspecular m) (v4r (wparameters m))
       (v4g (wparameters m)) (v4b (wparameters m)) (v4a (wparameters m)))]\<rparr>)"
  unfolding addMaterial_def
  by (rule item_ofI)
    (unfold load_switch_def load_MATERIAL_def option.case ObjectTypes.case,
      intro reads_bind_last [OF reads_bind_return [OF reads_material]] reads_return_Nil refl)

lemma item_triangles:
  assumes "op_ok (AddTriangles g P N C ts)"
  shows "item_of v (flag (\<not> sp)) f (addTriangles sp g P N C ts)
    (f\<lparr>objects := objects f @ readback sp (AddTriangles g P N C ts)\<rparr>)"
proof -
  from assms have ok: "length P \<le> 10000000" "length N \<le> 10000000" "length C \<le> 10000000"
    "length ts \<le> 10000000" and ci: "C \<noteq> [] \<longrightarrow> list_all (\<lambda>(p, n, c). c = p) ts" by auto
  show ?thesis
    unfolding addTriangles_bytes [OF ci refl]
    by (rule item_ofI)
      (unfold switch_simps push_group_def,
        rule reads_eq [OF reads_bind_return [OF reads_TriangleGroup [OF ok refl]]], simp)
qed

lemma item_op:
  assumes "op_ok dop"
  shows "item_of 2 (flag (\<not> sp)) f (write_op sp dop) (apply_op sp dop f)"
proof (cases dop)
  case (AddMaterial m)
  have "apply_op sp dop f = f\<lparr>materials := materials f @ readback_material dop\<rparr>"
    unfolding AddMaterial by (cases f) (simp add: apply_op_def)
  with item_material show ?thesis by (simp add: AddMaterial)
next
  case (AddTriangles g P N C ts)
  with item_triangles assms show ?thesis by (simp add: apply_op_objects)
next
  case (AddTube g vs w k)
  with assms show ?thesis
    by (simp add: apply_op_objects addTube_def del: object_code.simps)
      (rule item_object [OF reads_tube], simp_all add: switch_simps)
qed (use assms in \<open>simp_all del: object_code.simps add: apply_op_objects addPatch_def addStraightPatch_def
    addBezierTriangle_def addStraightBezierTriangle_def addSphere_def addHemisphere_def addDisk_def
    addCylinder_def addPixel_def addCurve4_def addCurve2_def\<close>,
  (rule item_coloured item_object [OF reads_solids(1)] item_object [OF reads_solids(2)]
    item_object [OF reads_solids(3)] item_object [OF reads_solids(4)]
    item_object [OF reads_solids(5)] item_points [where vs = "[_, _]", simplified]
    item_points [where vs = "[_, _, _, _]", simplified]; simp add: switch_simps)+)

section \<open>Reading back the header\<close>

fun header_typed :: "AHeader \<Rightarrow> bool" where
  "header_typed (Uint32Header t _) \<longleftrightarrow>
     t \<in> {CANVAS_WIDTH, CANVAS_HEIGHT, V3D_ABSOLUTE, ORTHOGRAPHIC}"
| "header_typed (TripleHeader t _) \<longleftrightarrow> t \<in> {MIN_BOUND, MAX_BOUND}"
| "header_typed (PairHeader t _) \<longleftrightarrow> t \<in> {VIEWPORT_SHIFT, VIEWPORT_MARGIN}"
| "header_typed (DoubleHeader t _) \<longleftrightarrow> t \<in> {ANGLE_OF_VIEW, INITIAL_ZOOM, ZOOM_FACTOR,
     ZOOM_PINCH_FACTOR, ZOOM_PINCH_CAP, ZOOM_STEP, SHIFT_HOLD_DISTANCE, SHIFT_WAIT_TIME,
     VIBRATE_TIME}"
| "header_typed (RGBAHeader t _) \<longleftrightarrow> t = BACKGROUND"
| "header_typed (StringHeader t s) \<longleftrightarrow> t = IMAGE \<and> length s \<le> kMaxImageName"
| "header_typed (LightHeader _ _) \<longleftrightarrow> True"

definition back_light :: "bool \<Rightarrow> float64 vec3 \<Rightarrow> float64 vec4 \<Rightarrow> Light" where
  "back_light sp d c = \<lparr>direction = back3 sp d,
     color = V3 (f64_to_f32 (v4r c)) (f64_to_f32 (v4g c)) (f64_to_f32 (v4b c))\<rparr>"

fun apply_header :: "bool \<Rightarrow> AHeader \<Rightarrow> V3dHeaderInfo \<Rightarrow> V3dHeaderInfo" where
  "apply_header sp (Uint32Header t w) hi =
     (if t = CANVAS_WIDTH then hi\<lparr>canvasWidth := w\<rparr>
      else if t = CANVAS_HEIGHT then hi\<lparr>canvasHeight := w\<rparr>
      else if t = V3D_ABSOLUTE then hi\<lparr>absolute := w\<rparr>
      else hi\<lparr>orthographic := w\<rparr>)"
| "apply_header sp (TripleHeader t v) hi =
     (if t = MIN_BOUND then hi\<lparr>minBound := back3 sp v\<rparr> else hi\<lparr>maxBound := back3 sp v\<rparr>)"
| "apply_header sp (PairHeader t v) hi =
     (if t = VIEWPORT_SHIFT then hi\<lparr>viewportShift := map_vec2 (Some \<circ> trip sp) v\<rparr>
      else hi\<lparr>viewportMargin := map_vec2 (Some \<circ> trip sp) v\<rparr>)"
| "apply_header sp (DoubleHeader t x) hi =
     (let y = Some (trip sp x)
      in if t = ANGLE_OF_VIEW then hi\<lparr>angleOfView := y\<rparr>
         else if t = INITIAL_ZOOM then hi\<lparr>initialZoom := y\<rparr>
         else if t = ZOOM_FACTOR then hi\<lparr>zoomFactor := y\<rparr>
         else if t = ZOOM_PINCH_FACTOR then hi\<lparr>zoomPinchFactor := y\<rparr>
         else if t = ZOOM_PINCH_CAP then hi\<lparr>zoomPinchCap := y\<rparr>
         else if t = ZOOM_STEP then hi\<lparr>zoomStep := y\<rparr>
         else if t = SHIFT_HOLD_DISTANCE then hi\<lparr>shiftHoldDistance := y\<rparr>
         else if t = SHIFT_WAIT_TIME then hi\<lparr>shiftWaitTime := y\<rparr>
         else hi\<lparr>vibrateTime := y\<rparr>)"
| "apply_header sp (RGBAHeader t c) hi = hi\<lparr>background := map_vec4 f64_to_f32 c\<rparr>"
| "apply_header sp (StringHeader t s) hi = hi\<lparr>imageName := s\<rparr>"
| "apply_header sp (LightHeader d c) hi = hi\<lparr>lights := lights hi @ [back_light sp d c]\<rparr>"

lemma char_byte [simp]: "char_of_byte (byte_of_char c) = c"
proof -
  have "(of_char c :: nat) < 256" by (metis of_char_of of_char_mod_256 mod_less_divisor zero_less_numeral)
  then show ?thesis by (simp add: char_of_byte_def byte_of_char_def unat_of_nat)
qed

lemma reads_bytes: "length bs = n \<Longrightarrow> reads (read_bytes n) bs (bs, False)"
proof (induction bs arbitrary: n)
  case (Cons b bs)
  then obtain m where m: "n = Suc m" "length bs = m" by auto
  have "reads (do { (cs, truncated) \<leftarrow> read_bytes m; State_Monad.return (b # cs, truncated) })
      bs (b # bs, False)"
    using reads_bind_return [OF Cons.IH [OF m(2)], of "\<lambda>(cs, t). (b # cs, t)"]
    by (simp add: case_prod_unfold)
  then have "reads (read_bytes n) ([b] @ bs) (b # bs, False)"
    unfolding m(1) read_bytes.simps
    by (intro reads_bind [OF reads_xbyte] reads_ok_bind) simp
  then show ?case by simp
qed simp

lemma reads_IMAGE:
  assumes "length s \<le> kMaxImageName"
  shows "reads (load_IMAGE hi) (StringHeader_writeContent s) (hi\<lparr>imageName := s\<rparr>, False)"
proof -
  have n: "unat (of_nat (length s) :: uint64) = length s"
    using assms by (simp add: unat_of_nat kMaxImageName_def)
  have pad: "pad_bytes (length s) = 4 * ((length s + 3) div 4) - length s"
    by (simp add: pad_bytes_def mult.commute)
  show ?thesis
    unfolding load_IMAGE_def StringHeader_writeContent_def Let_def
    apply (rule reads_bind [OF u64.rd_wr], rule reads_ok_bind)
    apply (simp only: or_zero_Some n not_True_eq_False if_False not_less [THEN iffD2, OF assms])
    apply (rule reads_bind [OF reads_bytes], simp)
    apply (simp only: prod.case if_False pad)
    apply (rule reads_bind_last [OF reads_bytes], simp)
    apply (simp add: o_def)
    done
qed

lemma reads_Light:
  "reads (read_Light (flag (\<not> sp))) (LightHeader_writeContent sp d c) (back_light sp d c)"
  unfolding read_Light_def LightHeader_writeContent_def
  by (intro reads_bind [OF reads_TRIPLE] reads_bind [OF f32.rd_wr] reads_bind_last [OF f32.rd_wr]
      reads_return_Nil) (simp add: back_light_def)

lemma reads_background:
  "reads (read_background old) (write_RGBAColour c) (map_vec4 f64_to_f32 c)"
  unfolding read_background_def
  by (cases c) (simp, intro reads_bind [OF f32.rd_wr] reads_bind_last [OF f32.rd_wr]
      reads_return_Nil, simp add: keep_def)

lemma reads_known:
  assumes "header_typed h"
  shows "reads (load_known (flag (\<not> sp)) hi (header_ty h)) (writeContent sp h)
    (apply_header sp h hi, False)"
proof (cases h)
  case (Uint32Header t w)
  with assms show ?thesis
    by (elim header_typed.elims)
      (auto simp: load_known_def keep_def intro!: reads_bind_last [OF u32.rd_wr])
next
  case (TripleHeader t v)
  with assms show ?thesis
    by (auto simp: load_known_def intro!: reads_bind_last [OF reads_TRIPLE])
next
  case (PairHeader t v)
  with assms show ?thesis
    by (auto simp: load_known_def intro!: reads_bind_last [OF reads_PAIR])
next
  case (DoubleHeader t x)
  with assms show ?thesis
    by (auto simp: load_known_def Let_def intro!: reads_bind_last [OF reads_readReal])
next
  case (RGBAHeader t c)
  with assms show ?thesis
    by (auto simp: load_known_def intro!: reads_bind_last [OF reads_background])
next
  case (StringHeader t s)
  with assms reads_IMAGE show ?thesis by (simp add: load_known_def)
next
  case (LightHeader d c)
  then show ?thesis by (auto simp: load_known_def intro!: reads_bind_last [OF reads_Light])
qed

lemma header_of_code_code [simp]: "header_of_code (header_code t) = Some t"
  by (cases t) (simp_all add: header_of_code_def all_header_types_def)

lemma reads_entry:
  assumes "header_typed h"
  shows "reads (load_entry (flag (\<not> sp)) hi) (write_header sp h) (apply_header sp h hi, False)"
  unfolding load_entry_def write_header_def
  apply (rule reads_bind [OF u32.rd_wr], rule reads_ok_bind)
  apply (simp only: not_True_eq_False if_False)
  apply (rule reads_bind [OF u32.rd_wr], rule reads_ok_bind)
  apply (simp add: reads_known [OF assms])
  done

lemma reads_entries:
  assumes "list_all header_typed hs"
  shows "reads (load_entries (flag (\<not> sp)) (length hs) hi) (concat (map (write_header sp) hs))
    (fold (apply_header sp) hs hi, False)"
  using assms
proof (induction hs arbitrary: hi)
  case (Cons h hs)
  then have h: "header_typed h" and hs: "list_all header_typed hs" by simp_all
  show ?case
    using reads_bind [OF reads_entry [OF h], where f = "\<lambda>p. case p of (hi', stop) \<Rightarrow>
        if stop then State_Monad.return (hi', True) else load_entries (flag (\<not> sp)) (length hs) hi'"]
      Cons.IH [OF hs]
    by simp
qed simp

text \<open>The header structure the loader ends up with.\<close>

definition header_back :: "bool \<Rightarrow> scene \<Rightarrow> V3dHeaderInfo" where
  "header_back sp gl = \<lparr>
     canvasWidth = fullWidth gl, canvasHeight = fullHeight gl, absolute = flag (sAbsolute gl),
     minBound = back3 sp (Xmin_Ymin_Zmin gl), maxBound = back3 sp (Xmax_Ymax_Zmax gl),
     orthographic = flag (sOrthographic gl),
     angleOfView = Some (trip sp (Angle gl)), initialZoom = Some (trip sp (Zoom0 gl)),
     viewportShift = (case scaledShift gl of Some p \<Rightarrow> map_vec2 (Some \<circ> trip sp) p
       | None \<Rightarrow> V2 (Some 0) (Some 0)),
     viewportMargin = map_vec2 (Some \<circ> trip sp) (Margin gl),
     lights = map (\<lambda>(d, c). back_light sp d c) (Lights gl),
     background = map_vec4 f64_to_f32 (Background gl),
     zoomFactor = Some (trip sp (szoomfactor gl)),
     zoomPinchFactor = Some (trip sp (szoomPinchFactor gl)),
     zoomPinchCap = Some (trip sp (szoomPinchCap gl)),
     zoomStep = Some (trip sp (szoomstep gl)),
     shiftHoldDistance = Some (trip sp (sshiftHoldDistance gl)),
     shiftWaitTime = Some (trip sp (sshiftWaitTime gl)),
     vibrateTime = Some (trip sp (svibrateTime gl)),
     imageName = (if ibl gl \<and> iblNameOK (image gl) then image gl else [])\<rparr>"

definition scene_ok :: "scene \<Rightarrow> bool" where
  "scene_ok gl \<longleftrightarrow> length (Lights gl) \<le> 9000 \<and> length (image gl) \<le> kMaxImageName"

lemma fold_lights:
  "fold (apply_header sp) (map (\<lambda>(d, c). LightHeader d c) ls) hi =
     hi\<lparr>lights := lights hi @ map (\<lambda>(d, c). back_light sp d c) ls\<rparr>"
  by (induction ls arbitrary: hi) (auto simp: case_prod_unfold)

lemma fold_headers: "fold (apply_header sp) (headers gl) V3dHeaderInfo_init = header_back sp gl"
  by (cases "scaledShift gl")
    (auto simp: headers_def header_back_def V3dHeaderInfo_init_def fold_lights settings_same
      flag_def f64_0_def)

lemma headers_typed: "scene_ok gl \<Longrightarrow> list_all header_typed (headers gl)"
  by (auto simp: headers_def scene_ok_def list_all_iff split: option.splits)

lemma length_headers: "scene_ok gl \<Longrightarrow> length (headers gl) \<le> kMaxHeaderEntries"
  by (auto simp: headers_def scene_ok_def kMaxHeaderEntries_def split: option.splits)

lemma item_header:
  assumes "scene_ok gl" and "headerInfo f = V3dHeaderInfo_init"
  shows "item_of v (flag (\<not> sp)) f (addHeaders sp gl) (f\<lparr>headerInfo := header_back sp gl\<rparr>)"
proof -
  have n: "unat (of_nat (length (headers gl)) :: uint32) = length (headers gl)"
    using length_headers [OF assms(1)] by (simp add: unat_of_nat kMaxHeaderEntries_def)
  have "reads (load_HEADER (flag (\<not> sp)) f)
      (write_uint32 (of_nat (length (headers gl))) @ concat (map (write_header sp) (headers gl)))
      (f\<lparr>headerInfo := header_back sp gl\<rparr>, False)"
    unfolding load_HEADER_def Let_def
    apply (rule reads_bind [OF u32.rd_wr], rule reads_ok_bind)
    apply (simp only: not_True_eq_False if_False or_zero_Some n
        not_less [THEN iffD2, OF length_headers [OF assms(1)]])
    apply (rule reads_bind_last [OF reads_entries [OF headers_typed [OF assms(1)]]])
    apply (simp add: assms(2) fold_headers)
    done
  then show ?thesis
    unfolding addHeaders_def
    by (intro item_ofI) (simp add: load_switch_def reads_bind_last)
qed

lemma reads_centers:
  "length old = length cs \<Longrightarrow>
   reads (read_centers (flag (\<not> sp)) old) (addTriples sp cs) (map (back3 sp) cs, False)"
proof (induction cs arbitrary: old)
  case Nil
  then show ?case by (simp add: addTriples_def)
next
  case (Cons c cs)
  then obtain o1 os where old: "old = o1 # os" "length os = length cs" by (cases old) auto
  have "reads (do { (ks, stop) \<leftarrow> read_centers (flag (\<not> sp)) os;
      State_Monad.return (back3 sp c # ks, stop) }) (addTriples sp cs)
      (back3 sp c # map (back3 sp) cs, False)"
    using reads_bind_return [OF Cons.IH [OF old(2)], of "\<lambda>(ks, t). (back3 sp c # ks, t)"]
    by (simp add: case_prod_unfold)
  then have "reads (read_centers (flag (\<not> sp)) old) (write_triple sp c @ addTriples sp cs)
      (map (back3 sp) (c # cs), False)"
    unfolding old(1) read_centers.simps
    by (intro reads_bind [OF reads_TRIPLE] reads_ok_bind) simp
  then show ?case by (simp add: addTriples_def)
qed

lemma item_centers:
  assumes "length cs \<le> kMaxCenters" and "centers f = []"
  shows "item_of v (flag (\<not> sp)) f (addCenters sp cs) (f\<lparr>centers := map (back3 sp) cs\<rparr>)"
proof -
  have n: "unat (of_nat (length cs) :: uint32) = length cs"
    using assms(1) by (simp add: unat_of_nat kMaxCenters_def)
  have "reads (load_CENTERS (flag (\<not> sp)) f)
      (write_uint32 (of_nat (length cs)) @ (if length cs > 0 then addTriples sp cs else []))
      (f\<lparr>centers := map (back3 sp) cs\<rparr>, False)"
    unfolding load_CENTERS_def Let_def
    apply (rule reads_bind [OF u32.rd_wr], rule reads_ok_bind)
    apply (simp only: not_True_eq_False if_False or_zero_Some n not_less [THEN iffD2, OF assms(1)])
    apply (cases "length cs > 0")
     apply (simp only: if_True)
     apply (rule reads_bind_last [OF reads_centers])
      apply simp
     apply simp
    using assms(2) apply (cases f) apply simp
    done
  then show ?thesis
    unfolding addCenters_def by (intro item_ofI) (simp add: load_switch_def reads_bind_last)
qed

section \<open>Reading back a whole file\<close>

lemma load_loop_item:
  assumes "item_of v dp f bs f'" and "xs_data s = pre @ bs @ post" and "xs_pos s = length pre"
    and "xios_good s"
  shows "load_loop v dp f s = load_loop v dp f' (s\<lparr>xs_pos := length (pre @ bs)\<rparr>)"
proof -
  obtain t payload where bs: "bs = write_uint32 (object_code t) @ payload"
    and rd: "reads (load_switch v dp f (Some t)) payload (Some (f', False))"
    using assms(1) unfolding item_of_def by blast
  let ?w = "write_uint32 (object_code t)"
  let ?s1 = "s\<lparr>xs_pos := length pre + length ?w\<rparr>"
  have 1: "run_state read_uint32 s = (Some (object_code t), ?s1)"
    using u32.rd_wr [of "object_code t"] assms(2-4) bs unfolding reads_def by simp
  have "xs_data ?s1 = (pre @ ?w) @ payload @ post" "xs_pos ?s1 = length (pre @ ?w)" "xios_good ?s1"
    using assms(2-4) bs by simp_all
  with rd have 2: "run_state (load_switch v dp f (Some t)) ?s1 =
      (Some (f', False), ?s1\<lparr>xs_pos := length (pre @ ?w) + length payload\<rparr>)"
    unfolding reads_def by blast
  show ?thesis
    using assms(4) by (subst load_loop.simps) (simp add: 1 2 bs add.assoc)
qed

lemma load_loop_end:
  assumes "xs_pos s = length (xs_data s)"
  shows "fst (load_loop v dp f s) = Some f"
  using u32.rd_short [of s] assms by (subst load_loop.simps) auto

lemma load_loop_ops:
  assumes "list_all op_ok ops" and "xs_data s = pre @ concat (map (write_op sp) ops) @ post"
    and "xs_pos s = length pre" and "xios_good s"
  shows "load_loop 2 (flag (\<not> sp)) f s = load_loop 2 (flag (\<not> sp)) (fold (apply_op sp) ops f)
     (s\<lparr>xs_pos := length (pre @ concat (map (write_op sp) ops))\<rparr>)"
  using assms
proof (induction ops arbitrary: f s pre)
  case Nil
  then have "s\<lparr>xs_pos := length pre\<rparr> = s" by (cases s) simp
  then show ?case by simp
next
  case (Cons dop ops)
  then have ok: "op_ok dop" "list_all op_ok ops" by simp_all
  let ?rest = "concat (map (write_op sp) ops)"
  have d: "xs_data s = pre @ write_op sp dop @ (?rest @ post)" using Cons.prems(2) by simp
  let ?t = "s\<lparr>xs_pos := length (pre @ write_op sp dop)\<rparr>"
  have step: "load_loop 2 (flag (\<not> sp)) f s = load_loop 2 (flag (\<not> sp)) (apply_op sp dop f) ?t"
    by (rule load_loop_item [OF item_op [OF ok(1)] d Cons.prems(3,4)])
  have "xs_data ?t = (pre @ write_op sp dop) @ ?rest @ post"
    "xs_pos ?t = length (pre @ write_op sp dop)" "xios_good ?t"
    using d Cons.prems(4) by simp_all
  from Cons.IH [OF ok(2) this] step show ?case by simp
qed

lemma export_bytes:
  "export sp gl ops cs =
     write_uint32 2 @ write_bool (\<not> sp) @ addHeaders sp gl @ concat (map (write_op sp) ops) @
     addCenters sp cs"
proof -
  have "out (fold (v3dfile_op sp) ops w) = out w @ concat (map (write_op sp) ops) \<and>
      finalized (fold (v3dfile_op sp) ops w) = finalized w" for w
    by (induction ops arbitrary: w) (simp_all add: v3dfile_op_def)
  then show ?thesis
    by (simp add: export_def finalize_def v3dfile_open_def writeInit_def v3dVersion_def)
qed

lemma fold_apply_op:
  "fold (apply_op sp) ops f = f\<lparr>objects := objects f @ concat (map (readback sp) ops),
     materials := materials f @ concat (map readback_material ops)\<rparr>"
  by (induction ops arbitrary: f) (simp_all add: apply_op_def)

lemma export_load:
  assumes "scene_ok gl" and "list_all op_ok ops" and "length cs \<le> kMaxCenters"
  shows "V3dFile_of_mem (export sp gl ops cs) = Some \<lparr>
    versionNumber = Some 2, doublePrecisionFlag = Some (flag (\<not> sp)),
    centers = map (back3 sp) cs,
    materials = concat (map readback_material ops),
    objects = concat (map (readback sp) ops),
    headerInfo = header_back sp gl\<rparr>"
proof -
  let ?bs = "export sp gl ops cs" and ?dp = "flag (\<not> sp)"
  let ?ops = "concat (map (write_op sp) ops)"
  let ?s = "memixstream ?bs"
  let ?pre = "write_uint32 2 @ write_bool (\<not> sp)"
  let ?at = "\<lambda>n. ?s\<lparr>xs_pos := n\<rparr>"
  let ?f0 = "V3dFile_init\<lparr>versionNumber := Some 2, doublePrecisionFlag := Some ?dp\<rparr>"
  let ?f1 = "?f0\<lparr>headerInfo := header_back sp gl\<rparr>"
  let ?f2 = "fold (apply_op sp) ops ?f1"
  have s: "xs_data ?s = ?bs" "xs_pos ?s = 0" "xios_good ?s"
    by (simp_all add: memixstream_def xios_good_def)
  have 1: "run_state read_uint32 ?s = (Some 2, ?at (length (write_uint32 2)))"
    unfolding export_bytes using reads_memixstream [OF u32.rd_wr, of 2] by simp
  have 2: "run_state read_uint32 (?at (length (write_uint32 2))) = (Some ?dp, ?at (length ?pre))"
    using reads_bool [of "\<not> sp", unfolded reads_def, rule_format,
        of "?at (length (write_uint32 2))" "write_uint32 2"] s export_bytes [of sp gl ops cs]
    by simp
  have ih: "item_of 2 ?dp ?f0 (addHeaders sp gl) ?f1"
    by (rule item_header [OF assms(1)]) (simp add: V3dFile_init_def)
  have ic: "item_of 2 ?dp ?f2 (addCenters sp cs) (?f2\<lparr>centers := map (back3 sp) cs\<rparr>)"
    by (rule item_centers [OF assms(3)]) (simp add: fold_apply_op V3dFile_init_def)
  have h: "load_loop 2 ?dp ?f0 (?at (length ?pre)) =
      load_loop 2 ?dp ?f1 (?at (length (?pre @ addHeaders sp gl)))"
    using load_loop_item [OF ih, of "?at (length ?pre)" ?pre "?ops @ addCenters sp cs"] s
      export_bytes [of sp gl ops cs]
    by simp
  have o: "load_loop 2 ?dp ?f1 (?at (length (?pre @ addHeaders sp gl))) =
      load_loop 2 ?dp ?f2 (?at (length (?pre @ addHeaders sp gl @ ?ops)))"
    using load_loop_ops [OF assms(2), of "?at (length (?pre @ addHeaders sp gl))"
        "?pre @ addHeaders sp gl" sp "addCenters sp cs" ?f1] s export_bytes [of sp gl ops cs]
    by simp
  have c: "load_loop 2 ?dp ?f2 (?at (length (?pre @ addHeaders sp gl @ ?ops))) =
      load_loop 2 ?dp (?f2\<lparr>centers := map (back3 sp) cs\<rparr>) (?at (length ?bs))"
    using load_loop_item [OF ic, of "?at (length (?pre @ addHeaders sp gl @ ?ops))"
        "?pre @ addHeaders sp gl @ ?ops" "[]"] s export_bytes [of sp gl ops cs]
    by simp
  have "fst (load ?s) = Some (?f2\<lparr>centers := map (back3 sp) cs\<rparr>)"
    using 1 2 h o c s load_loop_end [of "?at (length ?bs)"]
    by (simp add: load_def)
  then show ?thesis
    by (simp add: V3dFile_of_mem_def fold_apply_op V3dFile_init_def)
qed


definition sample_scene :: scene where
  "sample_scene = \<lparr>fullWidth = 640, fullHeight = 480, sAbsolute = False,
     Xmin_Ymin_Zmin = V3 0 0 0, Xmax_Ymax_Zmax = V3 1 1 1, sOrthographic = True, Angle = 0,
     Zoom0 = f64_1, scaledShift = None, Margin = V2 0 0,
     Lights = [(V3 0 0 f64_1, V4 f64_1 f64_1 f64_1 f64_1)], Background = V4 0 0 0 0,
     szoomfactor = f64_1, szoomPinchFactor = f64_1, szoomPinchCap = f64_1, szoomstep = f64_1,
     sshiftHoldDistance = f64_1, sshiftWaitTime = f64_1, svibrateTime = f64_1, ibl = True,
     image = ''snowyField''\<rparr>"

definition sample_ops :: "draw_op list" where
  "sample_ops =
     [AddSphere \<lparr>centerIndex = 0, materialIndex = 3\<rparr> (V3 f64_1 0 0) f64_1,
      AddTriangles \<lparr>centerIndex = 1, materialIndex = 0\<rparr> [V3 0 0 0, V3 f64_1 0 0, V3 0 f64_1 0]
        [V3 0 0 f64_1] [] [(V3 0 1 2, V3 0 0 0, V3 0 1 2)]]"

lemma sample_ok: "scene_ok sample_scene" "list_all op_ok sample_ops"
  by (simp_all add: scene_ok_def sample_scene_def sample_ops_def kMaxImageName_def)


text \<open>The colour indices of a group are never written: once a normal index differs, two groups
  with different colour indices produce the same bytes.\<close>

lemma addTriangles_loses_CI:
  assumes "n \<noteq> p"
  shows "addTriangles sp g P N C [(p, n, c)] = addTriangles sp g P N C [(p, n, c')]"
  using assms by (simp add: addTriangles_def Let_def)

text \<open>And if all normal indices agree but a colour index differs, the normal indices follow a
  flag that says they are absent: twelve bytes the reader does not expect.\<close>

lemma addTriangles_misaligned:
  assumes "c \<noteq> p" and "C \<noteq> []"
  shows "\<exists>pre. addTriangles sp g P N C [(p, p, c)] =
      pre @ addIndices p @ addIndices p @ addCenterIndexMat g \<and>
    addTriangles sp g P N C [(p, p, p)] = pre @ addIndices p @ addCenterIndexMat g"
  using assms by (auto simp: addTriangles_def Let_def)

end
