(* ===== verification/V3dModel.thy ===== *)
theory V3dModel
  imports V3dFile
begin

text \<open>
  The view state of one model: \<^verbatim>\<open>v3d-Common/V3dModel.h\<close>, \<^verbatim>\<open>v3d-Common/V3dModel.cpp\<close> and
  \<^verbatim>\<open>v3d-Common/Utility/Arcball.cpp\<close>. \<open>float\<close> and \<open>double\<close> arithmetic is idealised as real
  arithmetic; where the C++ code divides by zero or normalises a null vector and the result is
  a NaN that later code does not catch, the model has the value \<^term>\<open>None\<close>.

  The matrices of the glm library are values of a type variable; the glm functions that build and
  combine them (\<open>ortho\<close>, \<open>frustum\<close>, \<open>translate\<close>, \<open>rotate\<close>, \<open>inverse\<close>, product) are the fields
  of a parameter.
\<close>

section \<open>What the view reads of the file header\<close>

record scene_info =
  sMin :: "real vec3"
  sMax :: "real vec3"
  sOrtho :: bool
  sAngle :: real
  sZoom :: real
  sShift :: "real vec2"
  sZoomStep :: real
  sZoomFactor :: real
  sCanvas :: "uint32 vec2"
  sImageName :: string
  sBackground :: "float32 vec4"

text \<open>The real number a finite double denotes; \<^term>\<open>None\<close> for infinities and NaNs.\<close>

definition f64_real :: "float64 \<Rightarrow> real option" where
  "f64_real w =
     (let x = unat w; s = x div 2 ^ 63; e = (x div 2 ^ 52) mod 2 ^ 11; m = x mod 2 ^ 52;
          sgn = (if s = 0 then 1 else - 1)
      in if e = 2047 then None
         else if e = 0 then Some (sgn * real m / 2 ^ 1074)
         else Some (sgn * real (2 ^ 52 + m) * 2 powi (int e - 1075)))"

definition real_of_cell :: "REAL \<Rightarrow> real option" where
  "real_of_cell c = Option.bind c f64_real"

fun real3 :: "REAL vec3 \<Rightarrow> real vec3 option" where
  "real3 (V3 x y z) =
     Option.bind (real_of_cell x) (\<lambda>a. Option.bind (real_of_cell y) (\<lambda>b.
     Option.bind (real_of_cell z) (\<lambda>c. Some (V3 a b c))))"

fun real2 :: "REAL vec2 \<Rightarrow> real vec2 option" where
  "real2 (V2 x y) =
     Option.bind (real_of_cell x) (\<lambda>a. Option.bind (real_of_cell y) (\<lambda>b. Some (V2 a b)))"

definition scene_of :: "V3dHeaderInfo \<Rightarrow> scene_info option" where
  "scene_of hi =
     Option.bind (real3 (minBound hi)) (\<lambda>mn. Option.bind (real3 (maxBound hi)) (\<lambda>mx.
     Option.bind (real_of_cell (angleOfView hi)) (\<lambda>an.
     Option.bind (real_of_cell (initialZoom hi)) (\<lambda>z.
     Option.bind (real2 (viewportShift hi)) (\<lambda>sh.
     Option.bind (real_of_cell (zoomStep hi)) (\<lambda>zs.
     Option.bind (real_of_cell (zoomFactor hi)) (\<lambda>zf.
       Some \<lparr>sMin = mn, sMax = mx, sOrtho = (orthographic hi \<noteq> 0), sAngle = an, sZoom = z,
         sShift = sh, sZoomStep = zs, sZoomFactor = zf,
         sCanvas = V2 (canvasWidth hi) (canvasHeight hi), sImageName = imageName hi,
         sBackground = background hi\<rparr>)))))))"

section \<open>The model state\<close>

text \<open>\<open>enum DrawMode\<close> of \<^verbatim>\<open>V3dTypes.h\<close>.\<close>

datatype DrawMode = DRAWMODE_NORMAL | DRAWMODE_OUTLINE | DRAWMODE_WIREFRAME

fun drawMode_code :: "DrawMode \<Rightarrow> nat" where
  "drawMode_code DRAWMODE_NORMAL = 0"
| "drawMode_code DRAWMODE_OUTLINE = 1"
| "drawMode_code DRAWMODE_WIREFRAME = 2"

definition drawMode_of :: "nat \<Rightarrow> DrawMode" where
  "drawMode_of n = (if n = 0 then DRAWMODE_NORMAL else if n = 1 then DRAWMODE_OUTLINE
     else DRAWMODE_WIREFRAME)"

definition NUM_DRAW_MODES :: nat where "NUM_DRAW_MODES = 3"

record 'm glm =
  g_ident :: 'm
  g_mult :: "'m \<Rightarrow> 'm \<Rightarrow> 'm"
  g_translate :: "'m \<Rightarrow> real vec3 \<Rightarrow> 'm"
  g_rotate :: "'m \<Rightarrow> real \<Rightarrow> real vec3 \<Rightarrow> 'm"
  g_ortho :: "real \<Rightarrow> real \<Rightarrow> real \<Rightarrow> real \<Rightarrow> real \<Rightarrow> real \<Rightarrow> 'm"
  g_frustum :: "real \<Rightarrow> real \<Rightarrow> real \<Rightarrow> real \<Rightarrow> real \<Rightarrow> real \<Rightarrow> 'm"
  g_inverse :: "'m \<Rightarrow> 'm"

record 'm V3dModel =
  mMinBound :: "real vec2"
  mMaxBound :: "real vec2"
  Zoom :: real
  lastzoom :: real
  Zoom0 :: real
  rotateMat :: "'m option"
  viewMat :: "'m option"
  projMat :: "'m option"
  normMat :: "'m option"
  xmin :: real
  xmax :: real
  ymin :: real
  ymax :: real
  H :: real
  cx :: real
  cy :: real
  cz :: real
  Xshift :: real
  Yshift :: real
  mFile :: scene_info
  remesh :: bool
  initialized :: bool
  drawMode :: DrawMode
  m_HasChanged :: bool

definition initProjection :: "'m V3dModel \<Rightarrow> 'm V3dModel" where
  "initProjection m =
     (let f = mFile m
      in m\<lparr>H := - tan (1 / 2 * sAngle f) * v3z (sMax f),
           cx := 0, cy := 0, cz := 1 / 2 * (v3z (sMin f) + v3z (sMax f)),
           Zoom := sZoom f, lastzoom := sZoom f, Zoom0 := sZoom f,
           Xshift := v2x (sShift f) / sZoom f, Yshift := v2y (sShift f) / sZoom f\<rparr>)"

text \<open>The member initialisers of \<open>V3dModel\<close> followed by \<open>initProjection\<close>.\<close>

definition V3dModel_new :: "'m glm \<Rightarrow> scene_info \<Rightarrow> real vec2 \<Rightarrow> real vec2 \<Rightarrow> 'm V3dModel" where
  "V3dModel_new G f mn mx = initProjection \<lparr>
     mMinBound = mn, mMaxBound = mx, Zoom = 1, lastzoom = 1, Zoom0 = 1,
     rotateMat = Some (g_ident G), viewMat = Some (g_ident G), projMat = Some (g_ident G),
     normMat = Some (g_ident G),
     xmin = 0, xmax = 0, ymin = 0, ymax = 0, H = 0, cx = 0, cy = 0, cz = 0,
     Xshift = 0, Yshift = 0, mFile = f, remesh = True, initialized = False,
     drawMode = DRAWMODE_NORMAL, m_HasChanged = True\<rparr>"

definition V3dModel_of_mem ::
  "'m glm \<Rightarrow> byte list \<Rightarrow> real vec2 \<Rightarrow> real vec2 \<Rightarrow> 'm V3dModel option" where
  "V3dModel_of_mem G bs mn mx =
     Option.bind (V3dFile_of_mem bs) (\<lambda>f.
     Option.bind (scene_of (headerInfo f)) (\<lambda>sc. Some (V3dModel_new G sc mn mx)))"

definition home :: "'m glm \<Rightarrow> 'm V3dModel \<Rightarrow> 'm V3dModel" where
  "home G m = m\<lparr>cx := 0, cy := 0, Zoom := Zoom0 m, lastzoom := Zoom0 m,
     rotateMat := Some (g_ident G), Xshift := 0, Yshift := 0, m_HasChanged := True,
     remesh := True\<rparr>"

definition cycleMode :: "'m V3dModel \<Rightarrow> 'm V3dModel" where
  "cycleMode m = m\<lparr>drawMode := drawMode_of ((drawMode_code (drawMode m) + 1) mod NUM_DRAW_MODES),
     m_HasChanged := True, remesh := True\<rparr>"

section \<open>Projection\<close>

definition setDimensions :: "real \<Rightarrow> real \<Rightarrow> real \<Rightarrow> real \<Rightarrow> 'm V3dModel \<Rightarrow> 'm V3dModel" where
  "setDimensions Width Height X Y m =
     (let aspect = Width / Height;
          zoom = Zoom m;
          xshift = (X / Width + Xshift m) * zoom;
          yshift = (Y / Height + Yshift m) * zoom;
          zoominv = 1 / zoom;
          Xmin = v3x (sMin (mFile m)); Xmax = v3x (sMax (mFile m));
          Ymin = v3y (sMin (mFile m)); Ymax = v3y (sMax (mFile m))
      in if sOrtho (mFile m) then
           (let xsize = Xmax - Xmin; ysize = Ymax - Ymin
            in if xsize < ysize * aspect then
                 (let r = 1 / 2 * ysize * aspect * zoominv;
                      X0 = 2 * r * xshift; Y0 = ysize * zoominv * yshift
                  in m\<lparr>xmin := - r - X0, xmax := r - X0,
                       ymin := Ymin * zoominv - Y0, ymax := Ymax * zoominv - Y0\<rparr>)
               else
                 (let r = 1 / 2 * xsize * zoominv / aspect;
                      X0 = xsize * zoominv * xshift; Y0 = 2 * r * yshift
                  in m\<lparr>xmin := Xmin * zoominv - X0, xmax := Xmax * zoominv - X0,
                       ymin := - r - Y0, ymax := r - Y0\<rparr>))
         else
           (let r = H m * zoominv; rAspect = r * aspect;
                X0 = 2 * rAspect * xshift; Y0 = 2 * r * yshift
            in m\<lparr>xmin := - rAspect - X0, xmax := rAspect - X0,
                 ymin := - r - Y0, ymax := r - Y0\<rparr>))"

definition updateViewMatrix :: "'m glm \<Rightarrow> 'm V3dModel \<Rightarrow> 'm V3dModel" where
  "updateViewMatrix G m =
     (let t = g_translate G (g_ident G) (V3 (cx m) (cy m) (cz m));
          v = map_option (\<lambda>r. g_translate G (g_mult G t r) (V3 0 0 (- cz m))) (rotateMat m)
      in m\<lparr>viewMat := v, normMat := map_option (g_inverse G) v, m_HasChanged := True\<rparr>)"

definition setProjection :: "'m glm \<Rightarrow> real vec2 \<Rightarrow> 'm V3dModel \<Rightarrow> 'm V3dModel" where
  "setProjection G dims m =
     (let m1 = setDimensions (v2x dims) (v2y dims) 0 0 m;
          Zmin = v3z (sMin (mFile m)); Zmax = v3z (sMax (mFile m));
          p = (if sOrtho (mFile m)
               then g_ortho G (xmin m1) (xmax m1) (ymin m1) (ymax m1) (- Zmax) (- Zmin)
               else g_frustum G (xmin m1) (xmax m1) (ymin m1) (ymax m1) (- Zmax) (- Zmin))
      in updateViewMatrix G (m1\<lparr>projMat := Some p\<rparr>))"

section \<open>Drag modes\<close>

definition dragModeShift :: "real vec2 \<Rightarrow> real vec2 \<Rightarrow> 'm V3dModel \<Rightarrow> 'm V3dModel" where
  "dragModeShift pos prev m =
     (if pos = prev then m
      else m\<lparr>Xshift := Xshift m + (v2x pos - v2x prev), Yshift := Yshift m - (v2y pos - v2y prev),
             m_HasChanged := True\<rparr>)"

text \<open>\<open>std::numeric_limits<float>::max()\<close>, and the zoom limits derived from it.\<close>

definition FLT_MAX :: real where "FLT_MAX = (2 - 1 / 2 ^ 23) * 2 ^ 127"
definition maxZoom :: real where "maxZoom = sqrt FLT_MAX"
definition minZoom :: real where "minZoom = 1 / maxZoom"

text \<open>\<open>std::abs(stepPower) < std::log(0.1*max) / std::log(zoomFactor)\<close> with the IEEE meaning of the
  quotient: for a factor of 1 the divisor is 0 and the limit \<open>+inf\<close>, for a factor below 1 it is
  negative, zero or NaN.\<close>

definition within_step_limit :: "real \<Rightarrow> real \<Rightarrow> bool" where
  "within_step_limit zf stepPower \<longleftrightarrow>
     (if zf = 1 then True
      else if zf \<le> 0 then False
      else \<bar>stepPower\<bar> < ln (1 / 10 * FLT_MAX) / ln zf)"

definition dragModeZoom :: "real vec2 \<Rightarrow> real vec2 \<Rightarrow> real vec2 \<Rightarrow> 'm V3dModel \<Rightarrow> 'm V3dModel" where
  "dragModeZoom pos prev viewSize m =
     (if pos = prev then m
      else let diff = v2y prev - v2y pos;
               zf = sZoomFactor (mFile m);
               stepPower = sZoomStep (mFile m) * (v2y viewSize / 2) * diff
           in if within_step_limit zf stepPower then
                (let z = Zoom m * zf powr stepPower;
                     z' = (if z \<le> minZoom then minZoom else if z \<ge> maxZoom then maxZoom else z)
                 in m\<lparr>Zoom := z', m_HasChanged := True, remesh := True\<rparr>)
              else m)"

definition dragModePan :: "real vec2 \<Rightarrow> real vec2 \<Rightarrow> 'm V3dModel \<Rightarrow> 'm V3dModel" where
  "dragModePan pos prev m =
     (if pos = prev then m
      else let m1 = (if sOrtho (mFile m) then dragModeShift pos prev m
                     else m\<lparr>cx := cx m + (v2x pos - v2x prev) * (xmax m - xmin m),
                            cy := cy m - (v2y pos - v2y prev) * (ymax m - ymin m)\<rparr>)
           in m1\<lparr>m_HasChanged := True\<rparr>)"

subsection \<open>Arcball\<close>

definition hypot :: "real \<Rightarrow> real \<Rightarrow> real" where
  "hypot x y = sqrt (x * x + y * y)"

definition Arcball_norm :: "real vec2 \<Rightarrow> real vec3" where
  "Arcball_norm v =
     (let norm = hypot (v2x v) (v2y v);
          x = (if norm > 1 then v2x v * (1 / norm) else v2x v);
          y = (if norm > 1 then v2y v * (1 / norm) else v2y v)
      in V3 x y (sqrt (max (1 - x * x - y * y) 0)))"

definition dot3 :: "real vec3 \<Rightarrow> real vec3 \<Rightarrow> real" where
  "dot3 a b = v3x a * v3x b + v3y a * v3y b + v3z a * v3z b"

definition cross3 :: "real vec3 \<Rightarrow> real vec3 \<Rightarrow> real vec3" where
  "cross3 a b = V3 (v3y a * v3z b - v3y b * v3z a) (v3z a * v3x b - v3z b * v3x a)
     (v3x a * v3y b - v3x b * v3y a)"

definition length3 :: "real vec3 \<Rightarrow> real" where
  "length3 a = sqrt (dot3 a a)"

text \<open>\<open>glm::normalize\<close>; a null vector gives NaN components.\<close>

definition normalize3 :: "real vec3 \<Rightarrow> real vec3 option" where
  "normalize3 a = (if dot3 a a = 0 then None
     else Some (V3 (v3x a / length3 a) (v3y a / length3 a) (v3z a / length3 a)))"

record Arcball =
  angle :: real
  axis :: "real vec3 option"

definition Arcball_new :: "real vec2 \<Rightarrow> real vec2 \<Rightarrow> Arcball" where
  "Arcball_new prev pos =
     (let v0 = Arcball_norm prev; v1 = Arcball_norm pos; Dot = dot3 v0 v1
      in \<lparr>angle = (if Dot > 1 then 0 else if Dot < - 1 then pi else arccos Dot),
          axis = normalize3 (cross3 v0 v1)\<rparr>)"

text \<open>The test \<open>glm::length(axis) < 0.001f\<close> is false when the axis is NaN, and the rotation matrix
  then becomes NaN.\<close>

definition dragModeRotate :: "'m glm \<Rightarrow> real vec2 \<Rightarrow> real vec2 \<Rightarrow> 'm V3dModel \<Rightarrow> 'm V3dModel" where
  "dragModeRotate G pos prev m =
     (if pos = prev then m
      else if hypot (v2x pos - v2x prev) (v2y pos - v2y prev) < 1 / 1000 then m
      else let lastNDC = V2 (v2x prev * 2 - 1) (1 - v2y prev * 2);
               currNDC = V2 (v2x pos * 2 - 1) (1 - v2y pos * 2);
               arcball = Arcball_new lastNDC currNDC
           in (case axis arcball of
                 None \<Rightarrow> m\<lparr>rotateMat := None, m_HasChanged := True\<rparr>
               | Some a \<Rightarrow>
                   if length3 a < 1 / 1000 then m
                   else let angleRadians = 2 * angle arcball / Zoom m;
                            temp = g_rotate G (g_ident G) angleRadians a
                        in m\<lparr>rotateMat := map_option (g_mult G temp) (rotateMat m),
                             m_HasChanged := True\<rparr>))"

section \<open>Properties\<close>


definition sample_info :: scene_info where
  "sample_info = \<lparr>sMin = V3 (- 2) (- 1) (- 5), sMax = V3 2 1 (- 3), sOrtho = True, sAngle = 1,
     sZoom = 1, sShift = V2 0 0, sZoomStep = 1, sZoomFactor = 2, sCanvas = V2 500 500,
     sImageName = [], sBackground = V4 0 0 0 0\<rparr>"

definition unit_glm :: "unit glm" where
  "unit_glm = \<lparr>g_ident = (), g_mult = (\<lambda>_ _. ()), g_translate = (\<lambda>_ _. ()),
     g_rotate = (\<lambda>_ _ _. ()), g_ortho = (\<lambda>_ _ _ _ _ _. ()), g_frustum = (\<lambda>_ _ _ _ _ _. ()),
     g_inverse = (\<lambda>_. ())\<rparr>"

definition sample_model :: "unit V3dModel" where
  "sample_model = V3dModel_new unit_glm sample_info (V2 0 0) (V2 1 1)"


text \<open>at the initial zoom and without shift, the orthographic frustum contains a scene box that
  is centred on the view axis, whatever the shape of the canvas (nothing is cropped).\<close>

theorem ortho_contains_scene:
  assumes "Width > 0" and "Height > 0" and "sOrtho (mFile m)" and "Zoom m = 1"
    and "Xshift m = 0" and "Yshift m = 0"
    and "sMin (mFile m) = V3 (- a) (- b) z0" and "sMax (mFile m) = V3 a b z1"
    and "a > 0" and "b > 0"
  shows "xmin (setDimensions Width Height 0 0 m) \<le> - a \<and>
    a \<le> xmax (setDimensions Width Height 0 0 m) \<and>
    ymin (setDimensions Width Height 0 0 m) \<le> - b \<and>
    b \<le> ymax (setDimensions Width Height 0 0 m)"
proof (cases "2 * a < 2 * b * (Width / Height)")
  case True
  then have "a \<le> b * Width / Height" by simp
  with True assms show ?thesis by (simp add: setDimensions_def Let_def)
next
  case False
  then have "b * (Width / Height) \<le> a" by simp
  then have "b \<le> a * Height / Width" using assms(1,2) by (simp add: field_simps)
  with False assms show ?thesis by (simp add: setDimensions_def Let_def)
qed

theorem ortho_contains_scene_witness:
  "xmin (setDimensions 100 300 0 0 sample_model) \<le> - 2 \<and>
   2 \<le> xmax (setDimensions 100 300 0 0 sample_model) \<and>
   ymin (setDimensions 100 300 0 0 sample_model) \<le> - 1 \<and>
   1 \<le> ymax (setDimensions 100 300 0 0 sample_model)"
  by (rule ortho_contains_scene)
    (simp_all add: sample_model_def V3dModel_new_def initProjection_def sample_info_def Let_def)

lemma maxZoom_pos: "maxZoom > 0" and minZoom_less: "minZoom < maxZoom"
proof -
  have f: "FLT_MAX > 1" by (simp add: FLT_MAX_def field_simps)
  then show p: "maxZoom > 0" by (simp add: maxZoom_def)
  have "maxZoom > 1" using f by (simp add: maxZoom_def)
  moreover then have "minZoom < 1" by (simp add: minZoom_def)
  ultimately show "minZoom < maxZoom" by simp
qed

text \<open>The drag gestures: mode, new position, previous position, view size.\<close>

datatype gesture = Shift "real vec2" "real vec2" | DragZoom "real vec2" "real vec2" "real vec2"
  | Pan "real vec2" "real vec2" | Rotate "real vec2" "real vec2"

fun drag :: "'m glm \<Rightarrow> gesture \<Rightarrow> 'm V3dModel \<Rightarrow> 'm V3dModel" where
  "drag G (Shift p q) m = dragModeShift p q m"
| "drag G (DragZoom p q v) m = dragModeZoom p q v m"
| "drag G (Pan p q) m = dragModePan p q m"
| "drag G (Rotate p q) m = dragModeRotate G p q m"

lemma home_drag: "home G (drag G g m) = home G m"
  by (cases g; cases m)
    (auto simp: home_def dragModeShift_def dragModeZoom_def dragModePan_def dragModeRotate_def
      Let_def split: option.splits)

text \<open>C12: the home key undoes every interaction: after any sequence of shift, zoom, pan and rotate
  gestures (even one that made the rotation matrix NaN), \<open>home\<close> gives exactly the state it gives
  when pressed before them.\<close>

theorem home_undoes_drags: "home G (fold (drag G) gs m) = home G m"
  by (induction gs arbitrary: m) (simp_all add: home_drag)

lemma drag_zoom_bounds:
  assumes "minZoom \<le> Zoom m" and "Zoom m \<le> maxZoom"
  shows "minZoom \<le> Zoom (drag G g m) \<and> Zoom (drag G g m) \<le> maxZoom"
  using assms minZoom_less
  by (cases g) (auto simp: dragModeShift_def dragModeZoom_def dragModePan_def dragModeRotate_def
      Let_def split: option.splits)

text \<open>C13: the zoom stays between \<open>1/sqrt(FLT_MAX)\<close> and \<open>sqrt(FLT_MAX)\<close> under every sequence of
  gestures, so neither it nor its inverse can overflow.\<close>

theorem drags_zoom_bounds:
  assumes "minZoom \<le> Zoom m" and "Zoom m \<le> maxZoom"
  shows "minZoom \<le> Zoom (fold (drag G) gs m) \<and> Zoom (fold (drag G) gs m) \<le> maxZoom"
  using assms by (induction gs arbitrary: m) (simp_all add: drag_zoom_bounds)

lemma one_zoom: "minZoom \<le> 1" "1 \<le> maxZoom"
proof -
  have "FLT_MAX \<ge> 1" by (simp add: FLT_MAX_def field_simps)
  then show "1 \<le> maxZoom" by (simp add: maxZoom_def)
  then show "minZoom \<le> 1" by (simp add: minZoom_def)
qed

theorem drags_zoom_bounds_witness:
  "minZoom \<le> Zoom (fold (drag unit_glm) [DragZoom (V2 0 0) (V2 0 1) (V2 800 600)] sample_model)"
proof (rule conjunct1 [OF drags_zoom_bounds])
  have z: "Zoom sample_model = 1"
    by (simp add: sample_model_def V3dModel_new_def initProjection_def sample_info_def Let_def)
  show "minZoom \<le> Zoom sample_model" "Zoom sample_model \<le> maxZoom"
    using one_zoom by (simp_all add: z)
qed

text \<open>A drag along a path, as the mouse handler delivers it: each step from the previous
  position to the next.\<close>

fun shift_path :: "real vec2 \<Rightarrow> real vec2 list \<Rightarrow> 'm V3dModel \<Rightarrow> 'm V3dModel" where
  "shift_path p [] m = m"
| "shift_path p (q # qs) m = shift_path q qs (dragModeShift q p m)"

text \<open>shifting is path independent: the total shift is the difference between the last and the
  first mouse position (with the vertical axis reversed), so the model follows the mouse.\<close>

theorem shift_path_total:
  "Xshift (shift_path p qs m) = Xshift m + (v2x (last (p # qs)) - v2x p) \<and>
   Yshift (shift_path p qs m) = Yshift m - (v2y (last (p # qs)) - v2y p)"
proof (induction qs arbitrary: p m)
  case (Cons q qs)
  then show ?case by (cases "q = p") (auto simp: dragModeShift_def)
qed simp

lemma Arcball_norm_inside:
  assumes "hypot x y \<le> 1"
  shows "Arcball_norm (V2 x y) = V3 x y (sqrt (1 - x * x - y * y))"
proof -
  have "x * x + y * y \<le> 1" using assms by (simp add: hypot_def)
  then show ?thesis using assms by (simp add: Arcball_norm_def Let_def)
qed

lemma hypot_sq: "hypot x y * hypot x y = x * x + y * y"
  by (simp add: hypot_def)

lemma hypot_scale: "c \<ge> 0 \<Longrightarrow> hypot (c * x) (c * y) = c * hypot x y"
proof -
  assume "c \<ge> 0"
  moreover have "c * x * (c * x) + c * y * (c * y) = c * c * (x * x + y * y)"
    by (simp add: algebra_simps)
  ultimately show ?thesis by (simp only: hypot_def real_sqrt_mult real_sqrt_mult_self abs_of_nonneg)
qed

lemma hypot_neg [simp]: "hypot x (- y) = hypot x y"
  by (simp add: hypot_def)

lemma scaled_unit:
  assumes "hypot x y > 1"
  shows "x / hypot x y * (x / hypot x y) + y / hypot x y * (y / hypot x y) = 1"
proof -
  have n: "hypot x y \<noteq> 0" using assms by auto
  have "x / hypot x y * (x / hypot x y) + y / hypot x y * (y / hypot x y)
      = (x * x + y * y) / (hypot x y * hypot x y)" by (simp add: add_divide_distrib)
  also have "\<dots> = 1" using n hypot_sq by (metis divide_self mult_eq_0_iff)
  finally show ?thesis .
qed

lemma Arcball_norm_outside:
  assumes "hypot x y > 1"
  shows "Arcball_norm (V2 x y) = V3 (x / hypot x y) (y / hypot x y) 0"
  using scaled_unit [OF assms] assms by (simp add: Arcball_norm_def Let_def algebra_simps)

text \<open>the arcball maps every mouse position, inside or outside the unit disc, to a point of the
  unit sphere in the upper half space, and the rotation angle lies between 0 and \<open>pi\<close>.\<close>

theorem Arcball_on_sphere:
  "dot3 (Arcball_norm v) (Arcball_norm v) = 1 \<and> 0 \<le> v3z (Arcball_norm v) \<and>
   0 \<le> angle (Arcball_new v w) \<and> angle (Arcball_new v w) \<le> pi"
proof -
  obtain x y where v: "v = V2 x y" by (cases v)
  have sphere: "dot3 (Arcball_norm v) (Arcball_norm v) = 1 \<and> 0 \<le> v3z (Arcball_norm v)"
  proof (cases "hypot x y > 1")
    case True
    then show ?thesis using Arcball_norm_outside [OF True] scaled_unit [OF True]
      by (simp add: v dot3_def)
  next
    case False
    then have "x * x + y * y \<le> 1" by (simp add: hypot_def)
    then show ?thesis using False Arcball_norm_inside [of x y] by (simp add: v dot3_def)
  qed
  show ?thesis
    using sphere by (auto simp: Arcball_new_def Let_def arccos_lbound arccos_ubound)
qed



end
