(* ===== verification/ModelManager.thy ===== *)
theory ModelManager
  imports V3dModel IblNames
begin

text \<open>
  The manager of \<^verbatim>\<open>v3d-Common/V3dModelManager.h\<close> and \<^verbatim>\<open>V3dModelManager.cpp\<close>: per-document models,
  request caches, page borders, hit testing and the rebinding of the PageView. The event handlers
  are in \<open>ManagerEvents\<close>, rendering and IBL downloads in \<open>ManagerRender\<close>.

  Widgets are identities (numbers). What Qt and Okular report at the time of a call (which
  widgets exist, their sizes, screens and windows, the visible page rectangles, the clock) is the
  record \<open>env\<close>. A handler returns the new state, the effects it has on Okular and its result;
  \<^term>\<open>None\<close> is a run that dereferences a null or dangling pointer. Handlers run under
  \<open>m_ModelsMutex\<close>, so each is one atomic step. Mouse coordinates are after the cast to \<open>int\<close>.
\<close>

section \<open>State\<close>

type_synonym wid = nat

record rect =
  left :: real
  right :: real
  top :: real
  bottom :: real

record env =
  e_alive :: "wid \<Rightarrow> bool"
  e_isWidget :: "wid \<Rightarrow> bool"
  e_isPres :: "wid \<Rightarrow> bool"
  e_width :: "wid \<Rightarrow> real"
  e_height :: "wid \<Rightarrow> real"
  e_visible :: "wid \<Rightarrow> bool"
  e_wdpr :: "wid \<Rightarrow> real"
  e_active :: "wid option"
  e_appDpr :: real
  e_window :: "wid \<Rightarrow> wid"
  e_screen :: "wid \<Rightarrow> nat option"
  e_visibleRects :: "(nat \<times> rect) list"
  e_viewportPage :: int
  e_now :: real
  e_now2 :: real
  e_closing :: bool
  e_docUrl :: string
  e_toplevels :: "(string list \<times> wid list) list"
  e_allPageViews :: "wid list"
  e_activePageViews :: "wid list"

record RequestCache =
  rc_size :: "int vec2"
  rc_priority :: nat
  rc_time :: real

definition RequestCache_init :: RequestCache where
  "RequestCache_init = \<lparr>rc_size = V2 0 0, rc_priority = 2147483647, rc_time = 0\<rparr>"

record PageBorders =
  hi :: real
  lo :: real
  le :: real
  ri :: real
  pageNumber :: nat

datatype content = Null | Black | Fill int int int | Pixels "byte cell list"

record qimage =
  img_w :: int
  img_h :: int
  img_content :: content

definition QImage_null :: qimage where
  "QImage_null = \<lparr>img_w = 0, img_h = 0, img_content = Null\<rparr>"

record 'm manager =
  m_Document :: bool
  m_Models :: "'m V3dModel list list"
  m_ModelImages :: "qimage list list"
  m_HeadlessRenderer :: bool
  m_HeadlessRendererMissing :: bool
  m_Dragging :: bool
  m_MousePosition :: "int vec2"
  m_LastMousePosition :: "int vec2"
  m_PageView :: "wid option"
  m_PageViewObserver :: "nat option"
  m_LastSeenPageViewObserver :: "nat option"
  m_PendingRebindPosted :: bool
  m_EventFilter :: bool
  m_EventFilterOn :: "wid option"
  m_PresentationWidget :: "wid option"
  m_PresentationEventFilter :: bool
  m_PresentationEventFilterOn :: "wid option"
  m_LastEventSource :: "wid option"
  m_PresentationRequestSizes :: "int vec2 list"
  m_StartTime :: real
  m_LastPixmapRefreshTime :: real
  m_CachedRequestSizes :: "RequestCache list"
  m_Pages :: "nat option list"
  m_ModelsWithMissingIBL :: "(nat \<times> nat) set"
  m_PendingDownloadCount :: int
  m_IBLNetManager :: bool
  m_IBLDeclinedNames :: "string set"
  m_Destroying :: bool
  m_ActiveModel :: "(nat \<times> nat) option"
  m_ActiveModelPage :: int
  m_SuppressPageViewRender :: bool
  g_lastPage :: nat
  g_lastModel :: nat
  r_drawMode :: DrawMode
  pendingPrompts :: "string set"

datatype effect =
    DeletePixmap nat nat
  | CtrlKeyRelease wid
  | PresentationResize wid
  | PostRebind
  | ScheduleRefresh nat nat
  | PostPrompt string string
  | Download string string
  | WriteFile string "byte list"

text \<open>A \<open>QPointer\<close> reads as null once its widget is destroyed.\<close>

definition live :: "env \<Rightarrow> wid option \<Rightarrow> wid option" where
  "live e p = (case p of Some w \<Rightarrow> if e_alive e w then Some w else None | None \<Rightarrow> None)"

section \<open>The widget that shows the document\<close>

definition resolvePageViewForDocument :: "env \<Rightarrow> bool \<Rightarrow> wid option" where
  "resolvePageViewForDocument e document =
     (if \<not> document then None
      else if e_docUrl e = [] then None
      else let try = (\<lambda>(urls, pageViews).
             if urls = [] \<or> e_docUrl e \<notin> set urls then None
             else if pageViews = [] then None
             else if length urls = 1 then Some (hd pageViews)
             else find (e_visible e) pageViews)
           in (case filter (\<lambda>r. r \<noteq> None) (map try (e_toplevels e)) of
                 [] \<Rightarrow> None | r # _ \<Rightarrow> r))"

definition resolvePageViewHeuristic :: "env \<Rightarrow> wid option" where
  "resolvePageViewHeuristic e =
     (let sole = (if e_allPageViews e = [] then None else Some (last (e_allPageViews e)))
      in if length (e_allPageViews e) = 1 then sole
         else (case e_activePageViews e of w # _ \<Rightarrow> Some w | [] \<Rightarrow> sole))"

definition resolvePageView :: "env \<Rightarrow> bool \<Rightarrow> wid option" where
  "resolvePageView e document =
     (case resolvePageViewForDocument e document of
        Some w \<Rightarrow> Some w | None \<Rightarrow> resolvePageViewHeuristic e)"

definition V3dModelManager_new :: "env \<Rightarrow> bool \<Rightarrow> 'm manager" where
  "V3dModelManager_new e document =
     (let pv = resolvePageView e document
      in \<lparr>m_Document = document, m_Models = [], m_ModelImages = [],
          m_HeadlessRenderer = False, m_HeadlessRendererMissing = False, m_Dragging = False,
          m_MousePosition = V2 0 0, m_LastMousePosition = V2 0 0,
          m_PageView = pv, m_PageViewObserver = None, m_LastSeenPageViewObserver = None,
          m_PendingRebindPosted = False, m_EventFilter = (pv \<noteq> None), m_EventFilterOn = pv,
          m_PresentationWidget = None, m_PresentationEventFilter = False,
          m_PresentationEventFilterOn = None, m_LastEventSource = None,
          m_PresentationRequestSizes = [], m_StartTime = e_now e, m_LastPixmapRefreshTime = 0,
          m_CachedRequestSizes = [], m_Pages = [], m_ModelsWithMissingIBL = {},
          m_PendingDownloadCount = 0, m_IBLNetManager = False, m_IBLDeclinedNames = {},
          m_Destroying = False, m_ActiveModel = None, m_ActiveModelPage = - 1,
          m_SuppressPageViewRender = False, g_lastPage = 0, g_lastModel = 0,
          r_drawMode = DRAWMODE_NORMAL, pendingPrompts = {}\<rparr>)"

definition rebindPageView :: "env \<Rightarrow> 'm manager \<Rightarrow> 'm manager" where
  "rebindPageView e m =
     (let pending = m_PendingRebindPosted m;
          m1 = m\<lparr>m_PendingRebindPosted := False\<rparr>
      in if \<not> pending then m1
         else (case resolvePageView e (m_Document m) of
                 None \<Rightarrow> m1
               | Some w \<Rightarrow>
                   if live e (m_PageView m) = Some w then m1
                   else m1\<lparr>m_EventFilter := True, m_EventFilterOn := Some w, m_PageView := Some w\<rparr>))"

section \<open>Models\<close>

definition resize_to :: "'a \<Rightarrow> nat \<Rightarrow> 'a list \<Rightarrow> 'a list" where
  "resize_to z n xs = (if length xs < n then xs @ replicate (n - length xs) z else xs)"

definition shaderSearchPaths :: "string list" where
  "shaderSearchPaths = [''./'', ''/usr/lib64/qt6/plugins/okular_generators/'',
     ''/usr/lib/x86_64-linux-gnu/qt6/plugins/okular/generators/'',
     ''C:'' @ [CHR 0x5C] @ ''Program Files'' @ [CHR 0x5C] @ ''Okular'' @ [CHR 0x5C] @ ''bin'' @ [CHR 0x5C]]"

definition requiredShaders :: "string list" where
  "requiredShaders = [''vertex.glsl'', ''fragment.glsl'', ''count.glsl'', ''screen.glsl'',
     ''blend.glsl'', ''sum1.glsl'', ''sum2.glsl'', ''sum3.glsl'']"

definition ensureHeadlessRenderer :: "(string \<Rightarrow> bool) \<Rightarrow> 'm manager \<Rightarrow> 'm manager" where
  "ensureHeadlessRenderer fileExists m =
     (if m_HeadlessRenderer m \<or> m_HeadlessRendererMissing m then m
      else (case find (\<lambda>p. list_all (\<lambda>s. fileExists (p @ s)) requiredShaders) shaderSearchPaths of
              None \<Rightarrow> m\<lparr>m_HeadlessRendererMissing := True\<rparr>
            | Some _ \<Rightarrow> m\<lparr>m_HeadlessRenderer := True\<rparr>))"

definition AddModel :: "(string \<Rightarrow> bool) \<Rightarrow> 'm V3dModel \<Rightarrow> nat \<Rightarrow> 'm manager \<Rightarrow> 'm manager" where
  "AddModel fileExists model page m0 =
     (let m = ensureHeadlessRenderer fileExists m0;
          models = resize_to [] (page + 1) (m_Models m);
          images = resize_to [] (page + 1) (m_ModelImages m)
      in m\<lparr>m_Models := models[page := models ! page @ [initProjection model]],
           m_ModelImages := images[page := images ! page @ [QImage_null]]\<rparr>)"

definition model_at :: "'m manager \<Rightarrow> nat \<Rightarrow> nat \<Rightarrow> 'm V3dModel option" where
  "model_at m p i =
     (if p < length (m_Models m) \<and> i < length (m_Models m ! p)
      then Some (m_Models m ! p ! i) else None)"

definition set_model :: "nat \<Rightarrow> nat \<Rightarrow> 'm V3dModel \<Rightarrow> 'm manager \<Rightarrow> 'm manager" where
  "set_model p i x m = m\<lparr>m_Models := (m_Models m)[p := (m_Models m ! p)[i := x]]\<rparr>"

text \<open>\<open>V3dModelManager::Model\<close>: out of range gives the sentinel \<open>m_EmptyModel\<close> (\<^term>\<open>None\<close>).\<close>

definition Model :: "nat \<Rightarrow> nat \<Rightarrow> 'm manager \<Rightarrow> 'm V3dModel option" where
  "Model page idx m =
     (if page \<ge> length (m_Models m) then None
      else if idx \<ge> length (m_Models m ! page) then None
      else Some (m_Models m ! page ! idx))"

definition ModelBoundsSnapshot :: "nat \<Rightarrow> 'm manager \<Rightarrow> (real vec2 \<times> real vec2) list" where
  "ModelBoundsSnapshot page m =
     (if page \<ge> length (m_Models m) then []
      else map (\<lambda>x. (mMinBound x, mMaxBound x)) (m_Models m ! page))"

definition Empty :: "'m manager \<Rightarrow> bool" where
  "Empty m \<longleftrightarrow> m_Models m = []"

definition ShouldSuppressPageViewRender :: "'m manager \<Rightarrow> bool" where
  "ShouldSuppressPageViewRender m = m_SuppressPageViewRender m"

definition LastRenderedModelImage :: "nat \<Rightarrow> nat \<Rightarrow> 'm manager \<Rightarrow> qimage" where
  "LastRenderedModelImage page idx m =
     (if page \<ge> length (m_ModelImages m) \<or> idx \<ge> length (m_ModelImages m ! page) then QImage_null
      else m_ModelImages m ! page ! idx)"

definition CachedModelImage :: "nat \<Rightarrow> nat \<Rightarrow> int \<Rightarrow> int \<Rightarrow> 'm manager \<Rightarrow> qimage" where
  "CachedModelImage page idx width height m =
     (if page \<ge> length (m_ModelImages m) \<or> idx \<ge> length (m_ModelImages m ! page) then QImage_null
      else let cached = m_ModelImages m ! page ! idx
           in if img_content cached = Null then QImage_null
              else if width > 0 \<and> height > 0 \<and> (img_w cached \<noteq> width \<or> img_h cached \<noteq> height)
              then cached\<lparr>img_w := width, img_h := height\<rparr>
              else cached)"

definition GetCanvasSize :: "nat \<Rightarrow> 'm manager \<Rightarrow> uint32 vec2" where
  "GetCanvasSize page m =
     (if page \<ge> length (m_Models m) \<or> m_Models m ! page = [] then V2 0 0
      else sCanvas (mFile (hd (m_Models m ! page))))"

definition Clear :: "'m manager \<Rightarrow> 'm manager" where
  "Clear m = m\<lparr>m_Models := [], m_ModelImages := [], m_Pages := [], m_CachedRequestSizes := [],
     m_ModelsWithMissingIBL := {}, m_PresentationRequestSizes := [], m_Dragging := False,
     m_ActiveModel := None, m_ActiveModelPage := - 1, m_LastEventSource := None,
     m_PendingRebindPosted := False, m_SuppressPageViewRender := False\<rparr>"

definition SetDocument :: "bool \<Rightarrow> 'm manager \<Rightarrow> 'm manager" where
  "SetDocument document m = (Clear m)\<lparr>m_Document := document\<rparr>"

section \<open>Request caches\<close>

definition PRESENTATION_PRIO :: nat where "PRESENTATION_PRIO = 0"
definition PAGEVIEW_PRIO :: nat where "PAGEVIEW_PRIO = 1"
definition THUMBNAILS_PRIO :: nat where "THUMBNAILS_PRIO = 2"
definition PRESENTATION_PRELOAD_PRIO :: nat where "PRESENTATION_PRELOAD_PRIO = 3"
definition PAGEVIEW_PRELOAD_PRIO :: nat where "PAGEVIEW_PRELOAD_PRIO = 4"
definition THUMBNAILS_PRELOAD_PRIO :: nat where "THUMBNAILS_PRELOAD_PRIO = 5"

record PixmapRequest =
  rq_page :: nat
  rq_pagePtr :: "nat option"
  rq_width :: int
  rq_height :: int
  rq_priority :: nat
  rq_observer :: nat

definition EnsureCachedRequestSize :: "nat \<Rightarrow> 'm manager \<Rightarrow> 'm manager" where
  "EnsureCachedRequestSize page m =
     (if length (m_CachedRequestSizes m) \<le> page
      then m\<lparr>m_CachedRequestSizes := resize_to RequestCache_init (page + 1) (m_CachedRequestSizes m)\<rparr>
      else m)"

definition cacheRequestSizeUnlocked ::
  "env \<Rightarrow> nat \<Rightarrow> int \<Rightarrow> int \<Rightarrow> nat \<Rightarrow> 'm manager \<Rightarrow> 'm manager" where
  "cacheRequestSizeUnlocked e page width height priority m =
     (let cs = resize_to RequestCache_init (page + 1) (m_CachedRequestSizes m);
          requestTime = e_now e - m_StartTime m
      in m\<lparr>m_CachedRequestSizes :=
           (if requestTime > rc_time (cs ! page)
            then cs[page := \<lparr>rc_size = V2 width height, rc_priority = priority,
                             rc_time = requestTime\<rparr>]
            else cs)\<rparr>)"

definition cachePageUnlocked :: "nat \<Rightarrow> nat option \<Rightarrow> 'm manager \<Rightarrow> 'm manager" where
  "cachePageUnlocked page ptr m =
     (if ptr = None then m
      else m\<lparr>m_Pages := (resize_to None (page + 1) (m_Pages m))[page := ptr]\<rparr>)"

text \<open>The part of \<open>cacheRequestUnlocked\<close> for PageView requests.\<close>

definition note_observer :: "PixmapRequest \<Rightarrow> 'm manager \<Rightarrow> 'm manager \<times> effect list" where
  "note_observer r m =
     (if rq_priority r = PAGEVIEW_PRIO then
        (let m1 = m\<lparr>m_PageViewObserver := Some (rq_observer r)\<rparr>
         in if m_LastSeenPageViewObserver m \<noteq> Some (rq_observer r) then
              (let m2 = m1\<lparr>m_LastSeenPageViewObserver := Some (rq_observer r)\<rparr>
               in if \<not> m_PendingRebindPosted m
                  then (m2\<lparr>m_PendingRebindPosted := True\<rparr>, [PostRebind]) else (m2, []))
            else (m1, []))
      else (m, []))"

definition CacheRequest :: "env \<Rightarrow> PixmapRequest \<Rightarrow> 'm manager \<Rightarrow> 'm manager \<times> effect list" where
  "CacheRequest e r m0 =
     (case note_observer r m0 of (m, fx) \<Rightarrow>
        if rq_priority r \<notin> {PAGEVIEW_PRIO, PAGEVIEW_PRELOAD_PRIO, PRESENTATION_PRIO,
             PRESENTATION_PRELOAD_PRIO} then
          (if length (m_CachedRequestSizes m) < rq_page r + 1 \<or>
              rc_size (m_CachedRequestSizes m ! rq_page r) = V2 0 0
           then (cacheRequestSizeUnlocked e (rq_page r) (rq_width r) (rq_height r) (rq_priority r) m, fx)
           else (m, fx))
        else
          let m1 = (if rq_priority r = PRESENTATION_PRIO \<or> rq_priority r = PRESENTATION_PRELOAD_PRIO
                    then m\<lparr>m_PresentationRequestSizes :=
                           (resize_to (V2 0 0) (rq_page r + 1) (m_PresentationRequestSizes m))
                             [rq_page r := V2 (rq_width r) (rq_height r)]\<rparr>
                    else m);
              m2 = cacheRequestSizeUnlocked e (rq_page r) (rq_width r) (rq_height r) (rq_priority r) m1
          in (cachePageUnlocked (rq_page r) (rq_pagePtr r) m2, fx))"

section \<open>Page borders\<close>

definition GetDevicePixelRatio :: "env \<Rightarrow> real" where
  "GetDevicePixelRatio e = (case e_active e of Some w \<Rightarrow> e_wdpr e w | None \<Rightarrow> e_appDpr e)"

text \<open>The cached request size of a page in logical pixels (after \<open>EnsureCachedRequestSize\<close>).\<close>

definition cached_size :: "'m manager \<Rightarrow> nat \<Rightarrow> int vec2" where
  "cached_size m page =
     (if page < length (m_CachedRequestSizes m) then rc_size (m_CachedRequestSizes m ! page)
      else V2 0 0)"

definition page_size :: "env \<Rightarrow> 'm manager \<Rightarrow> nat \<Rightarrow> real vec2" where
  "page_size e m page = map_vec2 (\<lambda>x. real_of_int x / GetDevicePixelRatio e) (cached_size m page)"

definition borders_single :: "real vec2 \<Rightarrow> real vec2 \<Rightarrow> nat \<times> rect \<Rightarrow> PageBorders" where
  "borders_single view page_sz v =
     (case v of (n, r) \<Rightarrow>
        let vmid = (v2y view - v2y page_sz) / 2; hmid = (v2x view - v2x page_sz) / 2;
            vhi = - top r * v2y page_sz; vlo = - (1 - bottom r) * v2y page_sz;
            hle = - left r * v2x page_sz; hri = - (1 - right r) * v2x page_sz
        in if left r = 0 \<and> right r = 1 \<and> top r = 0 \<and> bottom r = 1
           then \<lparr>hi = vmid, lo = vmid, le = hmid, ri = hmid, pageNumber = n\<rparr>
           else if left r = 0 \<and> right r = 1
           then \<lparr>hi = vhi, lo = vlo, le = hmid, ri = hmid, pageNumber = n\<rparr>
           else if top r = 0 \<and> bottom r = 1
           then \<lparr>hi = vmid, lo = vmid, le = hle, ri = hri, pageNumber = n\<rparr>
           else \<lparr>hi = vhi, lo = vlo, le = hle, ri = hri, pageNumber = n\<rparr>)"

text \<open>Horizontal borders when several pages are visible; the last branch is the source's
  \<open>EDGE CASE // TODO\<close>, and \<open>ri\<close> is computed as in the source.\<close>

definition borders_horizontal :: "real vec2 \<Rightarrow> real vec2 \<Rightarrow> nat \<times> rect \<Rightarrow> PageBorders" where
  "borders_horizontal view page_sz v =
     (case v of (n, r) \<Rightarrow>
        if left r = 0 \<and> right r = 1
        then \<lparr>hi = 0, lo = 0, le = (v2x view - v2x page_sz) / 2, ri = (v2x view - v2x page_sz) / 2,
              pageNumber = n\<rparr>
        else if left r \<noteq> 0 \<and> right r \<noteq> 1
        then \<lparr>hi = 0, lo = 0, le = - left r * v2x page_sz, ri = - right r * v2x page_sz,
              pageNumber = n\<rparr>
        else \<lparr>hi = 0, lo = 0, le = 0, ri = 0, pageNumber = n\<rparr>)"

fun borders_below :: "real \<Rightarrow> (nat \<Rightarrow> real) \<Rightarrow> real \<Rightarrow> PageBorders list \<Rightarrow> PageBorders list" where
  "borders_below vh height prevLo [] = []"
| "borders_below vh height prevLo (b # bs) =
     (let h = vh - prevLo + 10; l = vh - h - height (pageNumber b)
      in b\<lparr>hi := h, lo := l\<rparr> # borders_below vh height l bs)"

definition borders_multi ::
  "real vec2 \<Rightarrow> (nat \<Rightarrow> real vec2) \<Rightarrow> (nat \<times> rect) list \<Rightarrow> PageBorders list" where
  "borders_multi view sz vis =
     (let bs = map (\<lambda>v. borders_horizontal view (sz (fst v)) v) vis;
          first = hd vis; firstSize = sz (fst first);
          total = sum_list (map (\<lambda>i. v2y (sz i)) [fst first ..< fst (last vis) + 1])
                  + (real (length vis) - 1) * 10;
          h = (if top (snd first) = 0 then (v2y view - total) / 2
               else - top (snd first) * v2y firstSize);
          l = (if top (snd first) = 0 then v2y view - h - v2y firstSize
               else v2y view - (1 - top (snd first)) * v2y firstSize)
      in (hd bs)\<lparr>hi := h, lo := l\<rparr> # borders_below (v2y view) (\<lambda>n. v2y (sz n)) l (tl bs))"

definition ensure_pages :: "nat list \<Rightarrow> 'm manager \<Rightarrow> 'm manager" where
  "ensure_pages ns m = fold EnsureCachedRequestSize ns m"

definition GetPageBordersForVisiblePages :: "env \<Rightarrow> 'm manager \<Rightarrow> PageBorders list \<times> 'm manager" where
  "GetPageBordersForVisiblePages e m =
     (case live e (m_PageView m) of
        None \<Rightarrow> ([], m)
      | Some pv \<Rightarrow>
          let vis = e_visibleRects e; view = V2 (e_width e pv) (e_height e pv)
          in if vis = [] then ([], m)
             else if length vis = 1 then
               (let m1 = EnsureCachedRequestSize (fst (hd vis)) m
                in ([borders_single view (page_size e m1 (fst (hd vis))) (hd vis)], m1))
             else
               (let m1 = ensure_pages (map fst vis @
                      (if top (snd (hd vis)) = 0 then [fst (hd vis) ..< fst (last vis) + 1] else [])) m
                in (borders_multi view (page_size e m1) vis, m1)))"

definition GetPresentationPageBorders :: "env \<Rightarrow> 'm manager \<Rightarrow> PageBorders list \<times> 'm manager" where
  "GetPresentationPageBorders e m =
     (case live e (m_PresentationWidget m) of
        None \<Rightarrow> ([], m)
      | Some w \<Rightarrow>
          if \<not> m_Document m \<or> e_viewportPage e < 0 then ([], m)
          else
            let page = nat (e_viewportPage e); m1 = EnsureCachedRequestSize page m
            in if length (m_PresentationRequestSizes m) \<le> page then ([], m1)
               else let d = m_PresentationRequestSizes m ! page
                    in if v2x d \<le> 0 \<or> v2y d \<le> 0 then ([], m1)
                       else let dpr = e_wdpr e w;
                                psx = real_of_int (v2x d) / dpr; psy = real_of_int (v2y d) / dpr
                            in ([\<lparr>hi = (e_height e w - psy) / 2, lo = (e_height e w - psy) / 2,
                                  le = (e_width e w - psx) / 2, ri = (e_width e w - psx) / 2,
                                  pageNumber = page\<rparr>], m1))"

text \<open>\<open>m_LastEventSource && m_LastEventSource->inherits("PresentationWidget")\<close>: the raw pointer is
  dereferenced; \<^term>\<open>None\<close> when it dangles.\<close>

definition source_is_presentation :: "env \<Rightarrow> 'm manager \<Rightarrow> bool option" where
  "source_is_presentation e m =
     (case m_LastEventSource m of
        None \<Rightarrow> Some False
      | Some w \<Rightarrow> if e_alive e w then Some (e_isPres e w) else None)"

definition GetActivePageBorders :: "env \<Rightarrow> 'm manager \<Rightarrow> (PageBorders list \<times> 'm manager) option" where
  "GetActivePageBorders e m =
     map_option (\<lambda>p. if p then GetPresentationPageBorders e m else GetPageBordersForVisiblePages e m)
       (source_is_presentation e m)"

definition GetActiveViewportSize :: "env \<Rightarrow> 'm manager \<Rightarrow> real vec2 option" where
  "GetActiveViewportSize e m =
     map_option (\<lambda>p. case (p, m_LastEventSource m) of
         (True, Some w) \<Rightarrow> V2 (e_width e w) (e_height e w)
       | _ \<Rightarrow> (case live e (m_PageView m) of
                 Some w \<Rightarrow> V2 (e_width e w) (e_height e w) | None \<Rightarrow> V2 0 0))
       (source_is_presentation e m)"

definition GetPageMouseIsOver :: "env \<Rightarrow> 'm manager \<Rightarrow> (nat option \<times> 'm manager) option" where
  "GetPageMouseIsOver e m =
     Option.bind (GetActivePageBorders e m) (\<lambda>(bs, m1).
     Option.bind (GetActiveViewportSize e m) (\<lambda>view.
       let mx = real_of_int (v2x (m_MousePosition m)); my = real_of_int (v2y (m_MousePosition m))
       in Some (map_option pageNumber
            (find (\<lambda>b. mx > le b \<and> mx < v2x view - ri b \<and> my > hi b \<and> my < v2y view - lo b) bs),
          m1)))"

definition GetNormalizedPositionRelativeToPage ::
  "env \<Rightarrow> 'm manager \<Rightarrow> int vec2 \<Rightarrow> nat \<Rightarrow> (real vec2 \<times> 'm manager) option" where
  "GetNormalizedPositionRelativeToPage e m pos page =
     Option.bind (GetActivePageBorders e m) (\<lambda>(bs, m1).
     Option.bind (source_is_presentation e m) (\<lambda>pres.
       let usePres = (pres \<and> length (m_PresentationRequestSizes m) > page \<and>
             (v2x (m_PresentationRequestSizes m ! page) > 0 \<or>
              v2y (m_PresentationRequestSizes m ! page) > 0));
           d1 = (if usePres then m_PresentationRequestSizes m ! page else V2 0 0);
           dpr1 = (case live e (m_PresentationWidget m) of
                     Some w \<Rightarrow> e_wdpr e w | None \<Rightarrow> GetDevicePixelRatio e);
           fallback = (v2x d1 \<le> 0 \<or> v2y d1 \<le> 0);
           m2 = (if fallback then EnsureCachedRequestSize page m1 else m1);
           d = (if fallback then cached_size m2 page else d1);
           dpr = (if fallback then GetDevicePixelRatio e else dpr1);
           psx = real_of_int (v2x d) / dpr; psy = real_of_int (v2y d) / dpr
       in Some (case find (\<lambda>b. pageNumber b = page) bs of
                  None \<Rightarrow> V2 0 0
                | Some b \<Rightarrow>
                    if psx \<le> 0 \<or> psy \<le> 0 then V2 0 0
                    else V2 ((real_of_int (v2x pos) - le b) / psx)
                            ((real_of_int (v2y pos) - hi b) / psy), m2)))"

end
