(* ===== verification/ManagerEvents.thy ===== *)
theory ManagerEvents
  imports ModelManager
begin

text \<open>
  The event handling of \<^verbatim>\<open>v3d-Common/V3dModelManager.cpp\<close>: pixmap refresh, presentation mode,
  the mouse, wheel and key handlers, and the dispatch of \<^verbatim>\<open>Utility/EventFilter.cpp\<close> and
  \<^verbatim>\<open>Utility/ApplicationEventFilter.cpp\<close>. A handler returns the new state, the effects on
  Okular and whether it consumed the event. \<^term>\<open>None\<close> is a run that dereferences a null or
  dangling pointer, or in which the zoom of a model becomes NaN.
\<close>

section \<open>Pixmap refresh\<close>

definition minTimeBetweenRefreshes :: real where "minTimeBetweenRefreshes = 1 / 60"

definition dualScreen :: "env \<Rightarrow> 'm manager \<Rightarrow> bool" where
  "dualScreen e m =
     (case (live e (m_PresentationWidget m), live e (m_PageView m)) of
        (Some pw, Some pv) \<Rightarrow>
          e_screen e (e_window e pv) = None \<or> e_screen e pw = None \<or>
          e_screen e (e_window e pv) \<noteq> e_screen e pw
      | _ \<Rightarrow> True)"

definition interactingWithPresentation :: "env \<Rightarrow> 'm manager \<Rightarrow> bool option" where
  "interactingWithPresentation e m =
     (if live e (m_PresentationWidget m) = None then Some False else source_is_presentation e m)"

text \<open>Which windows a refresh reaches, given whether the user interacts with the presentation.\<close>

definition refreshPageView :: "env \<Rightarrow> bool \<Rightarrow> 'm manager \<Rightarrow> bool" where
  "refreshPageView e withPres m =
     (case live e (m_PageView m) of
        None \<Rightarrow> False
      | Some pv \<Rightarrow> e_visible e pv \<and> (\<not> withPres \<or> dualScreen e m))"

definition refreshPresentation :: "env \<Rightarrow> bool \<Rightarrow> nat \<Rightarrow> 'm manager \<Rightarrow> bool" where
  "refreshPresentation e withPres page m \<longleftrightarrow>
     live e (m_PresentationWidget m) \<noteq> None \<and> m_Document m \<and> e_viewportPage e = int page \<and>
     (withPres \<or> dualScreen e m)"

text \<open>The pixmap deletion, the synthetic key release and the synthetic resize, in this order.\<close>

definition refresh_effects :: "env \<Rightarrow> bool \<Rightarrow> nat \<Rightarrow> 'm manager \<Rightarrow> effect list" where
  "refresh_effects e withPres page m =
     (if refreshPageView e withPres m \<or> live e (m_PresentationWidget m) = None
      then (case m_PageViewObserver m of Some ob \<Rightarrow> [DeletePixmap page ob] | None \<Rightarrow> []) else []) @
     (if refreshPageView e withPres m then [CtrlKeyRelease (the (m_PageView m))] else []) @
     (if refreshPresentation e withPres page m
      then [PresentationResize (the (m_PresentationWidget m))] else [])"

definition presentation_only :: "env \<Rightarrow> bool \<Rightarrow> nat \<Rightarrow> 'm manager \<Rightarrow> bool" where
  "presentation_only e withPres page m \<longleftrightarrow>
     refreshPresentation e withPres page m \<and> withPres \<and> \<not> dualScreen e m"

definition refreshPixmap :: "env \<Rightarrow> nat \<Rightarrow> 'm manager \<Rightarrow> ('m manager \<times> effect list) option" where
  "refreshPixmap e page m =
     (if page \<ge> length (m_Pages m) \<or> m_Pages m ! page = None then Some (m, [])
      else Option.bind (interactingWithPresentation e m) (\<lambda>withPres.
        Some (if presentation_only e withPres page m
              then m\<lparr>m_SuppressPageViewRender := True\<rparr> else m,
              refresh_effects e withPres page m)))"

definition requestPixmapRefresh ::
  "env \<Rightarrow> nat \<Rightarrow> 'm manager \<Rightarrow> ('m manager \<times> effect list) option" where
  "requestPixmapRefresh e page m =
     (if e_now e - m_LastPixmapRefreshTime m > minTimeBetweenRefreshes
      then map_option (\<lambda>(m1, fx). (m1\<lparr>m_LastPixmapRefreshTime := e_now2 e\<rparr>, fx))
             (refreshPixmap e page m)
      else Some (m, []))"

section \<open>Mouse\<close>

type_synonym 'm handled = "('m manager \<times> effect list \<times> bool) option"

text \<open>The guard \<open>m_Models.size() == 0 || !m_PageView\<close> at the start of every handler.\<close>

definition plain_document :: "env \<Rightarrow> 'm manager \<Rightarrow> bool" where
  "plain_document e m \<longleftrightarrow> m_Models m = [] \<or> live e (m_PageView m) = None"

text \<open>Conversion of an \<open>int\<close> page number to \<open>size_t\<close>.\<close>

definition size_t :: "int \<Rightarrow> nat" where
  "size_t n = nat (n mod 2 ^ 64)"

definition on_model :: "real vec2 \<Rightarrow> 'm V3dModel \<Rightarrow> bool" where
  "on_model p x \<longleftrightarrow>
     v2x p > v2x (mMinBound x) \<and> v2x p < v2x (mMaxBound x) \<and>
     v2y p > v2y (mMinBound x) \<and> v2y p < v2y (mMaxBound x)"

definition hit_model :: "real vec2 \<Rightarrow> 'm V3dModel list \<Rightarrow> nat option" where
  "hit_model p xs = find (\<lambda>i. on_model p (xs ! i)) [0 ..< length xs]"

definition position_on_model :: "'m V3dModel \<Rightarrow> real vec2 \<Rightarrow> real vec2" where
  "position_on_model x p =
     V2 ((v2x p - v2x (mMinBound x)) / (v2x (mMaxBound x) - v2x (mMinBound x)))
        ((v2y p - v2y (mMinBound x)) / (v2y (mMaxBound x) - v2y (mMinBound x)))"

record modifiers =
  controlKey :: bool
  shiftKey :: bool
  altKey :: bool

text \<open>The gesture that the modifier keys select.\<close>

definition apply_drag ::
  "'m glm \<Rightarrow> modifiers \<Rightarrow> real vec2 \<Rightarrow> real vec2 \<Rightarrow> real vec2 \<Rightarrow> 'm V3dModel \<Rightarrow> 'm V3dModel" where
  "apply_drag G k pos prev view x =
     (if controlKey k \<and> \<not> shiftKey k \<and> \<not> altKey k then dragModeShift pos prev x
      else if \<not> controlKey k \<and> shiftKey k \<and> \<not> altKey k then dragModeZoom pos prev view x
      else if \<not> controlKey k \<and> \<not> shiftKey k \<and> altKey k then dragModePan pos prev x
      else dragModeRotate G pos prev x)"

text \<open>The part of \<open>mouseMoveEvent\<close> that runs under the mutex.\<close>

definition move_active ::
  "'m glm \<Rightarrow> env \<Rightarrow> modifiers \<Rightarrow> 'm manager \<Rightarrow> 'm manager option" where
  "move_active G e k m =
     Option.bind (GetNormalizedPositionRelativeToPage e m (m_MousePosition m)
         (size_t (m_ActiveModelPage m))) (\<lambda>(np, m1).
     Option.bind (GetNormalizedPositionRelativeToPage e m1 (m_LastMousePosition m1)
         (size_t (m_ActiveModelPage m1))) (\<lambda>(lp, m2).
     Option.bind (m_ActiveModel m2) (\<lambda>(p, i).
     Option.bind (model_at m2 p i) (\<lambda>x.
     Option.bind (GetActiveViewportSize e m2) (\<lambda>view.
       let m3 = (if controlKey k \<and> \<not> shiftKey k \<and> \<not> altKey k
                 then EnsureCachedRequestSize (size_t (m_ActiveModelPage m2)) m2 else m2)
       in Some (set_model p i
            (apply_drag G k (position_on_model x np) (position_on_model x lp) view x) m3))))))"

definition mouseMoveEvent :: "'m glm \<Rightarrow> env \<Rightarrow> int vec2 \<Rightarrow> modifiers \<Rightarrow> 'm manager \<Rightarrow> 'm handled" where
  "mouseMoveEvent G e pos k m0 =
     (if plain_document e m0 then Some (m0, [], False)
      else let m = m0\<lparr>m_MousePosition := pos\<rparr>
           in if \<not> m_Dragging m then Some (m\<lparr>m_LastMousePosition := pos\<rparr>, [], False)
              else Option.bind (move_active G e k m) (\<lambda>m1.
                   Option.bind (requestPixmapRefresh e (size_t (m_ActiveModelPage m1)) m1) (\<lambda>(m2, fx).
                     Some (m2\<lparr>m_LastMousePosition := m_MousePosition m2\<rparr>, fx, True))))"

definition mouseButtonPressEvent :: "env \<Rightarrow> int vec2 \<Rightarrow> bool \<Rightarrow> 'm manager \<Rightarrow> 'm handled" where
  "mouseButtonPressEvent e pos leftButton m0 =
     (if plain_document e m0 then Some (m0, [], False)
      else let m = m0\<lparr>m_MousePosition := pos\<rparr>
           in if \<not> leftButton then Some (m, [], False)
              else Option.bind (GetPageMouseIsOver e m) (\<lambda>(over, m1).
                (case over of
                   None \<Rightarrow> Some (m1, [], False)
                 | Some page \<Rightarrow>
                     if page \<ge> length (m_Models m1) then Some (m1, [], False)
                     else Option.bind (GetNormalizedPositionRelativeToPage e m1 (m_MousePosition m1) page)
                       (\<lambda>(np, m2).
                         (case hit_model np (m_Models m2 ! page) of
                            None \<Rightarrow> Some (m2, [], False)
                          | Some i \<Rightarrow>
                              Some (m2\<lparr>m_Dragging := True, m_LastMousePosition := m_MousePosition m2,
                                       m_ActiveModel := Some (page, i),
                                       m_ActiveModelPage := int page\<rparr>, [], True))))))"

definition mouseButtonReleaseEvent :: "env \<Rightarrow> bool \<Rightarrow> 'm manager \<Rightarrow> 'm handled" where
  "mouseButtonReleaseEvent e leftButton m =
     (if plain_document e m then Some (m, [], False)
      else if \<not> leftButton then Some (m, [], False)
      else Some (m\<lparr>m_Dragging := False, m_ActiveModel := None, m_ActiveModelPage := - 1,
                   m_SuppressPageViewRender := False\<rparr>, [], False))"

section \<open>Wheel\<close>

text \<open>A single model that fills the page (a standalone v3d file), or else the dragged model.\<close>

definition wheel_target :: "'m manager \<Rightarrow> (nat \<times> nat \<times> int) option" where
  "wheel_target m =
     (case (m_Dragging m, m_ActiveModel m) of
        (True, Some (p, i)) \<Rightarrow> if m_ActiveModelPage m = - 1 then None else Some (p, i, m_ActiveModelPage m)
      | _ \<Rightarrow>
          if length (m_Models m) = 1 \<and> length (m_Models m ! 0) = 1 then
            (let x = m_Models m ! 0 ! 0
             in if v2x (mMinBound x) \<le> 0 \<and> v2x (mMaxBound x) \<ge> 1 \<and>
                   v2y (mMinBound x) \<le> 0 \<and> v2y (mMaxBound x) \<ge> 1
                then Some (0, 0, 0) else None)
          else None)"

definition clamp_zoom :: "real \<Rightarrow> real" where
  "clamp_zoom z = (if z < minZoom then minZoom else if z > maxZoom then maxZoom else z)"

text \<open>\<open>Zoom /= zoomFactor\<close> or \<open>Zoom *= zoomFactor\<close>, then the clamping. A quotient by zero is an
  infinity of the sign of \<open>Zoom\<close>, or NaN.\<close>

definition wheel_zoom :: "int \<Rightarrow> real \<Rightarrow> real \<Rightarrow> real option" where
  "wheel_zoom deltaY zf z =
     (if deltaY < 0 then
        (if zf = 0 then (if z > 0 then Some maxZoom else if z < 0 then Some minZoom else None)
         else Some (clamp_zoom (z / zf)))
      else Some (clamp_zoom (z * zf)))"

definition wheelEvent :: "'m glm \<Rightarrow> env \<Rightarrow> int vec2 \<Rightarrow> 'm manager \<Rightarrow> 'm handled" where
  "wheelEvent G e angleDelta m =
     (if plain_document e m then Some (m, [], False)
      else (case wheel_target m of
              None \<Rightarrow> Some (m, [], False)
            | Some (p, i, page) \<Rightarrow>
                Option.bind (GetNormalizedPositionRelativeToPage e m (m_MousePosition m) (size_t page))
                  (\<lambda>(np, m1).
                Option.bind (model_at m1 p i) (\<lambda>x.
                  if \<not> on_model np x then Some (m1, [], False)
                  else
                    let deltaY = (if v2y angleDelta = 0 then v2x angleDelta else v2y angleDelta)
                    in Option.bind (wheel_zoom deltaY (sZoomFactor (mFile x)) (Zoom x)) (\<lambda>z.
                      let m2 = EnsureCachedRequestSize (size_t page) m1;
                          sz = page_size e m2 (size_t page);
                          canvas = V2 ((v2x (mMaxBound x) - v2x (mMinBound x)) * v2x sz)
                                      ((v2y (mMaxBound x) - v2y (mMinBound x)) * v2y sz)
                      in Option.bind (requestPixmapRefresh e (size_t page)
                           (set_model p i (setProjection G canvas (x\<lparr>Zoom := z\<rparr>)) m2)) (\<lambda>(m3, fx).
                           Some (m3, fx, True)))))))"

section \<open>Keys\<close>

datatype key = Key_H | Key_M | Key_Other

definition key_action :: "'m glm \<Rightarrow> key \<Rightarrow> 'm V3dModel \<Rightarrow> 'm V3dModel" where
  "key_action G k x = (case k of Key_H \<Rightarrow> home G x | Key_M \<Rightarrow> cycleMode x | Key_Other \<Rightarrow> x)"

definition keyPressEvent :: "'m glm \<Rightarrow> env \<Rightarrow> key \<Rightarrow> 'm manager \<Rightarrow> 'm handled" where
  "keyPressEvent G e k m =
     (if plain_document e m then Some (m, [], False)
      else if k = Key_Other then Some (m, [], False)
      else Option.bind (GetPageMouseIsOver e m) (\<lambda>(over, m1).
        (case over of
           None \<Rightarrow> Some (m1, [], False)
         | Some page \<Rightarrow>
             if page \<ge> length (m_Models m1) then Some (m1, [], False)
             else Option.bind (GetNormalizedPositionRelativeToPage e m1 (m_MousePosition m1) page)
               (\<lambda>(np, m2).
                 (case hit_model np (m_Models m2 ! page) of
                    None \<Rightarrow> Some (m2, [], True)
                  | Some i \<Rightarrow>
                      map_option (\<lambda>(m3, fx). (m3, fx, True))
                        (refreshPixmap e page
                          (set_model page i (key_action G k (m_Models m2 ! page ! i)) m2)))))))"

definition keyEventInOwnWindow :: "env \<Rightarrow> wid \<Rightarrow> 'm manager \<Rightarrow> bool" where
  "keyEventInOwnWindow e object m =
     (if \<not> e_isWidget e object then False
      else (case live e (m_PresentationWidget m) of
              Some pw \<Rightarrow> e_window e object = e_window e pw
            | None \<Rightarrow> False) \<or>
           (case live e (m_PageView m) of
              Some pv \<Rightarrow> e_window e object = e_window e pv
            | None \<Rightarrow> False))"

section \<open>Presentation mode and event dispatch\<close>

definition noteEventSource :: "wid \<Rightarrow> 'm manager \<Rightarrow> 'm manager" where
  "noteEventSource object m = m\<lparr>m_LastEventSource := Some object\<rparr>"

datatype qevent =
    MouseMove "int vec2" modifiers
  | MouseButtonPress "int vec2" bool
  | MouseButtonRelease bool
  | Wheel "int vec2"
  | KeyPress key
  | User2
  | Show
  | Destroy
  | OtherEvent

definition presentation_shown :: "env \<Rightarrow> wid \<Rightarrow> 'm manager \<Rightarrow> 'm manager" where
  "presentation_shown e w m =
     (if \<not> e_isWidget e w then m
      else if live e (m_PresentationWidget m) \<noteq> Some w then
        (let m1 = m\<lparr>m_PresentationWidget := Some w, m_PresentationEventFilter := True\<rparr>
         in if live e (m_PresentationEventFilterOn m) \<noteq> Some w
            then m1\<lparr>m_PresentationEventFilterOn := Some w\<rparr> else m1)
      else m)"

definition presentation_destroyed :: "env \<Rightarrow> 'm manager \<Rightarrow> ('m manager \<times> effect list) option" where
  "presentation_destroyed e m0 =
     (let m = m0\<lparr>m_PresentationWidget := None, m_SuppressPageViewRender := False\<rparr>
      in if \<not> e_closing e \<and> \<not> m_Destroying m \<and> m_Document m \<and>
            (case live e (m_PageView m) of Some pv \<Rightarrow> e_visible e pv | None \<Rightarrow> False) \<and>
            e_viewportPage e \<ge> 0
         then refreshPixmap e (nat (e_viewportPage e)) m
         else Some (m, []))"

definition handlePresentationWidgetEvent ::
  "env \<Rightarrow> wid \<Rightarrow> qevent \<Rightarrow> 'm manager \<Rightarrow> ('m manager \<times> effect list) option" where
  "handlePresentationWidgetEvent e object ev m =
     (if \<not> e_isPres e object then Some (m, [])
      else (case ev of
              Show \<Rightarrow> Some (presentation_shown e object m, [])
            | Destroy \<Rightarrow> presentation_destroyed e m
            | _ \<Rightarrow> Some (m, [])))"

definition EventFilter_eventFilter :: "'m glm \<Rightarrow> env \<Rightarrow> wid \<Rightarrow> qevent \<Rightarrow> 'm manager \<Rightarrow> 'm handled" where
  "EventFilter_eventFilter G e object ev m =
     (case ev of
        MouseMove pos k \<Rightarrow> mouseMoveEvent G e pos k (noteEventSource object m)
      | MouseButtonPress pos b \<Rightarrow> mouseButtonPressEvent e pos b (noteEventSource object m)
      | MouseButtonRelease b \<Rightarrow> mouseButtonReleaseEvent e b (noteEventSource object m)
      | Wheel d \<Rightarrow> wheelEvent G e d (noteEventSource object m)
      | _ \<Rightarrow> Some (m, [], False))"

definition ApplicationEventFilter_eventFilter ::
  "'m glm \<Rightarrow> env \<Rightarrow> wid \<Rightarrow> qevent \<Rightarrow> 'm manager \<Rightarrow> 'm handled" where
  "ApplicationEventFilter_eventFilter G e object ev m =
     (case ev of
        KeyPress k \<Rightarrow>
          if keyEventInOwnWindow e object m then keyPressEvent G e k m else Some (m, [], False)
      | User2 \<Rightarrow> Some (rebindPageView e m, [], True)
      | _ \<Rightarrow> map_option (\<lambda>(m1, fx). (m1, fx, False)) (handlePresentationWidgetEvent e object ev m))"

section \<open>What hit testing may change\<close>

text \<open>Hit testing changes nothing but the cache of request sizes, which it may extend.\<close>

definition recached :: "'m manager \<Rightarrow> 'm manager \<Rightarrow> bool" where
  "recached m m' \<longleftrightarrow> (\<exists>cs. m' = m\<lparr>m_CachedRequestSizes := cs\<rparr>)"

lemma recached_refl [simp, intro]: "recached m m"
  unfolding recached_def by (rule exI [of _ "m_CachedRequestSizes m"]) simp

lemma recached_trans [trans]: "recached m m' \<Longrightarrow> recached m' m'' \<Longrightarrow> recached m m''"
  by (auto simp: recached_def)

lemma recached_Ensure [simp]: "recached m (EnsureCachedRequestSize p m)"
  unfolding EnsureCachedRequestSize_def
  by (cases "length (m_CachedRequestSizes m) \<le> p") (auto simp: recached_def)

lemma recached_pages [simp]: "recached m (ensure_pages ns m)"
  unfolding ensure_pages_def
proof (induction ns arbitrary: m)
  case (Cons n ns)
  have "recached m (EnsureCachedRequestSize n m)" by simp
  also note Cons.IH [of "EnsureCachedRequestSize n m"]
  finally show ?case by simp
qed simp

lemma recached_visible [simp]: "recached m (snd (GetPageBordersForVisiblePages e m))"
  by (simp add: GetPageBordersForVisiblePages_def Let_def split: option.split)

lemma recached_presentation [simp]: "recached m (snd (GetPresentationPageBorders e m))"
  by (simp add: GetPresentationPageBorders_def Let_def split: option.split)

text \<open>The raw pointer \<open>m_LastEventSource\<close> is null or points to a live object.\<close>

definition source_ok :: "env \<Rightarrow> 'm manager \<Rightarrow> bool" where
  "source_ok e m \<longleftrightarrow> (case m_LastEventSource m of None \<Rightarrow> True | Some w \<Rightarrow> e_alive e w)"

lemma source_ok_iff: "source_ok e m \<longleftrightarrow> (\<exists>p. source_is_presentation e m = Some p)"
  by (cases "m_LastEventSource m") (auto simp: source_ok_def source_is_presentation_def)

lemma source_presentation_recached:
  "recached m m' \<Longrightarrow> source_is_presentation e m' = source_is_presentation e m"
  by (auto simp: recached_def source_is_presentation_def)

lemma source_ok_recached: "recached m m' \<Longrightarrow> source_ok e m' = source_ok e m"
  by (auto simp: recached_def source_ok_def)

lemma GetActivePageBorders_total:
  assumes "source_ok e m"
  shows "\<exists>bs m'. GetActivePageBorders e m = Some (bs, m') \<and> recached m m'"
proof -
  obtain p where p: "source_is_presentation e m = Some p" using assms source_ok_iff by blast
  define r where "r = (if p then GetPresentationPageBorders e m else GetPageBordersForVisiblePages e m)"
  have "GetActivePageBorders e m = Some (fst r, snd r)" "recached m (snd r)"
    using p by (simp_all add: GetActivePageBorders_def r_def)
  then show ?thesis by blast
qed

lemma GetPageMouseIsOver_total:
  assumes "source_ok e m"
  shows "\<exists>over m'. GetPageMouseIsOver e m = Some (over, m') \<and> recached m m'"
proof -
  obtain bs m' where b: "GetActivePageBorders e m = Some (bs, m')" "recached m m'"
    using GetActivePageBorders_total [OF assms] by blast
  obtain p where "source_is_presentation e m = Some p" using assms source_ok_iff by blast
  then show ?thesis
    using b by (auto simp: GetPageMouseIsOver_def GetActiveViewportSize_def Let_def)
qed

lemma GetNormalizedPosition_total:
  assumes "source_ok e m"
  shows "\<exists>np m'. GetNormalizedPositionRelativeToPage e m pos page = Some (np, m') \<and> recached m m'"
proof -
  obtain bs m' where b: "GetActivePageBorders e m = Some (bs, m')" "recached m m'"
    using GetActivePageBorders_total [OF assms] by blast
  obtain p where p: "source_is_presentation e m = Some p" using assms source_ok_iff by blast
  have r: "recached m (EnsureCachedRequestSize page m')"
    using b(2) recached_Ensure recached_trans by blast
  show ?thesis
    using b r unfolding GetNormalizedPositionRelativeToPage_def b p Let_def by auto
qed

lemma GetActiveViewportSize_total: "source_ok e m \<Longrightarrow> \<exists>v. GetActiveViewportSize e m = Some v"
  using source_ok_iff [of e m] by (auto simp: GetActiveViewportSize_def)

lemma hit_fails_on_dangling_source:
  assumes "\<not> source_ok e m"
  shows "GetPageMouseIsOver e m = None"
proof -
  have "source_is_presentation e m = None" using assms source_ok_iff by (metis not_Some_eq)
  then show ?thesis by (simp add: GetPageMouseIsOver_def GetActivePageBorders_def)
qed

text \<open>A refresh changes the suppression flag at most (and, throttled, the time stamp).\<close>

lemma refreshPixmap_total:
  assumes "source_ok e m"
  shows "\<exists>s fx. refreshPixmap e page m = Some (m\<lparr>m_SuppressPageViewRender := s\<rparr>, fx)"
proof (cases "page \<ge> length (m_Pages m) \<or> m_Pages m ! page = None")
  case True
  then show ?thesis
    by (intro exI [of _ "m_SuppressPageViewRender m"] exI [of _ "[]"]) (auto simp: refreshPixmap_def)
next
  case False
  obtain p where p: "interactingWithPresentation e m = Some p"
    using assms source_ok_iff [of e m] unfolding interactingWithPresentation_def
    by (cases "live e (m_PresentationWidget m) = None") auto
  have "refreshPixmap e page m = Some (m\<lparr>m_SuppressPageViewRender :=
      (if presentation_only e p page m then True else m_SuppressPageViewRender m)\<rparr>,
      refresh_effects e p page m)"
    using False p by (auto simp: refreshPixmap_def)
  then show ?thesis by blast
qed

lemma requestPixmapRefresh_total:
  assumes "source_ok e m"
  shows "\<exists>s t fx. requestPixmapRefresh e page m =
    Some (m\<lparr>m_SuppressPageViewRender := s, m_LastPixmapRefreshTime := t\<rparr>, fx)"
proof (cases "e_now e - m_LastPixmapRefreshTime m > minTimeBetweenRefreshes")
  case True
  obtain s fx where "refreshPixmap e page m = Some (m\<lparr>m_SuppressPageViewRender := s\<rparr>, fx)"
    using refreshPixmap_total [OF assms] by blast
  then show ?thesis
    using True by (intro exI [of _ s] exI [of _ "e_now2 e"]) (auto simp: requestPixmapRefresh_def)
next
  case False
  then show ?thesis
    by (intro exI [of _ "m_SuppressPageViewRender m"] exI [of _ "m_LastPixmapRefreshTime m"])
       (auto simp: requestPixmapRefresh_def)
qed

section \<open>The invariant\<close>

definition zoom_ok :: "'m V3dModel \<Rightarrow> bool" where
  "zoom_ok x \<longleftrightarrow> Zoom x \<noteq> 0 \<and> Zoom0 x \<noteq> 0"

definition proper_bounds :: "'m V3dModel \<Rightarrow> bool" where
  "proper_bounds x \<longleftrightarrow> v2x (mMinBound x) < v2x (mMaxBound x) \<and> v2y (mMinBound x) < v2y (mMaxBound x)"

text \<open>The shape of the image cache follows the models; a drag is in progress exactly when there is
  an active model, which exists, on the recorded page, and covers an area of that page.\<close>

definition view_inv ::
  "'m V3dModel list list \<Rightarrow> qimage list list \<Rightarrow> bool \<Rightarrow> (nat \<times> nat) option \<Rightarrow> int \<Rightarrow> bool" where
  "view_inv models images dragging active page \<longleftrightarrow>
     map length images = map length models \<and>
     (\<forall>xs \<in> set models. \<forall>x \<in> set xs. zoom_ok x) \<and>
     (dragging \<longleftrightarrow> active \<noteq> None) \<and>
     (case active of
        None \<Rightarrow> page = - 1
      | Some (p, i) \<Rightarrow> page = int p \<and> p < length models \<and> i < length (models ! p) \<and>
          proper_bounds (models ! p ! i))"

definition manager_inv :: "'m manager \<Rightarrow> bool" where
  "manager_inv m \<longleftrightarrow> view_inv (m_Models m) (m_ModelImages m) (m_Dragging m) (m_ActiveModel m)
     (m_ActiveModelPage m)"

lemma manager_inv_unrelated [simp]:
  "manager_inv (m\<lparr>m_CachedRequestSizes := cs\<rparr>) = manager_inv m"
  "manager_inv (m\<lparr>m_SuppressPageViewRender := s\<rparr>) = manager_inv m"
  "manager_inv (m\<lparr>m_LastPixmapRefreshTime := t\<rparr>) = manager_inv m"
  "manager_inv (m\<lparr>m_MousePosition := pos\<rparr>) = manager_inv m"
  "manager_inv (m\<lparr>m_LastMousePosition := pos\<rparr>) = manager_inv m"
  "manager_inv (m\<lparr>m_LastEventSource := src\<rparr>) = manager_inv m"
  "manager_inv (m\<lparr>m_PresentationWidget := w\<rparr>) = manager_inv m"
  "manager_inv (m\<lparr>m_PresentationEventFilter := b\<rparr>) = manager_inv m"
  "manager_inv (m\<lparr>m_PresentationEventFilterOn := w\<rparr>) = manager_inv m"
  "manager_inv (m\<lparr>m_PendingRebindPosted := b\<rparr>) = manager_inv m"
  "manager_inv (m\<lparr>m_EventFilter := b\<rparr>) = manager_inv m"
  "manager_inv (m\<lparr>m_EventFilterOn := w\<rparr>) = manager_inv m"
  "manager_inv (m\<lparr>m_PageView := w\<rparr>) = manager_inv m"
  "manager_inv (m\<lparr>m_PageViewObserver := ob\<rparr>) = manager_inv m"
  "manager_inv (m\<lparr>m_LastSeenPageViewObserver := ob\<rparr>) = manager_inv m"
  "manager_inv (m\<lparr>m_PresentationRequestSizes := ps\<rparr>) = manager_inv m"
  "manager_inv (m\<lparr>m_Pages := pg\<rparr>) = manager_inv m"
  "manager_inv (m\<lparr>m_HeadlessRenderer := b\<rparr>) = manager_inv m"
  "manager_inv (m\<lparr>m_HeadlessRendererMissing := b\<rparr>) = manager_inv m"
  "manager_inv (m\<lparr>m_Document := b\<rparr>) = manager_inv m"
  by (simp_all add: manager_inv_def)

lemma manager_inv_recached: "recached m m' \<Longrightarrow> manager_inv m' = manager_inv m"
  by (auto simp: recached_def)

lemma manager_inv_new [simp]: "manager_inv (V3dModelManager_new e d)"
  by (simp add: manager_inv_def view_inv_def V3dModelManager_new_def Let_def)

lemma manager_inv_Clear [simp]: "manager_inv (Clear m)"
  by (simp add: manager_inv_def view_inv_def Clear_def)

lemma manager_inv_SetDocument [simp]: "manager_inv (SetDocument d m)"
  by (simp add: SetDocument_def)

section \<open>Handlers preserve the invariant and do not fault\<close>

lemma set_model_inv:
  assumes "manager_inv m" and "model_at m p i = Some x" and "zoom_ok y"
    and "mMinBound y = mMinBound x" and "mMaxBound y = mMaxBound x"
  shows "manager_inv (set_model p i y m)"
proof -
  have r: "p < length (m_Models m)" "i < length (m_Models m ! p)" "x = m_Models m ! p ! i"
    using assms(2) by (simp_all add: model_at_def split: if_splits)
  let ?ms = "(m_Models m)[p := (m_Models m ! p)[i := y]]"
  have "map length ?ms = map length (m_Models m)"
    using r by (simp add: map_update list_update_same_conv)
  moreover have "zoom_ok z" if "xs \<in> set ?ms" "z \<in> set xs" for xs z
  proof -
    have "xs \<in> set (m_Models m) \<or> xs = (m_Models m ! p)[i := y]"
      using that(1) set_update_subset_insert by fastforce
    then have "(xs \<in> set (m_Models m) \<and> z \<in> set xs) \<or> z \<in> set (m_Models m ! p) \<or> z = y"
      using that(2) set_update_subset_insert by fastforce
    then show ?thesis
      using assms(1,3) r nth_mem unfolding manager_inv_def view_inv_def by blast
  qed
  moreover have "proper_bounds (?ms ! q ! j) = proper_bounds (m_Models m ! q ! j)" for q j
    using r assms(4,5)
    by (cases "q = p"; cases "j = i") (simp_all add: proper_bounds_def)
  moreover have "length (?ms ! q) = length (m_Models m ! q)" for q
    using r by (cases "q = p") simp_all
  ultimately show ?thesis
    using assms(1) unfolding manager_inv_def view_inv_def set_model_def
    by (simp split: option.splits prod.splits)
qed

lemma drag_keeps [simp]:
  "mMinBound (apply_drag G k pos prev view x) = mMinBound x"
  "mMaxBound (apply_drag G k pos prev view x) = mMaxBound x"
  by (simp_all add: apply_drag_def dragModeShift_def dragModeZoom_def dragModePan_def
      dragModeRotate_def Let_def split: option.split)

lemma minZoom_pos: "minZoom > 0"
  using maxZoom_pos by (simp add: minZoom_def)

lemma dragModeZoom_zoom_ok:
  assumes "zoom_ok x"
  shows "zoom_ok (dragModeZoom pos prev view x)"
proof -
  have "(if z \<le> minZoom then minZoom else if z \<ge> maxZoom then maxZoom else z) \<noteq> 0" for z
    using minZoom_pos maxZoom_pos by auto
  then show ?thesis using assms by (auto simp: zoom_ok_def dragModeZoom_def Let_def)
qed

lemma drag_zoom_ok:
  assumes "zoom_ok x"
  shows "zoom_ok (apply_drag G k pos prev view x)"
proof -
  have "zoom_ok (dragModeShift pos prev x)" "zoom_ok (dragModePan pos prev x)"
    "zoom_ok (dragModeRotate G pos prev x)"
    using assms
    by (simp_all add: zoom_ok_def dragModeShift_def dragModePan_def dragModeRotate_def Let_def
        split: option.split)
  then show ?thesis
    using dragModeZoom_zoom_ok [OF assms] by (simp add: apply_drag_def)
qed

lemma key_keeps [simp]:
  "mMinBound (key_action G k x) = mMinBound x" "mMaxBound (key_action G k x) = mMaxBound x"
  by (simp_all add: key_action_def home_def cycleMode_def split: key.split)

lemma key_zoom_ok: "zoom_ok x \<Longrightarrow> zoom_ok (key_action G k x)"
  by (simp add: zoom_ok_def key_action_def home_def cycleMode_def split: key.split)

lemma setProjection_keeps [simp]:
  "mMinBound (setProjection G c x) = mMinBound x" "mMaxBound (setProjection G c x) = mMaxBound x"
  "Zoom (setProjection G c x) = Zoom x" "Zoom0 (setProjection G c x) = Zoom0 x"
  by (simp_all add: setProjection_def updateViewMatrix_def setDimensions_def Let_def)

lemma wheel_zoom_range:
  assumes "wheel_zoom d zf z = Some z'"
  shows "minZoom \<le> z' \<and> z' \<le> maxZoom"
  using assms minZoom_less
  by (auto simp: wheel_zoom_def clamp_zoom_def split: if_splits)

lemma wheel_zoom_total: "z \<noteq> 0 \<Longrightarrow> \<exists>z'. wheel_zoom d zf z = Some z'"
  by (auto simp: wheel_zoom_def)

lemma model_at_zoom_ok: "manager_inv m \<Longrightarrow> model_at m p i = Some x \<Longrightarrow> zoom_ok x"
  unfolding manager_inv_def view_inv_def model_at_def by (metis nth_mem option.distinct(1) option.inject)

lemma hit_model_Some:
  assumes "hit_model np xs = Some i"
  shows "i < length xs" and "on_model np (xs ! i)" and "proper_bounds (xs ! i)"
  using assms unfolding hit_model_def find_Some_iff
  by (auto simp: on_model_def proper_bounds_def)

lemma recached_frame:
  assumes "recached m m'"
  shows "m_Models m' = m_Models m" "m_ActiveModel m' = m_ActiveModel m"
    "m_ActiveModelPage m' = m_ActiveModelPage m" "model_at m' = model_at m"
    "m_MousePosition m' = m_MousePosition m" "m_LastMousePosition m' = m_LastMousePosition m"
    "m_Dragging m' = m_Dragging m"
  using assms by (auto simp: recached_def model_at_def fun_eq_iff)

lemmas recached_facts = manager_inv_recached source_ok_recached recached_frame

lemma source_ok_set_model [simp]:
  "source_ok e (set_model p i y m) = source_ok e m"
  "source_ok e (m\<lparr>m_MousePosition := pos\<rparr>) = source_ok e m"
  by (simp_all add: source_ok_def set_model_def)

text \<open>A handler ran without a fault and left the invariant intact.\<close>

definition inv_ok :: "'m handled \<Rightarrow> bool" where
  "inv_ok r \<longleftrightarrow> (case r of None \<Rightarrow> False | Some (m, fx, b) \<Rightarrow> manager_inv m)"

lemma inv_ok_simps [simp]: "inv_ok (Some (m, fx, b)) = manager_inv m" "\<not> inv_ok None"
  by (simp_all add: inv_ok_def)

lemma source_ok_refreshed [simp]:
  "source_ok e (m\<lparr>m_LastMousePosition := pos\<rparr>) = source_ok e m"
  "source_ok e (m\<lparr>m_SuppressPageViewRender := b\<rparr>) = source_ok e m"
  "source_ok e (m\<lparr>m_LastPixmapRefreshTime := t\<rparr>) = source_ok e m"
  by (simp_all add: source_ok_def)

lemma move_active_ok:
  assumes "manager_inv m" and "source_ok e m" and "m_Dragging m"
  shows "\<exists>m'. move_active G e k m = Some m' \<and> manager_inv m' \<and> source_ok e m'"
proof -
  obtain np m1 where 1: "GetNormalizedPositionRelativeToPage e m (m_MousePosition m)
      (size_t (m_ActiveModelPage m)) = Some (np, m1)" "recached m m1"
    using GetNormalizedPosition_total [OF assms(2)] by blast
  then have s1: "source_ok e m1" using assms source_ok_recached by blast
  obtain lp m2 where 2: "GetNormalizedPositionRelativeToPage e m1 (m_LastMousePosition m1)
      (size_t (m_ActiveModelPage m1)) = Some (lp, m2)" "recached m1 m2"
    using GetNormalizedPosition_total [OF s1] by blast
  have r: "recached m m2" using 1 2 recached_trans by blast
  obtain p i where a: "m_ActiveModel m = Some (p, i)"
    using assms by (auto simp: manager_inv_def view_inv_def)
  obtain x where x: "model_at m p i = Some x"
    using assms a by (simp add: manager_inv_def view_inv_def model_at_def)
  obtain view where v: "GetActiveViewportSize e m2 = Some view"
    using GetActiveViewportSize_total s1 2 source_ok_recached by metis
  let ?m3 = "if controlKey k \<and> \<not> shiftKey k \<and> \<not> altKey k
    then EnsureCachedRequestSize (size_t (m_ActiveModelPage m2)) m2 else m2"
  have "recached m2 ?m3" by simp
  with r have r3: "recached m ?m3" by (rule recached_trans)
  then have x3: "model_at ?m3 p i = Some x" and i3: "manager_inv ?m3" and s3: "source_ok e ?m3"
    using x assms recached_facts by metis+
  have "manager_inv (set_model p i (apply_drag G k (position_on_model x np)
      (position_on_model x lp) view x) ?m3)"
    by (rule set_model_inv [OF i3 x3])
       (simp_all add: drag_zoom_ok model_at_zoom_ok [OF assms(1) x])
  then show ?thesis
    using 1 2 a x v s3 recached_frame [OF r] by (simp add: move_active_def Let_def)
qed

lemma mouseMoveEvent_ok:
  assumes "manager_inv m" and "source_ok e m"
  shows "inv_ok (mouseMoveEvent G e pos k m)"
proof (cases "plain_document e m \<or> \<not> m_Dragging m")
  case True
  then show ?thesis using assms by (auto simp: mouseMoveEvent_def Let_def)
next
  case False
  then obtain m1 where 1: "move_active G e k (m\<lparr>m_MousePosition := pos\<rparr>) = Some m1"
      "manager_inv m1" "source_ok e m1"
    using move_active_ok [of "m\<lparr>m_MousePosition := pos\<rparr>" e G k] assms by auto
  obtain s t fx where 2: "requestPixmapRefresh e (size_t (m_ActiveModelPage m1)) m1 =
      Some (m1\<lparr>m_SuppressPageViewRender := s, m_LastPixmapRefreshTime := t\<rparr>, fx)"
    using requestPixmapRefresh_total [OF 1(3)] by blast
  show ?thesis using False 1 2 by (simp add: mouseMoveEvent_def Let_def)
qed

text \<open>The hit test shared by the press and key handlers.\<close>

lemma hit_test_ok:
  assumes "source_ok e m"
  obtains over m1 where "GetPageMouseIsOver e m = Some (over, m1)" and "recached m m1"
    and "\<And>page. \<exists>np m2. GetNormalizedPositionRelativeToPage e m1 (m_MousePosition m1) page =
      Some (np, m2) \<and> recached m m2"
proof -
  obtain over m1 where 1: "GetPageMouseIsOver e m = Some (over, m1)" "recached m m1"
    using GetPageMouseIsOver_total [OF assms] by blast
  then have "source_ok e m1" using assms source_ok_recached by blast
  from GetNormalizedPosition_total [OF this] 1 that show ?thesis
    by (meson recached_trans)
qed

lemma start_drag_inv:
  assumes "manager_inv m" and "p < length (m_Models m)" and "i < length (m_Models m ! p)"
    and "proper_bounds (m_Models m ! p ! i)"
  shows "manager_inv (m\<lparr>m_Dragging := True, m_LastMousePosition := pos,
    m_ActiveModel := Some (p, i), m_ActiveModelPage := int p\<rparr>)"
  using assms by (simp add: manager_inv_def view_inv_def)

lemma mouseButtonPressEvent_ok:
  assumes "manager_inv m" and "source_ok e m"
  shows "inv_ok (mouseButtonPressEvent e pos l m)"
proof (cases "plain_document e m \<or> \<not> l")
  case True
  then show ?thesis using assms by (auto simp: mouseButtonPressEvent_def Let_def)
next
  case False
  let ?m = "m\<lparr>m_MousePosition := pos\<rparr>"
  have inv: "manager_inv ?m" using assms by simp
  obtain over m1 where 1: "GetPageMouseIsOver e ?m = Some (over, m1)" "recached ?m m1"
    and n: "\<And>page. \<exists>np m2. GetNormalizedPositionRelativeToPage e m1 (m_MousePosition m1) page =
      Some (np, m2) \<and> recached ?m m2"
    using hit_test_ok [of e ?m] assms(2) source_ok_set_model(2) by metis
  have inv1: "manager_inv m1" using inv 1 manager_inv_recached by blast
  show ?thesis
  proof (cases over)
    case None
    then show ?thesis using False 1 inv1 by (simp add: mouseButtonPressEvent_def Let_def)
  next
    case (Some page)
    obtain np m2 where 2: "GetNormalizedPositionRelativeToPage e m1 (m_MousePosition m1) page =
        Some (np, m2)" "recached ?m m2" using n by blast
    have inv2: "manager_inv m2" using inv 2 manager_inv_recached by blast
    have len: "length (m_Models m2) = length (m_Models m1)"
      using recached_frame(1) [OF 1(2)] recached_frame(1) [OF 2(2)] by simp
    show ?thesis
      using False 1 2 inv1 inv2 Some len hit_model_Some [of np "m_Models m2 ! page"]
      by (cases "page < length (m_Models m1)"; cases "hit_model np (m_Models m2 ! page)")
         (simp_all add: mouseButtonPressEvent_def Let_def start_drag_inv)
  qed
qed

lemma mouseButtonReleaseEvent_ok:
  assumes "manager_inv m"
  shows "inv_ok (mouseButtonReleaseEvent e l m)"
  using assms by (simp add: mouseButtonReleaseEvent_def manager_inv_def view_inv_def)

lemma wheel_target_exists:
  assumes "manager_inv m" and "wheel_target m = Some (p, i, page)"
  shows "\<exists>x. model_at m p i = Some x"
  using assms
  by (auto simp: manager_inv_def view_inv_def wheel_target_def model_at_def Let_def
      split: bool.splits option.splits if_splits)

lemma wheelEvent_ok:
  assumes "manager_inv m" and "source_ok e m"
  shows "inv_ok (wheelEvent G e d m)"
proof (cases "plain_document e m \<or> wheel_target m = None")
  case True
  then show ?thesis using assms by (auto simp: wheelEvent_def)
next
  case False
  then obtain p i page where t: "wheel_target m = Some (p, i, page)" by auto
  obtain np m1 where 1: "GetNormalizedPositionRelativeToPage e m (m_MousePosition m) (size_t page) =
      Some (np, m1)" "recached m m1"
    using GetNormalizedPosition_total [OF assms(2)] by blast
  obtain x where x: "model_at m p i = Some x" using wheel_target_exists [OF assms(1) t] by blast
  have x1: "model_at m1 p i = Some x" and inv1: "manager_inv m1"
    using x assms recached_facts [OF 1(2)] by simp_all
  have zx: "zoom_ok x" by (rule model_at_zoom_ok [OF assms(1) x])
  define dy where "dy = (if v2y d = 0 then v2x d else v2y d)"
  obtain z where z: "wheel_zoom dy (sZoomFactor (mFile x)) (Zoom x) = Some z"
    using zx wheel_zoom_total unfolding zoom_ok_def by metis
  define m2 where "m2 = EnsureCachedRequestSize (size_t page) m1"
  have r2: "recached m m2" unfolding m2_def using 1(2) recached_Ensure by (rule recached_trans)
  have x2: "model_at m2 p i = Some x" and inv2: "manager_inv m2" and s2: "source_ok e m2"
    using x assms recached_facts [OF r2] by simp_all
  define y where "y = setProjection G (V2 ((v2x (mMaxBound x) - v2x (mMinBound x)) *
      v2x (page_size e m2 (size_t page))) ((v2y (mMaxBound x) - v2y (mMinBound x)) *
      v2y (page_size e m2 (size_t page)))) (x\<lparr>Zoom := z\<rparr>)"
  have "z > 0" using wheel_zoom_range [OF z] minZoom_pos by simp
  then have inv3: "manager_inv (set_model p i y m2)"
    using zx by (intro set_model_inv [OF inv2 x2]) (simp_all add: y_def zoom_ok_def)
  obtain s t' fx where "requestPixmapRefresh e (size_t page) (set_model p i y m2) =
      Some ((set_model p i y m2)\<lparr>m_SuppressPageViewRender := s, m_LastPixmapRefreshTime := t'\<rparr>, fx)"
    using requestPixmapRefresh_total [of e "set_model p i y m2" "size_t page"] s2 by auto
  then show ?thesis
    using False t 1(1) x1 inv1 inv3 z
    by (simp add: wheelEvent_def Let_def dy_def m2_def y_def)
qed

lemma keyPressEvent_ok:
  assumes "manager_inv m" and "source_ok e m"
  shows "inv_ok (keyPressEvent G e k m)"
proof (cases "plain_document e m \<or> k = Key_Other")
  case True
  then show ?thesis using assms by (auto simp: keyPressEvent_def)
next
  case False
  obtain over m1 where 1: "GetPageMouseIsOver e m = Some (over, m1)" "recached m m1"
    and n: "\<And>page. \<exists>np m2. GetNormalizedPositionRelativeToPage e m1 (m_MousePosition m1) page =
      Some (np, m2) \<and> recached m m2"
    using hit_test_ok [OF assms(2)] by metis
  have inv1: "manager_inv m1" using assms 1 manager_inv_recached by blast
  show ?thesis
  proof (cases "over = None \<or> the over \<ge> length (m_Models m1)")
    case True
    then show ?thesis
      using False 1 inv1 by (auto simp: keyPressEvent_def split: option.split)
  next
    case page: False
    then obtain page where p: "over = Some page" "page < length (m_Models m1)" by auto
    obtain np m2 where 2: "GetNormalizedPositionRelativeToPage e m1 (m_MousePosition m1) page =
        Some (np, m2)" "recached m m2" using n by blast
    have inv2: "manager_inv m2" and s2: "source_ok e m2"
      using assms recached_facts [OF 2(2)] by simp_all
    have len: "page < length (m_Models m2)"
      using p recached_frame(1) [OF 1(2)] recached_frame(1) [OF 2(2)] by simp
    show ?thesis
    proof (cases "hit_model np (m_Models m2 ! page)")
      case None
      then show ?thesis using False 1 2 p inv2 by (simp add: keyPressEvent_def)
    next
      case (Some i)
      let ?x = "m_Models m2 ! page ! i"
      have x: "model_at m2 page i = Some ?x"
        using len hit_model_Some(1) [OF Some] by (simp add: model_at_def)
      have inv3: "manager_inv (set_model page i (key_action G k ?x) m2)"
        using model_at_zoom_ok [OF inv2 x]
        by (intro set_model_inv [OF inv2 x]) (simp_all add: key_zoom_ok)
      obtain s fx where "refreshPixmap e page (set_model page i (key_action G k ?x) m2) =
          Some ((set_model page i (key_action G k ?x) m2)\<lparr>m_SuppressPageViewRender := s\<rparr>, fx)"
        using refreshPixmap_total [of e "set_model page i (key_action G k ?x) m2" page] s2 by auto
      then show ?thesis using False 1 2 p Some inv3 by (simp add: keyPressEvent_def)
    qed
  qed
qed

lemma presentation_shown_inv [simp]: "manager_inv (presentation_shown e w m) = manager_inv m"
  by (simp add: presentation_shown_def Let_def)

lemma presentation_destroyed_ok:
  assumes "manager_inv m"
  shows "\<exists>m' fx. presentation_destroyed e m = Some (m', fx) \<and> manager_inv m'"
proof -
  let ?m = "m\<lparr>m_PresentationWidget := None, m_SuppressPageViewRender := False\<rparr>"
  have l: "live e (m_PresentationWidget ?m) = None" by (simp add: live_def)
  have "\<exists>m' fx. refreshPixmap e p ?m = Some (m', fx) \<and> manager_inv m'" for p
    using assms l by (auto simp: refreshPixmap_def interactingWithPresentation_def)
  then show ?thesis using assms by (simp add: presentation_destroyed_def Let_def)
qed

lemma rebindPageView_inv [simp]: "manager_inv (rebindPageView e m) = manager_inv m"
  by (simp add: rebindPageView_def Let_def split: option.split)

section \<open>The contract of the handlers\<close>

text \<open>What the event filters rely on: a handler ignores the event of a document without models or
  view, and never faults on a state that satisfies the invariant when the event source is alive.\<close>

fun run_handler ::
  "(env \<Rightarrow> 'a \<Rightarrow> 'm manager \<Rightarrow> 'm handled) \<Rightarrow> (env \<times> wid \<times> 'a) list \<Rightarrow> 'm manager \<Rightarrow>
   'm manager option" where
  "run_handler h [] m = Some m"
| "run_handler h ((e, w, a) # evs) m =
     Option.bind (h e a (noteEventSource w m)) (\<lambda>(m1, fx, b). run_handler h evs m1)"

lemma source_ok_noted [simp]: "source_ok e (noteEventSource w m) = e_alive e w"
  by (simp add: source_ok_def noteEventSource_def)

lemma manager_inv_noted [simp]: "manager_inv (noteEventSource w m) = manager_inv m"
  by (simp add: noteEventSource_def)

lemma plain_noted [simp]: "plain_document e (noteEventSource w m) = plain_document e m"
  by (simp add: noteEventSource_def plain_document_def)

locale handler =
  fixes h :: "env \<Rightarrow> 'a \<Rightarrow> 'm manager \<Rightarrow> 'm handled"
  assumes plain: "plain_document e m \<Longrightarrow> h e a m = Some (m, [], False)"
    and ok: "manager_inv m \<Longrightarrow> source_ok e m \<Longrightarrow> inv_ok (h e a m)"
begin

lemma delivered:
  assumes "manager_inv m" and "e_alive e w"
  shows "inv_ok (h e a (noteEventSource w m))"
  using assms by (simp add: ok)

lemma run_ok:
  assumes "manager_inv m" and "\<forall>(e, w, a) \<in> set evs. e_alive e w"
  shows "\<exists>m'. run_handler h evs m = Some m' \<and> manager_inv m'"
  using assms
proof (induction evs arbitrary: m)
  case Nil
  then show ?case by simp
next
  case (Cons ev evs)
  obtain e w a where ev: "ev = (e, w, a)" by (cases ev) auto
  have "inv_ok (h e a (noteEventSource w m))" using Cons.prems ev delivered by simp
  then obtain m1 fx b where "h e a (noteEventSource w m) = Some (m1, fx, b)" "manager_inv m1"
    by (auto simp: inv_ok_def split: option.splits)
  then show ?case using Cons ev by simp
qed

end

lemma handlers_plain:
  assumes "plain_document e m"
  shows "mouseMoveEvent G e pos k m = Some (m, [], False)"
    "mouseButtonPressEvent e pos l m = Some (m, [], False)"
    "mouseButtonReleaseEvent e l m = Some (m, [], False)"
    "wheelEvent G e d m = Some (m, [], False)"
    "keyPressEvent G e q m = Some (m, [], False)"
  using assms by (simp_all add: mouseMoveEvent_def mouseButtonPressEvent_def
      mouseButtonReleaseEvent_def wheelEvent_def keyPressEvent_def)

lemmas handlers_ok = mouseMoveEvent_ok mouseButtonPressEvent_ok mouseButtonReleaseEvent_ok
  wheelEvent_ok keyPressEvent_ok

interpretation move: handler "\<lambda>e (pos, k). mouseMoveEvent G e pos k" for G
  by unfold_locales (auto simp: handlers_plain handlers_ok)

interpretation press: handler "\<lambda>e (pos, l). mouseButtonPressEvent e pos l"
  by unfold_locales (auto simp: handlers_plain handlers_ok)

interpretation release: handler mouseButtonReleaseEvent
  by unfold_locales (auto simp: handlers_plain handlers_ok)

interpretation wheel: handler "wheelEvent G" for G
  by unfold_locales (auto simp: handlers_plain handlers_ok)

interpretation key: handler "keyPressEvent G" for G
  by unfold_locales (auto simp: handlers_plain handlers_ok)

lemma EventFilter_ok:
  assumes "manager_inv m" and "e_alive e w"
  shows "inv_ok (EventFilter_eventFilter G e w ev m)"
  using assms move.delivered [of m e w G "(pos, k)" for pos k]
    press.delivered [of m e w "(pos, l)" for pos l]
    release.delivered wheel.delivered
  by (cases ev) (auto simp: EventFilter_eventFilter_def)

lemma ApplicationEventFilter_ok:
  assumes "manager_inv m" and "source_ok e m"
  shows "inv_ok (ApplicationEventFilter_eventFilter G e w ev m)"
proof -
  obtain m' fx where "presentation_destroyed e m = Some (m', fx)" "manager_inv m'"
    using presentation_destroyed_ok [OF assms(1)] by blast
  then show ?thesis
    using assms key.ok
    by (cases ev) (auto simp: ApplicationEventFilter_eventFilter_def handlePresentationWidgetEvent_def)
qed

text \<open>An application-level event other than a key press needs no live event source.\<close>

lemma ApplicationEventFilter_no_key_ok:
  assumes "manager_inv m" and "\<And>k. ev \<noteq> KeyPress k"
  shows "inv_ok (ApplicationEventFilter_eventFilter G e w ev m)"
proof -
  obtain m' fx where "presentation_destroyed e m = Some (m', fx)" "manager_inv m'"
    using presentation_destroyed_ok [OF assms(1)] by blast
  then show ?thesis
    using assms
    by (cases ev) (auto simp: ApplicationEventFilter_eventFilter_def handlePresentationWidgetEvent_def)
qed

section \<open>Frames\<close>

lemma GetNormalizedPosition_recached:
  assumes "GetNormalizedPositionRelativeToPage e m pos page = Some (np, m')"
  shows "recached m m'"
proof (cases "source_ok e m")
  case True
  then show ?thesis using GetNormalizedPosition_total [of e m pos page] assms by auto
next
  case False
  then have "source_is_presentation e m = None" using source_ok_iff by (metis not_Some_eq)
  then show ?thesis
    using assms by (simp add: GetNormalizedPositionRelativeToPage_def GetActivePageBorders_def)
qed

lemma GetPageMouseIsOver_recached:
  assumes "GetPageMouseIsOver e m = Some (over, m')"
  shows "recached m m'"
  using assms GetPageMouseIsOver_total [of e m] hit_fails_on_dangling_source [of e m]
  by (cases "source_ok e m") auto

lemma refreshPixmap_frame:
  assumes "refreshPixmap e page m = Some (m', fx)"
  shows "\<exists>s. m' = m\<lparr>m_SuppressPageViewRender := s\<rparr> \<and> (m_SuppressPageViewRender m \<longrightarrow> s)"
proof -
  have "m' = m\<lparr>m_SuppressPageViewRender := m_SuppressPageViewRender m'\<rparr> \<and>
      (m_SuppressPageViewRender m \<longrightarrow> m_SuppressPageViewRender m')"
    using assms
    by (cases "interactingWithPresentation e m") (auto simp: refreshPixmap_def split: if_splits)
  then show ?thesis by blast
qed

lemma requestPixmapRefresh_frame:
  assumes "requestPixmapRefresh e page m = Some (m', fx)"
  shows "\<exists>s t. m' = m\<lparr>m_SuppressPageViewRender := s, m_LastPixmapRefreshTime := t\<rparr> \<and>
    (m_SuppressPageViewRender m \<longrightarrow> s)"
proof (cases "e_now e - m_LastPixmapRefreshTime m > minTimeBetweenRefreshes")
  case True
  then obtain m1 where "refreshPixmap e page m = Some (m1, fx)"
    "m' = m1\<lparr>m_LastPixmapRefreshTime := e_now2 e\<rparr>"
    using assms by (auto simp: requestPixmapRefresh_def)
  then show ?thesis using refreshPixmap_frame [of e page m m1 fx] by auto
next
  case False
  then have "m' = m\<lparr>m_SuppressPageViewRender := m_SuppressPageViewRender m,
      m_LastPixmapRefreshTime := m_LastPixmapRefreshTime m\<rparr>"
    using assms by (simp add: requestPixmapRefresh_def)
  then show ?thesis by blast
qed

text \<open>A drag step rewrites one model, the active one, and otherwise only caches.\<close>

lemma move_active_frame:
  assumes "move_active G e k m = Some m'"
  shows "\<exists>p i x np lp view m1. m_ActiveModel m = Some (p, i) \<and> model_at m p i = Some x \<and>
    recached m m1 \<and>
    m' = set_model p i (apply_drag G k (position_on_model x np) (position_on_model x lp) view x) m1"
proof -
  obtain np m1 lp m2 p i x view where r: "recached m m1" "recached m1 m2"
    and a: "m_ActiveModel m2 = Some (p, i)" "model_at m2 p i = Some x"
    and m': "m' = set_model p i (apply_drag G k (position_on_model x np) (position_on_model x lp) view x)
      (if controlKey k \<and> \<not> shiftKey k \<and> \<not> altKey k
       then EnsureCachedRequestSize (size_t (m_ActiveModelPage m2)) m2 else m2)"
    using assms unfolding move_active_def Let_def
    by (elim bind_pairE bind_SomeE, intro that)
       (erule GetNormalizedPosition_recached, erule GetNormalizedPosition_recached, assumption,
        assumption, drule option.inject [THEN iffD1], erule sym)
  let ?m3 = "if controlKey k \<and> \<not> shiftKey k \<and> \<not> altKey k
       then EnsureCachedRequestSize (size_t (m_ActiveModelPage m2)) m2 else m2"
  have r2: "recached m m2" using r by (rule recached_trans)
  have "recached m2 ?m3" by simp
  with r2 have "recached m ?m3" by (rule recached_trans)
  with r2 a m' show ?thesis
    using recached_frame [OF r2] by metis
qed

lemma model_at_cong: "m_Models m' = m_Models m \<Longrightarrow> model_at m' p i = model_at m p i"
  by (simp add: model_at_def)

lemma model_at_set_other:
  "(p, i) \<noteq> (q, j) \<Longrightarrow> model_at (set_model p i y m) q j = model_at m q j"
  by (cases "p = q"; cases "p < length (m_Models m)") (auto simp: model_at_def set_model_def)

lemma model_at_set_same:
  "model_at m p i = Some x \<Longrightarrow> model_at (set_model p i y m) p i = Some y"
  by (simp add: model_at_def set_model_def split: if_splits)

section \<open>A sample document\<close>

text \<open>A standalone file shown in PageView 1, with a presentation window 2 on the same screen.\<close>

definition sample_env :: env where
  "sample_env = \<lparr>e_alive = (\<lambda>w. w < 3), e_isWidget = (\<lambda>_. True), e_isPres = (\<lambda>w. w = 2),
     e_width = (\<lambda>_. 800), e_height = (\<lambda>_. 600), e_visible = (\<lambda>_. True), e_wdpr = (\<lambda>_. 1),
     e_active = None, e_appDpr = 1, e_window = id, e_screen = (\<lambda>_. Some 0),
     e_visibleRects = [(0, \<lparr>left = 0, right = 1, top = 0, bottom = 1\<rparr>)], e_viewportPage = 0,
     e_now = 100, e_now2 = 101, e_closing = False, e_docUrl = ''d'',
     e_toplevels = [([''d''], [1])], e_allPageViews = [1], e_activePageViews = [1]\<rparr>"

definition sample_manager :: "unit manager" where
  "sample_manager = (V3dModelManager_new sample_env True)\<lparr>m_Models := [[sample_model, sample_model]],
     m_ModelImages := [[QImage_null, QImage_null]],
     m_CachedRequestSizes := [\<lparr>rc_size = V2 600 400, rc_priority = 1, rc_time = 1\<rparr>],
     m_Pages := [Some 0], m_PageViewObserver := Some 0, m_MousePosition := V2 400 300\<rparr>"

definition sample_dragging :: "unit manager" where
  "sample_dragging = sample_manager\<lparr>m_Dragging := True, m_ActiveModel := Some (0, 0),
     m_ActiveModelPage := 0, m_LastEventSource := Some 1\<rparr>"

definition sample_presentation :: "unit manager" where
  "sample_presentation = sample_manager\<lparr>m_PresentationWidget := Some 2,
     m_LastEventSource := Some 2, m_PresentationRequestSizes := [V2 600 400]\<rparr>"

lemma sample_env_simps [simp]:
  "e_alive sample_env w = (w < 3)" "e_isWidget sample_env w" "e_isPres sample_env w = (w = 2)"
  "e_width sample_env w = 800" "e_height sample_env w = 600" "e_visible sample_env w"
  "e_wdpr sample_env w = 1" "e_active sample_env = None" "e_appDpr sample_env = 1"
  "e_window sample_env w = w" "e_screen sample_env w = Some 0"
  "e_visibleRects sample_env = [(0, \<lparr>left = 0, right = 1, top = 0, bottom = 1\<rparr>)]"
  "e_viewportPage sample_env = 0" "e_now sample_env = 100" "e_now2 sample_env = 101"
  "\<not> e_closing sample_env"
  by (simp_all add: sample_env_def)

lemma sample_pageView [simp]: "resolvePageView sample_env True = Some 1"
  by (simp add: resolvePageView_def resolvePageViewForDocument_def sample_env_def)

lemma sample_model_facts [simp]: "Zoom sample_model = 1" "Zoom0 sample_model = 1"
  "mMinBound sample_model = V2 0 0" "mMaxBound sample_model = V2 1 1"
  by (simp_all add: sample_model_def V3dModel_new_def initProjection_def sample_info_def Let_def)

lemma sample_fields [simp]:
  "m_Models sample_manager = [[sample_model, sample_model]]"
  "m_ModelImages sample_manager = [[QImage_null, QImage_null]]"
  "m_Dragging sample_manager = False" "m_ActiveModel sample_manager = None"
  "m_ActiveModelPage sample_manager = - 1" "m_PageView sample_manager = Some 1"
  "m_Document sample_manager" "m_Pages sample_manager = [Some 0]"
  "m_MousePosition sample_manager = V2 400 300"
  by (simp_all add: sample_manager_def V3dModelManager_new_def Let_def)

lemma sample_inv [simp]: "manager_inv sample_manager" "manager_inv sample_dragging"
    "manager_inv sample_presentation"
  by (simp_all add: sample_dragging_def sample_presentation_def manager_inv_def view_inv_def
      zoom_ok_def proper_bounds_def)

lemma sample_plain [simp]: "\<not> plain_document sample_env sample_manager"
    "\<not> plain_document sample_env sample_dragging" "\<not> plain_document sample_env sample_presentation"
  by (simp_all add: sample_dragging_def sample_presentation_def plain_document_def live_def)

lemma source_ok_sample: "source_ok sample_env sample_dragging"
  by (simp add: source_ok_def sample_dragging_def)

section \<open>Properties\<close>

text \<open>C15: a mouse move changes at most the model being dragged: every other model, all cached
  images, the drag state and the document stay as they are.\<close>

theorem mouseMoveEvent_isolated:
  assumes "mouseMoveEvent G e pos k m = Some (m', fx, b)"
  shows "(\<forall>p i. m_ActiveModel m \<noteq> Some (p, i) \<longrightarrow> model_at m' p i = model_at m p i) \<and>
    m_ModelImages m' = m_ModelImages m \<and> m_Dragging m' = m_Dragging m \<and>
    m_ActiveModel m' = m_ActiveModel m \<and> m_Document m' = m_Document m"
proof (cases "plain_document e m \<or> \<not> m_Dragging m")
  case True
  then show ?thesis
    using assms by (auto simp: mouseMoveEvent_def Let_def model_at_def split: if_splits)
next
  case False
  let ?m = "m\<lparr>m_MousePosition := pos\<rparr>"
  obtain m1 m2 where 1: "move_active G e k ?m = Some m1"
    and 2: "requestPixmapRefresh e (size_t (m_ActiveModelPage m1)) m1 = Some (m2, fx)"
    and m': "m' = m2\<lparr>m_LastMousePosition := m_MousePosition m2\<rparr>"
    using assms False by (auto simp: mouseMoveEvent_def Let_def elim!: bind_pairE bind_SomeE)
  obtain p i y m3 where "m_ActiveModel ?m = Some (p, i)" "recached ?m m3" "m1 = set_model p i y m3"
    using move_active_frame [OF 1] by blast
  moreover from this(2) obtain cs where "m3 = ?m\<lparr>m_CachedRequestSizes := cs\<rparr>"
    by (auto simp: recached_def)
  moreover obtain s t where "m2 = m1\<lparr>m_SuppressPageViewRender := s, m_LastPixmapRefreshTime := t\<rparr>"
    using requestPixmapRefresh_frame [OF 2] by blast
  ultimately have eqs: "m_Models m' = m_Models (set_model p i y m)" "m_ActiveModel m = Some (p, i)"
    "m_ModelImages m' = m_ModelImages m" "m_Dragging m' = m_Dragging m"
    "m_ActiveModel m' = m_ActiveModel m" "m_Document m' = m_Document m"
    using m' by (simp_all add: set_model_def)
  have "model_at m' q j = model_at m q j" if "m_ActiveModel m \<noteq> Some (q, j)" for q j
    using that eqs(2) model_at_cong [OF eqs(1)] model_at_set_other [of p i q j y m] by simp
  with eqs show ?thesis by simp
qed

theorem mouseMoveEvent_isolated_witness:
  "\<exists>m' fx b. mouseMoveEvent unit_glm sample_env (V2 410 310)
      \<lparr>controlKey = True, shiftKey = False, altKey = False\<rparr> sample_dragging = Some (m', fx, b) \<and>
     model_at m' 0 1 = model_at sample_dragging 0 1"
proof -
  let ?k = "\<lparr>controlKey = True, shiftKey = False, altKey = False\<rparr>"
  have "inv_ok (mouseMoveEvent unit_glm sample_env (V2 410 310) ?k sample_dragging)"
    by (rule mouseMoveEvent_ok) (simp_all add: source_ok_sample)
  then obtain m' fx b where
    r: "mouseMoveEvent unit_glm sample_env (V2 410 310) ?k sample_dragging = Some (m', fx, b)"
    by (auto simp: inv_ok_def split: option.splits)
  have "m_ActiveModel sample_dragging \<noteq> Some (0, 1)" by (simp add: sample_dragging_def)
  with mouseMoveEvent_isolated [OF r] r show ?thesis by blast
qed

text \<open>C17: while the user drags in the presentation window on the screen of the PageView, a refresh
  reaches the presentation window only: the pixmap of the PageView is not deleted, no key release
  is sent to it, and its rendering is marked as suppressed.\<close>

theorem refreshPixmap_presentation_only:
  assumes "m_PresentationWidget m = Some w" and "e_alive e w"
    and "m_LastEventSource m = Some w" and "e_isPres e w"
    and "m_PageView m = Some pv" and "e_alive e pv"
    and "e_screen e (e_window e pv) = Some s" and "e_screen e w = Some s"
    and "page < length (m_Pages m)" and "m_Pages m ! page \<noteq> None"
    and "m_Document m" and "e_viewportPage e = int page"
  shows "refreshPixmap e page m =
    Some (m\<lparr>m_SuppressPageViewRender := True\<rparr>, [PresentationResize w])"
proof -
  have d: "\<not> dualScreen e m" using assms by (simp add: dualScreen_def live_def)
  then have "\<not> refreshPageView e True m" "refreshPresentation e True page m"
    using assms by (simp_all add: refreshPageView_def refreshPresentation_def live_def)
  moreover have "interactingWithPresentation e m = Some True"
    using assms by (simp add: interactingWithPresentation_def source_is_presentation_def live_def)
  ultimately show ?thesis
    using assms d
    by (auto simp: refreshPixmap_def presentation_only_def refresh_effects_def live_def)
qed

theorem refreshPixmap_presentation_only_witness:
  "refreshPixmap sample_env 0 sample_presentation =
    Some (sample_presentation\<lparr>m_SuppressPageViewRender := True\<rparr>, [PresentationResize 2])"
  by (rule refreshPixmap_presentation_only [where pv = 1 and s = 0])
     (simp_all add: sample_presentation_def)

lemma press_keeps_suppress:
  assumes "mouseButtonPressEvent e pos l m = Some (m', fx, b)"
  shows "m_SuppressPageViewRender m' = m_SuppressPageViewRender m"
proof -
  have r: "recached u v \<Longrightarrow> m_SuppressPageViewRender v = m_SuppressPageViewRender u" for u v :: "'m manager"
    by (auto simp: recached_def)
  show ?thesis
    using assms
    by (auto simp: mouseButtonPressEvent_def Let_def
        dest!: GetPageMouseIsOver_recached [THEN r] GetNormalizedPosition_recached [THEN r]
        elim!: bind_pairE split: if_splits option.splits)
qed

lemma move_keeps_suppress:
  assumes "mouseMoveEvent G e pos k m = Some (m', fx, b)" and "m_SuppressPageViewRender m"
  shows "m_SuppressPageViewRender m'"
proof (cases "plain_document e m \<or> \<not> m_Dragging m")
  case True
  then show ?thesis using assms by (auto simp: mouseMoveEvent_def Let_def split: if_splits)
next
  case False
  let ?m = "m\<lparr>m_MousePosition := pos\<rparr>"
  obtain m1 m2 where 1: "move_active G e k ?m = Some m1"
    and 2: "requestPixmapRefresh e (size_t (m_ActiveModelPage m1)) m1 = Some (m2, fx)"
    and m': "m' = m2\<lparr>m_LastMousePosition := m_MousePosition m2\<rparr>"
    using assms False by (auto simp: mouseMoveEvent_def Let_def elim!: bind_pairE bind_SomeE)
  obtain p i y m3 where "recached ?m m3" "m1 = set_model p i y m3"
    using move_active_frame [OF 1] by blast
  then have "m_SuppressPageViewRender m1" using assms by (auto simp: recached_def set_model_def)
  then show ?thesis using requestPixmapRefresh_frame [OF 2] m' by auto
qed

lemma wheel_keeps_suppress:
  assumes "wheelEvent G e d m = Some (m', fx, b)" and "m_SuppressPageViewRender m"
  shows "m_SuppressPageViewRender m'"
proof -
  have r: "recached m v \<Longrightarrow> m_SuppressPageViewRender v" for v
    using assms(2) by (auto simp: recached_def)
  have s: "requestPixmapRefresh e page (set_model p i y (EnsureCachedRequestSize page v)) = Some (m2, fx')
      \<Longrightarrow> recached m v \<Longrightarrow> m_SuppressPageViewRender m2" for page p i y v m2 fx'
    using requestPixmapRefresh_frame [of e page _ m2 fx'] r recached_Ensure recached_trans
    by (fastforce simp: set_model_def)
  show ?thesis
    using assms
    by (auto simp: wheelEvent_def Let_def intro: s r
        dest!: GetNormalizedPosition_recached
        elim!: bind_pairE bind_SomeE split: if_splits option.splits)
qed

text \<open>C18: the suppression of PageView rendering lasts until the button is released: of all the
  events the mouse filter handles, only a left release (in a document with models) clears it.\<close>

theorem suppression_until_release:
  assumes "EventFilter_eventFilter G e w ev m = Some (m', fx, b)" and "m_SuppressPageViewRender m"
  shows "m_SuppressPageViewRender m' \<longleftrightarrow> \<not> (ev = MouseButtonRelease True \<and> \<not> plain_document e m)"
proof -
  have "m_SuppressPageViewRender (noteEventSource w m)" using assms by (simp add: noteEventSource_def)
  note keep = move_keeps_suppress [OF _ this] wheel_keeps_suppress [OF _ this]
    press_keeps_suppress [of e _ _ "noteEventSource w m"] this
  show ?thesis
    using assms keep
    by (cases ev) (auto simp: EventFilter_eventFilter_def mouseButtonReleaseEvent_def split: if_splits)
qed

theorem suppression_until_release_witness:
  "\<not> m_SuppressPageViewRender (fst (the (EventFilter_eventFilter unit_glm sample_env 2
      (MouseButtonRelease True) (sample_presentation\<lparr>m_SuppressPageViewRender := True\<rparr>))))"
proof -
  let ?m = "sample_presentation\<lparr>m_SuppressPageViewRender := True\<rparr>"
  obtain m' fx b where r: "EventFilter_eventFilter unit_glm sample_env 2 (MouseButtonRelease True) ?m
      = Some (m', fx, b)"
    using EventFilter_ok [of ?m sample_env 2 unit_glm "MouseButtonRelease True"]
    by (auto simp: inv_ok_def split: option.splits)
  have "\<not> plain_document sample_env ?m"
    using sample_plain(3) by (simp add: plain_document_def)
  then show ?thesis using suppression_until_release [OF r] r by simp
qed

text \<open>C16: a mouse press grabs the model under the cursor. It is consumed exactly when a drag starts
  with it; then the active model is the first model of the page under the cursor whose rectangle
  contains the cursor, and otherwise the drag state is unchanged.\<close>

theorem mouseButtonPressEvent_grabs:
  assumes "mouseButtonPressEvent e pos l m = Some (m', fx, b)"
  shows "fx = [] \<and> m_Models m' = m_Models m \<and>
    (if b then l \<and> m_Dragging m' \<and>
       (\<exists>page i np m1 m2. m_ActiveModel m' = Some (page, i) \<and> m_ActiveModelPage m' = int page \<and>
          GetPageMouseIsOver e (m\<lparr>m_MousePosition := pos\<rparr>) = Some (Some page, m1) \<and>
          GetNormalizedPositionRelativeToPage e m1 pos page = Some (np, m2) \<and>
          i < length (m_Models m ! page) \<and> on_model np (m_Models m ! page ! i) \<and>
          (\<forall>j < i. \<not> on_model np (m_Models m ! page ! j)))
     else m_Dragging m' = m_Dragging m \<and> m_ActiveModel m' = m_ActiveModel m)"
proof (cases "plain_document e m \<or> \<not> l")
  case True
  then show ?thesis
    using assms by (auto simp: mouseButtonPressEvent_def Let_def split: if_splits)
next
  case False
  let ?m = "m\<lparr>m_MousePosition := pos\<rparr>"
  obtain over m1 where 1: "GetPageMouseIsOver e ?m = Some (over, m1)"
    and rest: "(case over of None \<Rightarrow> Some (m1, [], False)
      | Some page \<Rightarrow> if page \<ge> length (m_Models m1) then Some (m1, [], False)
          else Option.bind (GetNormalizedPositionRelativeToPage e m1 (m_MousePosition m1) page)
            (\<lambda>(np, m2). (case hit_model np (m_Models m2 ! page) of
                None \<Rightarrow> Some (m2, [], False)
              | Some i \<Rightarrow> Some (m2\<lparr>m_Dragging := True, m_LastMousePosition := m_MousePosition m2,
                  m_ActiveModel := Some (page, i), m_ActiveModelPage := int page\<rparr>, [], True))))
      = Some (m', fx, b)"
    using assms False by (auto simp: mouseButtonPressEvent_def Let_def elim!: bind_pairE)
  have f1: "m_Models m1 = m_Models m" "m_Dragging m1 = m_Dragging m"
    "m_ActiveModel m1 = m_ActiveModel m" "m_MousePosition m1 = pos"
    using recached_frame [OF GetPageMouseIsOver_recached [OF 1]] by simp_all
  show ?thesis
  proof (cases "over = None \<or> the over \<ge> length (m_Models m1)")
    case True
    then show ?thesis using rest f1 by (auto split: option.splits)
  next
    case page: False
    then obtain page where p: "over = Some page" "page < length (m_Models m1)" by auto
    obtain np m2 where 2: "GetNormalizedPositionRelativeToPage e m1 (m_MousePosition m1) page = Some (np, m2)"
      and r2: "(case hit_model np (m_Models m2 ! page) of
                None \<Rightarrow> Some (m2, [], False)
              | Some i \<Rightarrow> Some (m2\<lparr>m_Dragging := True, m_LastMousePosition := m_MousePosition m2,
                  m_ActiveModel := Some (page, i), m_ActiveModelPage := int page\<rparr>, [], True))
      = Some (m', fx, b)"
      using rest p by (auto elim!: bind_pairE)
    note f2 = recached_frame [OF GetNormalizedPosition_recached [OF 2]]
    show ?thesis
    proof (cases "hit_model np (m_Models m2 ! page)")
      case None
      then show ?thesis using r2 f1 f2 by simp
    next
      case (Some i)
      then have first: "\<forall>j < i. \<not> on_model np (m_Models m ! page ! j)"
        using f1 f2 unfolding hit_model_def find_Some_iff by auto
      show ?thesis
        using Some r2 f1 f2 1 2 p False first hit_model_Some [OF Some] by auto
    qed
  qed
qed

theorem mouseButtonPressEvent_grabs_witness:
  "\<exists>m' fx b. mouseButtonPressEvent sample_env (V2 400 300) True sample_dragging = Some (m', fx, b) \<and>
     m_Models m' = m_Models sample_dragging"
proof -
  have "inv_ok (mouseButtonPressEvent sample_env (V2 400 300) True sample_dragging)"
    by (rule mouseButtonPressEvent_ok) (simp_all add: source_ok_sample)
  then obtain m' fx b where
    r: "mouseButtonPressEvent sample_env (V2 400 300) True sample_dragging = Some (m', fx, b)"
    by (auto simp: inv_ok_def split: option.splits)
  with mouseButtonPressEvent_grabs [OF r] show ?thesis by blast
qed

text \<open>A page centred in a window: the border test and the normalised position agree.\<close>

lemma centred_axis:
  fixes x :: real
  assumes "x > (W - w) / 2" and "x < W - (W - w) / 2"
  shows "w > 0" and "0 < (x - (W - w) / 2) / w" and "(x - (W - w) / 2) / w < 1"
proof -
  have h: "2 * ((W - w) / 2) = W - w" by simp
  show w: "w > 0" using assms h by linarith
  have "x - (W - w) / 2 < w" "0 < x - (W - w) / 2" using assms h by linarith+
  with w show "0 < (x - (W - w) / 2) / w" "(x - (W - w) / 2) / w < 1"
    by (simp_all only: divide_pos_pos divide_less_eq_1_pos)
qed

text \<open>Hit testing in the presentation window is consistent: when the cursor is reported to be
  over a page, its normalised position on that page lies strictly inside the unit square.\<close>

theorem presentation_hit_inside:
  assumes "m_LastEventSource m = Some w" and "m_PresentationWidget m = Some w"
    and "e_alive e w" and "e_isPres e w"
    and "GetPageMouseIsOver e m = Some (Some page, m1)"
    and "GetNormalizedPositionRelativeToPage e m (m_MousePosition m) page = Some (np, m2)"
  shows "0 < v2x np \<and> v2x np < 1 \<and> 0 < v2y np \<and> v2y np < 1"
proof -
  define d where "d = m_PresentationRequestSizes m ! page"
  define x where "x = real_of_int (v2x (m_MousePosition m))"
  define y where "y = real_of_int (v2y (m_MousePosition m))"
  define wx where "wx = real_of_int (v2x d) / e_wdpr e w"
  define wy where "wy = real_of_int (v2y d) / e_wdpr e w"
  define b where "b = \<lparr>hi = (e_height e w - wy) / 2, lo = (e_height e w - wy) / 2,
    le = (e_width e w - wx) / 2, ri = (e_width e w - wx) / 2, pageNumber = page\<rparr>"
  have src: "source_is_presentation e m = Some True"
    using assms by (simp add: source_is_presentation_def)
  have bs: "fst (GetPresentationPageBorders e m) = [b]" and len: "page < length (m_PresentationRequestSizes m)"
    and pos: "v2x d > 0" "v2y d > 0"
    and hit: "x > le b" "x < e_width e w - ri b" "y > hi b" "y < e_height e w - lo b"
    using assms src
    by (auto simp: GetPageMouseIsOver_def GetActivePageBorders_def GetActiveViewportSize_def
        GetPresentationPageBorders_def Let_def live_def b_def d_def wx_def wy_def x_def y_def
        split: if_splits)
  have "np = V2 ((x - le b) / wx) ((y - hi b) / wy)"
    using assms src bs len pos hit centred_axis(1) [of "e_width e w" wx x]
      centred_axis(1) [of "e_height e w" wy y]
    by (auto simp: GetNormalizedPositionRelativeToPage_def GetActivePageBorders_def Let_def live_def
        b_def d_def [symmetric] wx_def [symmetric] wy_def [symmetric] x_def y_def
        split: prod.splits)
  then show ?thesis
    using hit centred_axis [of "e_width e w" wx x] centred_axis [of "e_height e w" wy y]
    by (simp add: b_def)
qed

lemma sample_presentation_fields [simp]:
  "m_LastEventSource sample_presentation = Some 2" "m_PresentationWidget sample_presentation = Some 2"
  "m_MousePosition sample_presentation = V2 400 300" "m_Document sample_presentation"
  "m_PresentationRequestSizes sample_presentation = [V2 600 400]"
  by (simp_all add: sample_presentation_def)

theorem presentation_hit_inside_witness:
  "\<exists>np m2. GetNormalizedPositionRelativeToPage sample_env sample_presentation (V2 400 300) 0 = Some (np, m2)
     \<and> 0 < v2x np \<and> v2x np < 1 \<and> 0 < v2y np \<and> v2y np < 1"
proof -
  have ok: "source_ok sample_env sample_presentation" by (simp add: source_ok_def)
  obtain np m2 where
    n: "GetNormalizedPositionRelativeToPage sample_env sample_presentation (V2 400 300) 0 = Some (np, m2)"
    using GetNormalizedPosition_total [OF ok] by blast
  have "\<exists>m1. GetPageMouseIsOver sample_env sample_presentation = Some (Some 0, m1)"
    by (simp add: GetPageMouseIsOver_def GetActivePageBorders_def GetActiveViewportSize_def
        GetPresentationPageBorders_def source_is_presentation_def live_def Let_def)
  then obtain m1 where "GetPageMouseIsOver sample_env sample_presentation = Some (Some 0, m1)" ..
  from presentation_hit_inside [of sample_presentation 2 sample_env 0 m1 np m2] this n
  show ?thesis by simp
qed

lemma cached_size_Ensure [simp]: "cached_size (EnsureCachedRequestSize p m) q = cached_size m q"
  by (auto simp: cached_size_def EnsureCachedRequestSize_def resize_to_def nth_append
      RequestCache_init_def)

lemma page_size_Ensure [simp]: "page_size e (EnsureCachedRequestSize p m) q = page_size e m q"
  by (simp add: page_size_def)

text \<open>the same consistency in the PageView when the page is visible as a whole.\<close>

theorem pageview_hit_inside:
  assumes "m_LastEventSource m = Some w" and "e_alive e w" and "\<not> e_isPres e w"
    and "live e (m_PageView m) = Some pv"
    and "e_visibleRects e = [(n, \<lparr>left = 0, right = 1, top = 0, bottom = 1\<rparr>)]"
    and "GetPageMouseIsOver e m = Some (Some page, m1)"
    and "GetNormalizedPositionRelativeToPage e m (m_MousePosition m) page = Some (np, m2)"
  shows "0 < v2x np \<and> v2x np < 1 \<and> 0 < v2y np \<and> v2y np < 1"
proof -
  define x where "x = real_of_int (v2x (m_MousePosition m))"
  define y where "y = real_of_int (v2y (m_MousePosition m))"
  define wx where "wx = v2x (page_size e m page)"
  define wy where "wy = v2y (page_size e m page)"
  define b where "b = \<lparr>hi = (e_height e pv - wy) / 2, lo = (e_height e pv - wy) / 2,
    le = (e_width e pv - wx) / 2, ri = (e_width e pv - wx) / 2, pageNumber = page\<rparr>"
  have src: "source_is_presentation e m = Some False"
    using assms by (simp add: source_is_presentation_def)
  have n: "n = page" and bs: "fst (GetPageBordersForVisiblePages e m) = [b]"
    and hit: "x > le b" "x < e_width e pv - ri b" "y > hi b" "y < e_height e pv - lo b"
    using assms src
    by (auto simp: GetPageMouseIsOver_def GetActivePageBorders_def GetActiveViewportSize_def
        GetPageBordersForVisiblePages_def borders_single_def Let_def b_def wx_def wy_def x_def y_def
        split: if_splits)
  have sz: "real_of_int (v2x (cached_size m page)) / GetDevicePixelRatio e = wx"
    "real_of_int (v2y (cached_size m page)) / GetDevicePixelRatio e = wy"
    by (simp_all add: wx_def wy_def page_size_def vec2.map_sel)
  have m1: "cached_size (snd (GetPageBordersForVisiblePages e m)) page = cached_size m page"
    using assms by (simp add: GetPageBordersForVisiblePages_def Let_def)
  have "np = V2 ((x - le b) / wx) ((y - hi b) / wy)"
    using assms src bs hit centred_axis(1) [of "e_width e pv" wx x]
      centred_axis(1) [of "e_height e pv" wy y] sz m1
    by (auto simp: GetNormalizedPositionRelativeToPage_def GetActivePageBorders_def Let_def
        b_def x_def y_def split: prod.splits)
  then show ?thesis
    using hit centred_axis [of "e_width e pv" wx x] centred_axis [of "e_height e pv" wy y]
    by (simp add: b_def)
qed

theorem pageview_hit_inside_witness:
  "\<exists>np m2. GetNormalizedPositionRelativeToPage sample_env sample_dragging (V2 400 300) 0 = Some (np, m2)
     \<and> 0 < v2x np \<and> v2x np < 1 \<and> 0 < v2y np \<and> v2y np < 1"
proof -
  obtain np m2 where
    n: "GetNormalizedPositionRelativeToPage sample_env sample_dragging (V2 400 300) 0 = Some (np, m2)"
    using GetNormalizedPosition_total [OF source_ok_sample] by blast
  have f: "m_LastEventSource sample_dragging = Some 1" "live sample_env (m_PageView sample_dragging) = Some 1"
    "m_MousePosition sample_dragging = V2 400 300" "cached_size sample_dragging 0 = V2 600 400"
    by (simp_all add: sample_dragging_def live_def cached_size_def sample_manager_def
        V3dModelManager_new_def Let_def)
  have "\<exists>m1. GetPageMouseIsOver sample_env sample_dragging = Some (Some 0, m1)"
    using f by (simp add: GetPageMouseIsOver_def GetActivePageBorders_def GetActiveViewportSize_def
        GetPageBordersForVisiblePages_def source_is_presentation_def borders_single_def Let_def
        page_size_def GetDevicePixelRatio_def)
  then obtain m1 where "GetPageMouseIsOver sample_env sample_dragging = Some (Some 0, m1)" ..
  from pageview_hit_inside [of sample_dragging 1 sample_env 1 0 0 m1 np m2] this n f
  show ?thesis by simp
qed

text \<open>The number of requests of a sequence that reach Okular.\<close>

fun refresh_count :: "nat \<Rightarrow> env list \<Rightarrow> 'm manager \<Rightarrow> nat" where
  "refresh_count page [] m = 0"
| "refresh_count page (e # es) m =
     (case requestPixmapRefresh e page m of
        None \<Rightarrow> 0
      | Some (m1, fx) \<Rightarrow> (if fx = [] then 0 else 1) + refresh_count page es m1)"





text \<open>C21: the raw pointer \<open>m_LastEventSource\<close> outlives the presentation window: the handler of its
  destruction leaves the pointer in place, and a later H key in the window of the document
  dereferences it.\<close>

theorem keyPress_after_presentation_dangles:
  assumes "m_LastEventSource m = Some w" and "e_isPres e1 w"
    and "handlePresentationWidgetEvent e1 w Destroy m = Some (m1, fx)"
    and "\<not> e_alive e2 w" and "\<not> plain_document e2 m1" and "keyEventInOwnWindow e2 object m1"
  shows "ApplicationEventFilter_eventFilter G e2 object (KeyPress Key_H) m1 = None"
proof -
  have "m_LastEventSource m1 = Some w"
    using assms(1-3) refreshPixmap_frame [of e1]
    by (fastforce simp: handlePresentationWidgetEvent_def presentation_destroyed_def Let_def
        split: if_splits)
  then have "\<not> source_ok e2 m1" using assms(4) by (simp add: source_ok_def)
  then show ?thesis
    using assms(5,6) hit_fails_on_dangling_source [of e2 m1]
    by (simp add: ApplicationEventFilter_eventFilter_def keyPressEvent_def)
qed

definition sample_env_later :: env where
  "sample_env_later = sample_env\<lparr>e_alive := (\<lambda>w. w = 1)\<rparr>"

theorem keyPress_after_presentation_dangles_witness:
  "\<exists>m1 fx. handlePresentationWidgetEvent sample_env 2 Destroy sample_presentation = Some (m1, fx) \<and>
     ApplicationEventFilter_eventFilter unit_glm sample_env_later 1 (KeyPress Key_H) m1 = None"
proof -
  obtain m1 fx where d: "presentation_destroyed sample_env sample_presentation = Some (m1, fx)"
    using presentation_destroyed_ok [of sample_presentation sample_env] by auto
  then have h: "handlePresentationWidgetEvent sample_env 2 Destroy sample_presentation = Some (m1, fx)"
    by (simp add: handlePresentationWidgetEvent_def)
  have "m_PageView m1 = Some 1" "m_Models m1 = [[sample_model, sample_model]]"
    using d refreshPixmap_frame [of sample_env]
    by (fastforce simp: presentation_destroyed_def Let_def sample_presentation_def split: if_splits)+
  then have "\<not> plain_document sample_env_later m1" "keyEventInOwnWindow sample_env_later 1 m1"
    by (simp_all add: plain_document_def keyEventInOwnWindow_def sample_env_later_def live_def)
  with h keyPress_after_presentation_dangles [OF _ _ h, of sample_env_later 1 unit_glm]
  show ?thesis by (simp add: sample_env_later_def)
qed

end
