(* ===== verification/ManagerRender.thy ===== *)
theory ManagerRender
  imports ManagerEvents
begin

text \<open>
  Rendering and image-based lighting (IBL) in \<^verbatim>\<open>v3d-Common/V3dModelManager.cpp\<close>: \<open>RenderModel\<close>
  with its image cache, the download prompts and the download of missing environment maps.

  What lies outside this file is the record \<open>renderer\<close>: the file system, the two environment
  variables and the data directory, what \<open>V3dFile::QueueMesh\<close> leaves in the vertex buffers, what
  \<open>HeadlessRenderer::render\<close> returns, and Qt's conversion to RGB32. The answer of the user, the
  directories that can be created and the network replies are arguments. \<^term>\<open>None\<close> is undefined
  behaviour (an index out of range, integer overflow, division by zero). The function-local statics
  \<open>lastPage\<close>, \<open>lastModel\<close> and \<open>pendingPrompts\<close> are fields of the manager.
\<close>

section \<open>The surroundings\<close>

text \<open>Which of the global vertex buffers hold indices after \<open>QueueMesh\<close>.\<close>

record queued =
  q_material :: bool
  q_color :: bool
  q_line :: bool
  q_transparent :: bool
  q_point :: bool

datatype MeshPipelineMode = MaterialOnly | ColorOnly | Mixed

text \<open>The buffer that \<open>HeadlessRenderer::render\<close> returns, with its \<open>VkSubresourceLayout\<close>.\<close>

record frame =
  f_data :: "byte list"
  f_rowPitch :: nat
  f_size :: nat

record 'm renderer =
  rd_fileExists :: "string \<Rightarrow> bool"
  rd_envDir :: "string option"
  rd_dataDir :: string
  rd_queueMesh :: "'m V3dModel \<Rightarrow> int \<Rightarrow> int \<Rightarrow> real vec3 \<Rightarrow> real vec3 \<Rightarrow> queued"
  rd_render :: "'m V3dModel \<Rightarrow> int \<Rightarrow> int \<Rightarrow> MeshPipelineMode \<Rightarrow> bool \<Rightarrow> string \<Rightarrow> DrawMode \<Rightarrow> frame option"
  rd_toRGB32 :: "byte cell list \<Rightarrow> byte cell list"

section \<open>Prompts\<close>

definition scheduleIBLPrompt :: "string \<Rightarrow> string \<Rightarrow> 'm manager \<Rightarrow> 'm manager \<times> effect list" where
  "scheduleIBLPrompt img_name iblBase m =
     (if \<not> iblNameOK (normalizeIBLName img_name) then (m, [])
      else if img_name \<in> pendingPrompts m then (m, [])
      else (m\<lparr>pendingPrompts := insert img_name (pendingPrompts m)\<rparr>, [PostPrompt img_name iblBase]))"

text \<open>The IBL decision at the start of \<open>RenderModel\<close>: render without IBL (no name, a rejected or a
  declined one), with the files at a path, or without because they are missing.\<close>

datatype ibl_state = NoIBL | UseIBL string | MissingIBL

definition ibl_lookup :: "'m renderer \<Rightarrow> string \<Rightarrow> string set \<Rightarrow> ibl_state" where
  "ibl_lookup R name declined =
     (if name = [] then NoIBL
      else if \<not> iblNameOK (normalizeIBLName name) then NoIBL
      else let iblPath = resolveIBLPath (rd_fileExists R) (rd_envDir R) (rd_dataDir R) name
           in if iblPath \<noteq> [] then UseIBL iblPath
              else if normalizeIBLName name \<in> declined then NoIBL
              else MissingIBL)"

definition ibl_decision ::
  "'m renderer \<Rightarrow> nat \<Rightarrow> nat \<Rightarrow> string \<Rightarrow> 'm manager \<Rightarrow> 'm manager \<times> effect list \<times> bool \<times> string" where
  "ibl_decision R page idx name m =
     (case ibl_lookup R name (m_IBLDeclinedNames m) of
        NoIBL \<Rightarrow> (m, [], False, [])
      | UseIBL iblPath \<Rightarrow> (m, [], True, iblPath)
      | MissingIBL \<Rightarrow>
          (case scheduleIBLPrompt name (getIBLBase (rd_envDir R) (rd_dataDir R))
                  (m\<lparr>m_ModelsWithMissingIBL := insert (page, idx) (m_ModelsWithMissingIBL m)\<rparr>) of
             (m1, fx) \<Rightarrow> (m1, fx, False, [])))"

section \<open>Rendering\<close>

definition black :: "int \<Rightarrow> int \<Rightarrow> qimage" where
  "black w h = \<lparr>img_w = w, img_h = h, img_content = Black\<rparr>"

text \<open>\<open>qBound(0, int(c * 255.0f + 0.5f), 255)\<close>.\<close>

definition int_of_real :: "real \<Rightarrow> int" where
  "int_of_real x = (if x \<ge> 0 then \<lfloor>x\<rfloor> else \<lceil>x\<rceil>)"

definition bg_channel :: "float32 \<Rightarrow> int option" where
  "bg_channel c =
     Option.bind (f64_real (f32_to_f64 c)) (\<lambda>r.
       let i = int_of_real (r * 255 + 1 / 2)
       in if \<bar>i\<bar> < 2 ^ 31 then Some (max 0 (min i 255)) else None)"

definition background_image :: "int \<Rightarrow> int \<Rightarrow> float32 vec4 \<Rightarrow> qimage option" where
  "background_image w h bg =
     Option.bind (bg_channel (v4r bg)) (\<lambda>r.
     Option.bind (bg_channel (v4g bg)) (\<lambda>g.
     Option.bind (bg_channel (v4b bg)) (\<lambda>b.
       Some \<lparr>img_w = w, img_h = h, img_content = Fill r g b\<rparr>)))"

text \<open>The loop that removes the padding of the rows.\<close>

fun copy_rows :: "nat \<Rightarrow> nat \<Rightarrow> nat \<Rightarrow> byte list \<Rightarrow> byte list" where
  "copy_rows 0 rowBytes pitch d = []"
| "copy_rows (Suc n) rowBytes pitch d = take rowBytes d @ copy_rows n rowBytes pitch (drop pitch d)"

text \<open>The pixels that the \<open>QImage\<close> reads from the vector: its capacity is the whole image, of which
  only the copied rows have been written.\<close>

definition read_back :: "int \<Rightarrow> int \<Rightarrow> frame \<Rightarrow> byte cell list option" where
  "read_back w h f =
     (if f_rowPitch f = 0 \<or> w * h * 4 \<ge> 2 ^ 31 then None
      else let actualHeight = f_size f div f_rowPitch f; actualRowPixels = f_rowPitch f div 4;
               rows = min actualHeight (nat h); rowBytes = min actualRowPixels (nat w) * 4;
               v = copy_rows rows rowBytes (f_rowPitch f) (f_data f)
           in Some (map Some v @ replicate (nat (w * h * 4) - length v) None))"

definition pipelineMode :: "queued \<Rightarrow> MeshPipelineMode" where
  "pipelineMode q = (if q_color q \<and> q_material q then Mixed
     else if q_color q then ColorOnly else MaterialOnly)"

definition hasRenderableData :: "queued \<Rightarrow> bool" where
  "hasRenderableData q \<longleftrightarrow> q_material q \<or> q_color q \<or> q_line q \<or> q_transparent q \<or> q_point q"

text \<open>The bounds handed to \<open>QueueMesh\<close>: the frustum, or the scene box when the frustum is empty.\<close>

definition scene_bounds :: "'m V3dModel \<Rightarrow> real vec3 \<times> real vec3" where
  "scene_bounds x =
     (let f = mFile x; mn = V3 (xmin x) (ymin x) (v3z (sMin f)); mx = V3 (xmax x) (ymax x) (v3z (sMax f))
      in if v3x mn \<ge> v3x mx \<or> v3y mn \<ge> v3y mx \<or> v3z mn \<ge> v3z mx then (sMin f, sMax f) else (mn, mx))"

text \<open>The model as \<open>QueueMesh\<close> sees it: projected, with the remesh flag raised when another model
  was rendered before or the size changed.\<close>

definition prepare_model ::
  "'m glm \<Rightarrow> real vec2 \<Rightarrow> bool \<Rightarrow> bool \<Rightarrow> 'm V3dModel \<Rightarrow> 'm V3dModel" where
  "prepare_model G canvas switched resized x =
     (let y = setProjection G canvas x in y\<lparr>remesh := remesh y \<or> switched \<or> resized\<rparr>)"

definition render_scene ::
  "'m glm \<Rightarrow> 'm renderer \<Rightarrow> nat \<Rightarrow> nat \<Rightarrow> int \<Rightarrow> int \<Rightarrow> bool \<Rightarrow> string \<Rightarrow> real vec2 \<Rightarrow> 'm V3dModel \<Rightarrow>
   'm manager \<Rightarrow> ('m manager \<times> qimage) option" where
  "render_scene G R page idx w h useIBL iblPath canvas x m =
     (let cached = m_ModelImages m ! page ! idx;
          switched = (page \<noteq> g_lastPage m \<or> idx \<noteq> g_lastModel m);
          y = prepare_model G canvas switched (img_w cached \<noteq> w \<or> img_h cached \<noteq> h) x;
          m1 = (if switched
                then m\<lparr>r_drawMode := drawMode y, g_lastPage := page, g_lastModel := idx\<rparr> else m);
          q = rd_queueMesh R y w h (fst (scene_bounds y)) (snd (scene_bounds y))
      in if \<not> hasRenderableData q then
           map_option (\<lambda>img. (set_model page idx y m1, img)) (background_image w h (sBackground (mFile y)))
         else
           let z = y\<lparr>remesh := (if drawMode y \<noteq> DRAWMODE_OUTLINE then False else remesh y),
                     initialized := True\<rparr>
           in (case rd_render R z w h (pipelineMode q) useIBL iblPath (r_drawMode m1) of
                 None \<Rightarrow> Some (set_model page idx z m1, black w h)
               | Some f \<Rightarrow>
                   map_option (\<lambda>px.
                     let img = \<lparr>img_w = w, img_h = h, img_content = Pixels (rd_toRGB32 R px)\<rparr>;
                         m2 = set_model page idx (z\<lparr>m_HasChanged := False\<rparr>) m1
                     in (m2\<lparr>m_ModelImages :=
                           (m_ModelImages m2)[page := (m_ModelImages m2 ! page)[idx := img]]\<rparr>, img))
                     (read_back w h f)))"

definition RenderModel ::
  "'m glm \<Rightarrow> 'm renderer \<Rightarrow> nat \<Rightarrow> nat \<Rightarrow> int \<Rightarrow> int \<Rightarrow> 'm manager \<Rightarrow>
   ('m manager \<times> effect list \<times> qimage) option" where
  "RenderModel G R page idx imageWidth imageHeight m0 =
     (let m = ensureHeadlessRenderer (rd_fileExists R) m0
      in if \<not> m_HeadlessRenderer m then Some (m, [], black imageWidth imageHeight)
         else if imageWidth \<le> 0 \<or> imageHeight \<le> 0
         then Some (m, [], black (max imageWidth 1) (max imageHeight 1))
         else Option.bind (model_at m page idx) (\<lambda>x.
           (case ibl_decision R page idx (sImageName (mFile x)) m of
              (m1, fx, useIBL, iblPath) \<Rightarrow>
                let cached = m_ModelImages m1 ! page ! idx
                in if \<not> m_HasChanged x \<and> img_w cached = imageWidth \<and> img_h cached = imageHeight
                   then Some (m1, fx, cached)
                   else
                     let m2 = EnsureCachedRequestSize page m1;
                         sz = cached_size m2 page;
                         canvas = V2 ((v2x (mMaxBound x) - v2x (mMinBound x)) * real_of_int (v2x sz))
                                     ((v2y (mMaxBound x) - v2y (mMinBound x)) * real_of_int (v2y sz))
                     in if v2x canvas \<le> 0 \<or> v2y canvas \<le> 0
                        then Some (m2, fx, black imageWidth imageHeight)
                        else map_option (\<lambda>(m3, img). (m3, fx, img))
                               (render_scene G R page idx imageWidth imageHeight useIBL iblPath
                                  canvas x m2))))"

section \<open>Downloads\<close>

definition defaultImageUrl :: string where
  "defaultImageUrl = ''https://vectorgraphics.gitlab.io/asymptote/ibl''"

text \<open>The files of an environment map: remote name and local path.\<close>

definition download_tasks :: "string \<Rightarrow> string \<Rightarrow> (string \<times> string) list" where
  "download_tasks base name =
     (let envDir = base @ [slash] @ name
      in [(''refl.exr'', base @ ''/refl.exr''),
          (name @ ''/diffuse.exr'', envDir @ ''/diffuse.exr'')] @
         map (\<lambda>l. (name @ [slash] @ l, envDir @ [slash] @ l)) layer_names)"

text \<open>The common \<open>refl.exr\<close> is skipped when it already exists.\<close>

definition pending_tasks :: "(string \<Rightarrow> bool) \<Rightarrow> string \<Rightarrow> string \<Rightarrow> (string \<times> string) list" where
  "pending_tasks ex base name =
     filter (\<lambda>(remote, local). \<not> (local = base @ ''/refl.exr'' \<and> ex local)) (download_tasks base name)"

record prompt =
  p_yes :: bool
  p_mkEnvDir :: bool
  p_baseReady :: bool
  p_urlEnv :: "string option"

text \<open>The models of a declined map, which are no longer tracked.\<close>

definition has_ibl_name :: "'m manager \<Rightarrow> string \<Rightarrow> nat \<times> nat \<Rightarrow> bool" where
  "has_ibl_name m name mi =
     (case model_at m (fst mi) (snd mi) of
        None \<Rightarrow> False
      | Some x \<Rightarrow> normalizeIBLName (sImageName (mFile x)) = name)"

definition declineIBL :: "string \<Rightarrow> 'm manager \<Rightarrow> 'm manager \<times> effect list" where
  "declineIBL name m =
     (let hit = {mi \<in> m_ModelsWithMissingIBL m. has_ibl_name m name mi}
      in (m\<lparr>m_IBLDeclinedNames := insert name (m_IBLDeclinedNames m),
            m_ModelsWithMissingIBL := m_ModelsWithMissingIBL m - hit\<rparr>,
          map (\<lambda>p. ScheduleRefresh p 25) (sorted_list_of_set (fst ` hit))))"

definition flag_changed :: "(nat \<times> nat) set \<Rightarrow> 'm V3dModel list list \<Rightarrow> 'm V3dModel list list" where
  "flag_changed S ms =
     map (\<lambda>(p, xs). map (\<lambda>(i, x). if (p, i) \<in> S then x\<lparr>m_HasChanged := True\<rparr> else x) (List.enumerate 0 xs))
       (List.enumerate 0 ms)"

definition onIBLDownloadComplete :: "'m manager \<Rightarrow> 'm manager \<times> effect list" where
  "onIBLDownloadComplete m =
     (m\<lparr>m_IBLNetManager := False, m_Models := flag_changed (m_ModelsWithMissingIBL m) (m_Models m),
        m_ModelsWithMissingIBL := {}\<rparr>,
      map (\<lambda>p. ScheduleRefresh p 25) (sorted_list_of_set (fst ` m_ModelsWithMissingIBL m)))"

definition performIBLDownload ::
  "'m renderer \<Rightarrow> prompt \<Rightarrow> string \<Rightarrow> string \<Rightarrow> 'm manager \<Rightarrow> 'm manager \<times> effect list" where
  "performIBLDownload R pr img_name iblBase m =
     (let name = normalizeIBLName img_name
      in if \<not> iblNameOK name then (m, [])
         else if \<not> p_yes pr then declineIBL name m
         else if \<not> p_mkEnvDir pr \<or> \<not> p_baseReady pr then (m, [])
         else
           let baseUrl = (case p_urlEnv pr of Some u \<Rightarrow> if u \<noteq> [] then u else defaultImageUrl
                                            | None \<Rightarrow> defaultImageUrl);
               base = (if iblBase = [] then rd_dataDir R @ ''/okular/ibl'' else iblBase);
               tasks = pending_tasks (rd_fileExists R) base name;
               m1 = m\<lparr>m_IBLNetManager := True, m_PendingDownloadCount := int (length tasks)\<rparr>;
               fx = map (\<lambda>(remote, local). Download (baseUrl @ [slash] @ remote) local) tasks
           in if tasks = []
              then (case onIBLDownloadComplete (m1\<lparr>m_IBLNetManager := False\<rparr>) of (m2, fx2) \<Rightarrow> (m2, fx @ fx2))
              else (m1, fx))"

record net_reply =
  nr_localPath :: string
  nr_error :: bool
  nr_html :: bool
  nr_data :: "byte list"
  nr_writable :: bool

definition onIBLDownloadReplyFinished :: "net_reply \<Rightarrow> 'm manager \<Rightarrow> 'm manager \<times> effect list" where
  "onIBLDownloadReplyFinished r m =
     (if m_Destroying m then (m, [])
      else let fx = (if \<not> nr_error r \<and> \<not> nr_html r \<and> nr_data r \<noteq> [] \<and> nr_writable r
                     then [WriteFile (nr_localPath r) (nr_data r)] else []);
               m1 = m\<lparr>m_PendingDownloadCount := m_PendingDownloadCount m - 1\<rparr>
           in if m_PendingDownloadCount m1 = 0
              then (case onIBLDownloadComplete m1 of (m2, fx2) \<Rightarrow> (m2, fx @ fx2))
              else (m1, fx))"

text \<open>The timer of \<open>scheduleRefreshPixmap\<close> and the delivery of a prompt by \<open>IBLEventFilter\<close>.\<close>

definition refreshTimer_fired :: "env \<Rightarrow> nat \<Rightarrow> 'm manager \<Rightarrow> ('m manager \<times> effect list) option" where
  "refreshTimer_fired e page m = (if m_Destroying m then Some (m, []) else refreshPixmap e page m)"

definition IBLEventFilter_prompt ::
  "'m renderer \<Rightarrow> prompt \<Rightarrow> string \<Rightarrow> string \<Rightarrow> 'm manager \<Rightarrow> 'm manager \<times> effect list" where
  "IBLEventFilter_prompt R pr img_name iblBase m =
     (if m_Destroying m then (m, []) else performIBLDownload R pr img_name iblBase m)"

section \<open>Reading the frame back\<close>

lemma length_copy_rows:
  "rb \<le> pitch \<Longrightarrow> n * pitch \<le> length d \<Longrightarrow> length (copy_rows n rb pitch d) = n * rb"
  by (induction n arbitrary: d) auto

lemma nth_copy_rows:
  assumes "y < n" and "x < rb" and "rb \<le> pitch" and "n * pitch \<le> length d"
  shows "copy_rows n rb pitch d ! (y * rb + x) = d ! (y * pitch + x)"
  using assms
proof (induction n arbitrary: d y)
  case 0
  then show ?case by simp
next
  case (Suc n)
  show ?case
  proof (cases y)
    case 0
    then show ?thesis using Suc.prems by (simp add: nth_append)
  next
    case (Suc z)
    have "copy_rows n rb pitch (drop pitch d) ! (z * rb + x) = drop pitch d ! (z * pitch + x)"
      using Suc.IH [of z "drop pitch d"] Suc.prems Suc by simp
    moreover have "z * pitch + x \<le> length d - pitch"
    proof -
      have "z * pitch + x < (z + 1) * pitch" using Suc.prems by simp
      also have "\<dots> \<le> n * pitch" using Suc.prems Suc by (intro mult_le_mono1) simp
      also have "\<dots> \<le> length d - pitch" using Suc.prems by simp
      finally show ?thesis by simp
    qed
    ultimately show ?thesis using Suc Suc.prems by (simp add: nth_append add.assoc)
  qed
qed

text \<open>C25: reading a frame back loses nothing: when the renderer delivers at least the requested
  rows and columns, the image has exactly the bytes of the requested pixels, whatever padding the
  rows have, and no byte of it is indeterminate.\<close>

theorem read_back_exact:
  assumes "0 < w" and "0 < h" and "w * h * 4 < 2 ^ 31"
    and "nat w * 4 \<le> f_rowPitch f" and "nat h * f_rowPitch f \<le> f_size f"
    and "f_size f \<le> length (f_data f)"
  shows "\<exists>px. read_back w h f = Some px \<and> length px = nat w * nat h * 4 \<and>
    (\<forall>y < nat h. \<forall>x < nat w * 4. px ! (y * (nat w * 4) + x) = Some (f_data f ! (y * f_rowPitch f + x)))"
proof -
  let ?p = "f_rowPitch f"
  let ?v = "copy_rows (nat h) (nat w * 4) ?p (f_data f)"
  have p: "?p > 0" using assms by (cases "?p") auto
  have "nat h \<le> f_size f div ?p" using assms(5) p by (simp add: less_eq_div_iff_mult_less_eq)
  moreover have "nat w \<le> ?p div 4" using assms(4) by (simp add: less_eq_div_iff_mult_less_eq)
  moreover have n: "nat h * ?p \<le> length (f_data f)" using assms by simp
  moreover have area: "nat (w * h * 4) = nat w * nat h * 4" using assms by (simp add: nat_mult_distrib)
  moreover have len: "length ?v = nat h * (nat w * 4)"
    using length_copy_rows [OF assms(4) n] by simp
  ultimately have r: "read_back w h f = Some (map Some ?v)"
    using assms(3) p by (simp add: read_back_def Let_def min_absorb2 mult.commute mult.left_commute)
  have "map Some ?v ! (y * (nat w * 4) + x) = Some (f_data f ! (y * ?p + x))"
    if "y < nat h" "x < nat w * 4" for x y
  proof -
    have "y * (nat w * 4) + x < (y + 1) * (nat w * 4)" using that by simp
    also have "\<dots> \<le> nat h * (nat w * 4)" using that by (intro mult_le_mono1) simp
    finally show ?thesis using nth_copy_rows [OF that assms(4) n] len by simp
  qed
  with r len show ?thesis by (auto simp: mult_ac)
qed

definition sample_frame :: frame where
  "sample_frame = \<lparr>f_data = replicate 24 7, f_rowPitch = 12, f_size = 24\<rparr>"

theorem read_back_exact_witness:
  "\<exists>px. read_back 2 2 sample_frame = Some px \<and> length px = 16"
  using read_back_exact [of 2 2 sample_frame] by (auto simp: sample_frame_def)

text \<open>A frame with fewer rows than requested (the renderer clamps to the largest framebuffer)
  leaves the end of the image indeterminate.\<close>

lemma read_back_short:
  assumes "0 < w" and "0 < h" and "w * h * 4 < 2 ^ 31" and "f_rowPitch f > 0"
    and "f_size f div f_rowPitch f < nat h" and "f_size f \<le> length (f_data f)"
  shows "\<exists>px. read_back w h f = Some px \<and> last px = None"
proof -
  let ?p = "f_rowPitch f" and ?n = "min (f_size f div f_rowPitch f) (nat h)"
  let ?rb = "min (f_rowPitch f div 4) (nat w) * 4"
  let ?v = "copy_rows ?n ?rb ?p (f_data f)"
  have "?rb \<le> ?p" by (simp add: min_def) (meson le_trans mult_le_mono1 div_times_less_eq_dividend nat_le_linear)
  moreover have "?n * ?p \<le> length (f_data f)"
  proof -
    have "?n * ?p \<le> f_size f div ?p * ?p" by (simp add: min_def)
    also have "\<dots> \<le> f_size f" by simp
    finally show ?thesis using assms(6) by simp
  qed
  ultimately have len: "length ?v = ?n * ?rb" by (rule length_copy_rows)
  have "?n * ?rb \<le> ?n * (nat w * 4)" by simp
  also have "\<dots> < nat h * (nat w * 4)" using assms by simp
  also have "\<dots> = nat (w * h * 4)" using assms by (simp add: nat_mult_distrib mult_ac)
  finally have "nat (w * h * 4) - length ?v > 0" using len by simp
  then show ?thesis using assms(3,4) by (simp add: read_back_def Let_def last_append)
qed

section \<open>What rendering changes\<close>

text \<open>The decision about IBL changes the set of tracked models and the pending prompts only, and
  posts at most one prompt, for a name without a pending one.\<close>

lemma MissingIBL_ok: "ibl_lookup R name d = MissingIBL \<Longrightarrow> iblNameOK (normalizeIBLName name)"
  by (simp add: ibl_lookup_def Let_def split: if_splits)

lemma ibl_decision_cases:
  assumes "ibl_decision R page idx name m = (m1, fx, useIBL, iblPath)"
  obtains (quiet) "m1 = m" "fx = []" "ibl_lookup R name (m_IBLDeclinedNames m) \<noteq> MissingIBL"
  | (tracked) "m1 = m\<lparr>m_ModelsWithMissingIBL := insert (page, idx) (m_ModelsWithMissingIBL m)\<rparr>"
      "fx = []" "name \<in> pendingPrompts m"
  | (prompt) base where "fx = [PostPrompt name base]" "name \<notin> pendingPrompts m"
      "m1 = m\<lparr>m_ModelsWithMissingIBL := insert (page, idx) (m_ModelsWithMissingIBL m),
               pendingPrompts := insert name (pendingPrompts m)\<rparr>"
proof (cases "ibl_lookup R name (m_IBLDeclinedNames m)")
  case NoIBL
  then show ?thesis using assms quiet by (simp add: ibl_decision_def)
next
  case (UseIBL p)
  then show ?thesis using assms quiet by (simp add: ibl_decision_def)
next
  case MissingIBL
  then have ok: "iblNameOK (normalizeIBLName name)" by (rule MissingIBL_ok)
  show ?thesis
    using assms MissingIBL ok tracked prompt [of "getIBLBase (rd_envDir R) (rd_dataDir R)"]
    by (cases "name \<in> pendingPrompts m") (simp_all add: ibl_decision_def scheduleIBLPrompt_def)
qed

text \<open>Asked again in a state that has noted the outcome, the decision changes nothing.\<close>

lemma ibl_decision_again:
  assumes "ibl_decision R page idx name m = (m1, fx, useIBL, iblPath)"
    and "m_IBLDeclinedNames m2 = m_IBLDeclinedNames m1"
    and "m_ModelsWithMissingIBL m2 = m_ModelsWithMissingIBL m1"
    and "pendingPrompts m2 = pendingPrompts m1"
  shows "ibl_decision R page idx name m2 = (m2, [], useIBL, iblPath)"
proof (cases "ibl_lookup R name (m_IBLDeclinedNames m)")
  case NoIBL
  then show ?thesis using assms by (simp add: ibl_decision_def)
next
  case (UseIBL p)
  then show ?thesis using assms by (simp add: ibl_decision_def)
next
  case MissingIBL
  then have ok: "iblNameOK (normalizeIBLName name)" by (rule MissingIBL_ok)
  have r: "useIBL = False" "iblPath = []"
    using assms(1) MissingIBL ok
    by (cases "name \<in> pendingPrompts m"; simp add: ibl_decision_def scheduleIBLPrompt_def)+
  have "m_IBLDeclinedNames m1 = m_IBLDeclinedNames m" "name \<in> pendingPrompts m1"
    "insert (page, idx) (m_ModelsWithMissingIBL m1) = m_ModelsWithMissingIBL m1"
    using assms(1) MissingIBL by (cases rule: ibl_decision_cases; auto)+
  then show ?thesis
    using MissingIBL ok assms(2-4) r by (simp add: ibl_decision_def scheduleIBLPrompt_def)
qed

lemma ibl_decision_frame:
  assumes "ibl_decision R page idx name m = (m1, fx, useIBL, iblPath)"
  shows "m_ModelImages m1 = m_ModelImages m" "m_Models m1 = m_Models m"
    "m_HeadlessRenderer m1 = m_HeadlessRenderer m" "manager_inv m1 = manager_inv m"
  using assms by (cases rule: ibl_decision_cases; simp add: manager_inv_def)+

lemma ensureHeadlessRenderer_frame:
  "m_Models (ensureHeadlessRenderer ex m) = m_Models m"
  "m_ModelImages (ensureHeadlessRenderer ex m) = m_ModelImages m"
  "manager_inv (ensureHeadlessRenderer ex m) = manager_inv m"
  "pendingPrompts (ensureHeadlessRenderer ex m) = pendingPrompts m"
  "m_IBLDeclinedNames (ensureHeadlessRenderer ex m) = m_IBLDeclinedNames m"
  by (simp_all add: ensureHeadlessRenderer_def split: option.split)

lemma ensureHeadlessRenderer_done [simp]:
  "m_HeadlessRenderer m \<Longrightarrow> ensureHeadlessRenderer ex m = m"
  by (simp add: ensureHeadlessRenderer_def)

lemma prepare_model_keeps [simp]:
  "mMinBound (prepare_model G c s r x) = mMinBound x" "mMaxBound (prepare_model G c s r x) = mMaxBound x"
  "Zoom (prepare_model G c s r x) = Zoom x" "Zoom0 (prepare_model G c s r x) = Zoom0 x"
  "mFile (prepare_model G c s r x) = mFile x"
  by (simp_all add: prepare_model_def Let_def)
     (simp add: setProjection_def updateViewMatrix_def setDimensions_def Let_def)

text \<open>Rendering a scene replaces one model by a view-equivalent one, and either stores a new image
  for it or leaves the images alone.\<close>

lemma render_scene_cases:
  assumes "render_scene G R page idx w h useIBL iblPath canvas x m = Some (m', img)"
  obtains z m1 where "mMinBound z = mMinBound x" "mMaxBound z = mMaxBound x" "mFile z = mFile x"
    "zoom_ok z = zoom_ok x"
    "m1 = m \<or> (\<exists>d. m1 = m\<lparr>r_drawMode := d, g_lastPage := page, g_lastModel := idx\<rparr>)"
    "(m' = set_model page idx z m1 \<and> (\<forall>px. img_content img \<noteq> Pixels px)) \<or>
     (\<not> m_HasChanged z \<and> m' = (set_model page idx z m1)\<lparr>m_ModelImages :=
       (m_ModelImages m)[page := (m_ModelImages m ! page)[idx := img]]\<rparr>)"
    "img_w img = w" "img_h img = h"
proof -
  define s where "s = (page \<noteq> g_lastPage m \<or> idx \<noteq> g_lastModel m)"
  define y where "y = prepare_model G canvas s (img_w (m_ModelImages m ! page ! idx) \<noteq> w \<or>
    img_h (m_ModelImages m ! page ! idx) \<noteq> h) x"
  define m1 where "m1 = (if s
    then m\<lparr>r_drawMode := drawMode y, g_lastPage := page, g_lastModel := idx\<rparr> else m)"
  define q where "q = rd_queueMesh R y w h (fst (scene_bounds y)) (snd (scene_bounds y))"
  define z where "z = y\<lparr>remesh := (if drawMode y \<noteq> DRAWMODE_OUTLINE then False else remesh y),
    initialized := True\<rparr>"
  have m1: "m1 = m \<or> (\<exists>d. m1 = m\<lparr>r_drawMode := d, g_lastPage := page, g_lastModel := idx\<rparr>)"
    by (simp add: m1_def) blast
  have images: "m_ModelImages (set_model page idx u m1) = m_ModelImages m" for u
    by (simp add: m1_def set_model_def)
  have res: "(if \<not> hasRenderableData q
      then map_option (\<lambda>i. (set_model page idx y m1, i)) (background_image w h (sBackground (mFile y)))
      else (case rd_render R z w h (pipelineMode q) useIBL iblPath (r_drawMode m1) of
        None \<Rightarrow> Some (set_model page idx z m1, black w h)
      | Some f \<Rightarrow> map_option (\<lambda>px.
          let i = \<lparr>img_w = w, img_h = h, img_content = Pixels (rd_toRGB32 R px)\<rparr>;
              m2 = set_model page idx (z\<lparr>m_HasChanged := False\<rparr>) m1
          in (m2\<lparr>m_ModelImages := (m_ModelImages m2)[page := (m_ModelImages m2 ! page)[idx := i]]\<rparr>, i))
          (read_back w h f))) = Some (m', img)"
    using assms unfolding render_scene_def Let_def q_def z_def m1_def y_def s_def .
  have y: "mMinBound y = mMinBound x" "mMaxBound y = mMaxBound x" "mFile y = mFile x" "zoom_ok y = zoom_ok x"
    by (simp_all add: y_def zoom_ok_def)
  consider (culled) "background_image w h (sBackground (mFile y)) = Some img" "m' = set_model page idx y m1"
    | (failed) "m' = set_model page idx z m1" "img = black w h"
    | (drawn) px where "img = \<lparr>img_w = w, img_h = h, img_content = Pixels px\<rparr>"
        "m' = (set_model page idx (z\<lparr>m_HasChanged := False\<rparr>) m1)\<lparr>m_ModelImages :=
          (m_ModelImages m)[page := (m_ModelImages m ! page)[idx := img]]\<rparr>"
    using res images by (auto simp: Let_def split: if_splits option.splits)
  then show thesis
  proof cases
    case culled
    then show thesis
      using that [OF y m1] by (auto simp: background_image_def elim!: bind_SomeE)
  next
    case failed
    then show thesis using that [of z m1] y m1 by (auto simp: z_def zoom_ok_def black_def)
  next
    case drawn
    then show thesis
      using that [of "z\<lparr>m_HasChanged := False\<rparr>" m1] y m1 by (auto simp: z_def zoom_ok_def)
  qed
qed

lemma images_range:
  assumes "manager_inv m" and "model_at m p i = Some x"
  shows "p < length (m_ModelImages m)" and "i < length (m_ModelImages m ! p)"
proof -
  have l: "map length (m_ModelImages m) = map length (m_Models m)" and
    r: "p < length (m_Models m)" "i < length (m_Models m ! p)"
    using assms by (auto simp: manager_inv_def view_inv_def model_at_def split: if_splits)
  then show "p < length (m_ModelImages m)" by (metis length_map)
  with l r show "i < length (m_ModelImages m ! p)" by (metis nth_map)
qed

text \<open>The outcomes of a call with a renderer and positive sizes.\<close>

lemma RenderModel_cases:
  assumes "RenderModel G R page idx w h m = Some (m', fx, img)"
  obtains (disabled) "fx = []" "img = black w h" "m' = ensureHeadlessRenderer (rd_fileExists R) m"
  | (empty) "fx = []" "img = black (max w 1) (max h 1)" "m' = ensureHeadlessRenderer (rd_fileExists R) m"
      "w \<le> 0 \<or> h \<le> 0"
  | (hit) x useIBL iblPath where
      "model_at (ensureHeadlessRenderer (rd_fileExists R) m) page idx = Some x"
      "ibl_decision R page idx (sImageName (mFile x)) (ensureHeadlessRenderer (rd_fileExists R) m) =
        (m', fx, useIBL, iblPath)"
      "\<not> m_HasChanged x" "img = m_ModelImages m' ! page ! idx" "img_w img = w" "img_h img = h"
      "w > 0" "h > 0" "m_HeadlessRenderer (ensureHeadlessRenderer (rd_fileExists R) m)"
  | (canvas) x m1 useIBL iblPath where
      "model_at (ensureHeadlessRenderer (rd_fileExists R) m) page idx = Some x"
      "ibl_decision R page idx (sImageName (mFile x)) (ensureHeadlessRenderer (rd_fileExists R) m) =
        (m1, fx, useIBL, iblPath)"
      "m' = EnsureCachedRequestSize page m1" "img = black w h"
  | (drawn) x m1 useIBL iblPath canvas where
      "model_at (ensureHeadlessRenderer (rd_fileExists R) m) page idx = Some x"
      "ibl_decision R page idx (sImageName (mFile x)) (ensureHeadlessRenderer (rd_fileExists R) m) =
        (m1, fx, useIBL, iblPath)"
      "render_scene G R page idx w h useIBL iblPath canvas x (EnsureCachedRequestSize page m1) = Some (m', img)"
      "w > 0" "h > 0" "m_HeadlessRenderer (ensureHeadlessRenderer (rd_fileExists R) m)"
proof -
  let ?m = "ensureHeadlessRenderer (rd_fileExists R) m"
  consider "\<not> m_HeadlessRenderer ?m" | "m_HeadlessRenderer ?m" "w \<le> 0 \<or> h \<le> 0"
    | "m_HeadlessRenderer ?m" "w > 0" "h > 0" by linarith
  then show thesis
  proof cases
    case 1
    then show thesis using assms disabled by (simp add: RenderModel_def)
  next
    case 2
    then show thesis using assms empty by (auto simp: RenderModel_def)
  next
    case 3
    then obtain x where x: "model_at ?m page idx = Some x"
      using assms by (auto simp: RenderModel_def Let_def elim!: bind_SomeE)
    obtain m1 fx1 useIBL iblPath where d:
      "ibl_decision R page idx (sImageName (mFile x)) ?m = (m1, fx1, useIBL, iblPath)"
      by (metis prod_cases4)
    define cached where "cached = m_ModelImages m1 ! page ! idx"
    define m2 where "m2 = EnsureCachedRequestSize page m1"
    define cv where "cv = V2 ((v2x (mMaxBound x) - v2x (mMinBound x)) * real_of_int (v2x (cached_size m2 page)))
      ((v2y (mMaxBound x) - v2y (mMinBound x)) * real_of_int (v2y (cached_size m2 page)))"
    have r: "(if \<not> m_HasChanged x \<and> img_w cached = w \<and> img_h cached = h then Some (m1, fx1, cached)
        else if v2x cv \<le> 0 \<or> v2y cv \<le> 0 then Some (m2, fx1, black w h)
        else map_option (\<lambda>(m3, img). (m3, fx1, img))
          (render_scene G R page idx w h useIBL iblPath cv x m2)) = Some (m', fx, img)"
      using assms 3 x d unfolding RenderModel_def Let_def cached_def m2_def cv_def by simp
    have "fx1 = fx" using r by (auto split: if_splits)
    note d = d [unfolded this]
    show thesis
    proof (cases "\<not> m_HasChanged x \<and> img_w cached = w \<and> img_h cached = h")
      case True
      then show thesis using r hit [OF x _ _ _ _ _ 3(2,3,1)] d by (auto simp: cached_def)
    next
      case False
      then show thesis
        using r canvas [OF x d] drawn [OF x d _ 3(2,3,1), of cv] m2_def
        by (auto split: if_splits)
    qed
  qed
qed

text \<open>C26: the image cache is coherent: once a model has been drawn at some size, asking for it again
  returns the same image and changes nothing; the renderer is not called and no prompt is posted.\<close>

theorem RenderModel_idempotent:
  assumes "manager_inv m" and "RenderModel G R page idx w h m = Some (m1, fx, img)"
    and "img_content img = Pixels px"
  shows "RenderModel G R page idx w h m1 = Some (m1, [], img)"
  using assms(2)
proof (cases rule: RenderModel_cases)
  case disabled
  then show ?thesis using assms(3) by (simp add: black_def)
next
  case empty
  then show ?thesis using assms(3) by (simp add: black_def)
next
  case canvas
  then show ?thesis using assms(3) by (simp add: black_def)
next
  case (hit x useIBL iblPath)
  note f = ibl_decision_frame [OF hit(2)]
  have "ibl_decision R page idx (sImageName (mFile x)) m1 = (m1, [], useIBL, iblPath)"
    by (rule ibl_decision_again [OF hit(2)]) simp_all
  moreover have "model_at m1 page idx = Some x" using hit(1) f(2) model_at_cong by metis
  ultimately show ?thesis using hit f by (simp add: RenderModel_def)
next
  case (drawn x m2 useIBL iblPath canvas)
  let ?m = "ensureHeadlessRenderer (rd_fileExists R) m"
  let ?m3 = "EnsureCachedRequestSize page m2"
  note f = ibl_decision_frame [OF drawn(2)]
  obtain cs where m3: "?m3 = m2\<lparr>m_CachedRequestSizes := cs\<rparr>"
    using recached_Ensure by (auto simp: recached_def)
  obtain z m4 where z: "mFile z = mFile x" "\<not> m_HasChanged z"
    and m4: "m4 = ?m3 \<or> (\<exists>d. m4 = ?m3\<lparr>r_drawMode := d, g_lastPage := page, g_lastModel := idx\<rparr>)"
    and m1: "m1 = (set_model page idx z m4)\<lparr>m_ModelImages :=
       (m_ModelImages ?m3)[page := (m_ModelImages ?m3 ! page)[idx := img]]\<rparr>"
    and img: "img_w img = w" "img_h img = h"
    using drawn(3) assms(3) by (cases rule: render_scene_cases) auto
  have "ibl_decision R page idx (sImageName (mFile x)) m1 = (m1, [], useIBL, iblPath)"
    using m4 m1 m3 by (intro ibl_decision_again [OF drawn(2)]) (auto simp: set_model_def)
  moreover have "m_Models m4 = m_Models ?m" using f(2) m3 m4 by auto
  then have "model_at m4 page idx = Some x" using drawn(1) model_at_cong by metis
  then have "model_at m1 page idx = Some z"
    using m1 model_at_set_same model_at_cong [of m1 "set_model page idx z m4"] by simp
  moreover have "manager_inv ?m" using assms(1) ensureHeadlessRenderer_frame(3) by blast
  then have "m_ModelImages m1 ! page ! idx = img"
    using m1 m3 f(1) images_range [OF _ drawn(1)] by simp
  moreover have "m_HeadlessRenderer m1"
    using drawn(6) f(3) m1 m3 m4 by (auto simp: set_model_def)
  ultimately show ?thesis using z img drawn(4,5) by (simp add: RenderModel_def)
qed

definition sample_renderer :: "unit renderer" where
  "sample_renderer = \<lparr>rd_fileExists = (\<lambda>_. True), rd_envDir = None, rd_dataDir = ''/d'',
     rd_queueMesh = (\<lambda>_ _ _ _ _. \<lparr>q_material = True, q_color = False, q_line = False,
        q_transparent = False, q_point = False\<rparr>),
     rd_render = (\<lambda>_ _ _ _ _ _ _. Some sample_frame), rd_toRGB32 = id\<rparr>"

lemma sample_ready: "m_HeadlessRenderer (ensureHeadlessRenderer (rd_fileExists sample_renderer) sample_manager)"
  by (simp add: ensureHeadlessRenderer_def sample_renderer_def sample_manager_def
      V3dModelManager_new_def Let_def shaderSearchPaths_def list_all_iff)

theorem RenderModel_idempotent_witness:
  "\<exists>m1 fx img. RenderModel unit_glm sample_renderer 0 0 2 2 sample_manager = Some (m1, fx, img) \<and>
     RenderModel unit_glm sample_renderer 0 0 2 2 m1 = Some (m1, [], img)"
proof -
  let ?m = "ensureHeadlessRenderer (rd_fileExists sample_renderer) sample_manager"
  have f: "sImageName (mFile sample_model) = []" "m_HasChanged sample_model" "model_at ?m 0 0 = Some sample_model"
    "cached_size ?m 0 = V2 600 400"
    by (simp_all add: sample_model_def V3dModel_new_def initProjection_def sample_info_def Let_def
        model_at_def ensureHeadlessRenderer_frame cached_size_def)
       (simp_all add: ensureHeadlessRenderer_def sample_manager_def split: option.split)
  have "\<exists>px. read_back 2 2 sample_frame = Some px"
    using read_back_exact_witness by blast
  then obtain px where px: "read_back 2 2 sample_frame = Some px" ..
  have "\<exists>m1 img. RenderModel unit_glm sample_renderer 0 0 2 2 sample_manager = Some (m1, [], img) \<and>
      img_content img = Pixels px"
    using f sample_ready px
    by (simp add: RenderModel_def Let_def ibl_decision_def ibl_lookup_def render_scene_def
        hasRenderableData_def sample_renderer_def)
  then obtain m1 img where "RenderModel unit_glm sample_renderer 0 0 2 2 sample_manager = Some (m1, [], img)"
    "img_content img = Pixels px" by blast
  with RenderModel_idempotent [OF sample_inv(1) this] show ?thesis by blast
qed

section \<open>Prompts are posted once\<close>

fun prompted :: "effect list \<Rightarrow> string list" where
  "prompted [] = []"
| "prompted (PostPrompt n b # fx) = n # prompted fx"
| "prompted (_ # fx) = prompted fx"

lemma prompted_append [simp]: "prompted (fx @ fx') = prompted fx @ prompted fx'"
  by (induction fx rule: prompted.induct) auto

lemma render_scene_prompts:
  assumes "render_scene G R page idx w h useIBL iblPath canvas x m = Some (m', img)"
  shows "pendingPrompts m' = pendingPrompts m"
  using assms by (cases rule: render_scene_cases) (auto simp: set_model_def)

lemma Ensure_prompts [simp]: "pendingPrompts (EnsureCachedRequestSize p m) = pendingPrompts m"
  by (simp add: EnsureCachedRequestSize_def)

lemma ibl_decision_prompts:
  assumes "ibl_decision R page idx name m = (m1, fx, useIBL, iblPath)"
  shows "distinct (prompted fx) \<and> set (prompted fx) \<inter> pendingPrompts m = {} \<and>
    pendingPrompts m1 = pendingPrompts m \<union> set (prompted fx)"
  using assms by (cases rule: ibl_decision_cases) auto

lemma RenderModel_prompts:
  assumes "RenderModel G R page idx w h m = Some (m', fx, img)"
  shows "distinct (prompted fx) \<and> set (prompted fx) \<inter> pendingPrompts m = {} \<and>
    pendingPrompts m' = pendingPrompts m \<union> set (prompted fx)"
  using assms
proof (cases rule: RenderModel_cases)
  case (hit x useIBL iblPath)
  then show ?thesis using ibl_decision_prompts ensureHeadlessRenderer_frame(4) by metis
next
  case (canvas x m1 useIBL iblPath)
  then show ?thesis
    using ibl_decision_prompts [OF canvas(2)] ensureHeadlessRenderer_frame(4) [of "rd_fileExists R" m]
    by simp
next
  case (drawn x m1 useIBL iblPath cv)
  then show ?thesis
    using ibl_decision_prompts [OF drawn(2)] render_scene_prompts [OF drawn(3)]
      ensureHeadlessRenderer_frame(4) [of "rd_fileExists R" m] by simp
qed (simp_all add: ensureHeadlessRenderer_frame)

text \<open>A sequence of render requests, each with its own surroundings.\<close>

fun run_renders ::
  "'m glm \<Rightarrow> ('m renderer \<times> nat \<times> nat \<times> int \<times> int) list \<Rightarrow> 'm manager \<Rightarrow>
   ('m manager \<times> effect list) option" where
  "run_renders G [] m = Some (m, [])"
| "run_renders G ((R, page, idx, w, h) # rs) m =
     Option.bind (RenderModel G R page idx w h m) (\<lambda>(m1, fx, img).
       map_option (\<lambda>(m2, fx2). (m2, fx @ fx2)) (run_renders G rs m1))"


text \<open>A document whose models name an environment map that is not there.\<close>

definition sample_missing :: "unit renderer" where
  "sample_missing = sample_renderer\<lparr>rd_fileExists := (\<lambda>_. False)\<rparr>"

definition snow_model :: "unit V3dModel" where
  "snow_model = sample_model\<lparr>mFile := sample_info\<lparr>sImageName := ''snow''\<rparr>\<rparr>"

definition snow_manager :: "unit manager" where
  "snow_manager = sample_manager\<lparr>m_Models := [[snow_model]], m_ModelImages := [[QImage_null]],
     m_HeadlessRenderer := True\<rparr>"

lemma snow_name: "normalizeIBLName ''snow'' = ''snow''" "iblNameOK ''snow''"
  by code_simp+

lemma snow_render:
  assumes "m_Models m = [[snow_model]]" and "m_HeadlessRenderer m" and "cached_size m 0 = V2 600 400"
  shows "\<exists>m' img. RenderModel unit_glm sample_missing 0 0 2 2 m =
    Some (m', fst (snd (ibl_decision sample_missing 0 0 ''snow'' m)), img)"
proof -
  obtain m1 fx u ip where d: "ibl_decision sample_missing 0 0 ''snow'' m = (m1, fx, u, ip)"
    by (metis prod_cases4)
  have x: "model_at m 0 0 = Some snow_model" using assms by (simp add: model_at_def)
  have s: "sImageName (mFile snow_model) = ''snow''" "m_HasChanged snow_model"
    "mMinBound snow_model = V2 0 0" "mMaxBound snow_model = V2 1 1"
    by (simp_all add: snow_model_def)
       (simp add: sample_model_def V3dModel_new_def initProjection_def Let_def)
  have c: "cached_size m1 0 = V2 600 400"
    using d assms(3) by (cases rule: ibl_decision_cases) (auto simp: cached_size_def split: if_splits)
  have "\<exists>px. read_back 2 2 sample_frame = Some px"
    by (simp add: read_back_def sample_frame_def Let_def)
  then show ?thesis
    using assms(2) d x s c
    by (auto simp: RenderModel_def Let_def render_scene_def hasRenderableData_def sample_missing_def
        sample_renderer_def)
qed




section \<open>Downloads complete\<close>

definition tracked_flagged :: "'m manager \<Rightarrow> 'm manager \<Rightarrow> bool" where
  "tracked_flagged m m' \<longleftrightarrow> m_ModelsWithMissingIBL m' = {} \<and>
     (\<forall>p i. model_at m' p i = map_option
       (\<lambda>x. if (p, i) \<in> m_ModelsWithMissingIBL m then x\<lparr>m_HasChanged := True\<rparr> else x) (model_at m p i))"

lemma flag_changed_nth:
  assumes "p < length ms" and "i < length (ms ! p)"
  shows "flag_changed S ms ! p ! i =
    (if (p, i) \<in> S then (ms ! p ! i)\<lparr>m_HasChanged := True\<rparr> else ms ! p ! i)"
  using assms by (simp add: flag_changed_def nth_enumerate_eq)

lemma flag_changed_shape [simp]:
  "length (flag_changed S ms) = length ms"
  "p < length ms \<Longrightarrow> length (flag_changed S ms ! p) = length (ms ! p)"
  by (simp_all add: flag_changed_def nth_enumerate_eq)

lemma complete_flags: "tracked_flagged m (fst (onIBLDownloadComplete m))"
  by (auto simp: tracked_flagged_def onIBLDownloadComplete_def model_at_def flag_changed_nth)

fun run_replies :: "net_reply list \<Rightarrow> 'm manager \<Rightarrow> 'm manager \<times> effect list" where
  "run_replies [] m = (m, [])"
| "run_replies (r # rs) m =
     (case onIBLDownloadReplyFinished r m of (m1, fx) \<Rightarrow>
        (case run_replies rs m1 of (m2, fx2) \<Rightarrow> (m2, fx @ fx2)))"

lemma run_replies_pending:
  assumes "\<not> m_Destroying m" and "m_PendingDownloadCount m = int (length rs)" and "rs \<noteq> []"
  shows "\<exists>m' fx. run_replies rs m = (m', fx) \<and> m_PendingDownloadCount m' = 0 \<and>
    \<not> m_IBLNetManager m' \<and> tracked_flagged m m'"
  using assms
proof (induction rs arbitrary: m)
  case Nil
  then show ?case by simp
next
  case (Cons r rs)
  let ?m1 = "m\<lparr>m_PendingDownloadCount := m_PendingDownloadCount m - 1\<rparr>"
  have same: "tracked_flagged ?m1 u \<Longrightarrow> tracked_flagged m u" for u
    by (simp add: tracked_flagged_def model_at_def)
  show ?case
  proof (cases "rs = []")
    case True
    then have "m_PendingDownloadCount ?m1 = 0" using Cons.prems by simp
    then show ?thesis
      using Cons.prems True same [OF complete_flags]
      by (auto simp: onIBLDownloadReplyFinished_def Let_def onIBLDownloadComplete_def)
  next
    case False
    then have c: "m_PendingDownloadCount ?m1 = int (length rs)" "m_PendingDownloadCount ?m1 \<noteq> 0"
      using Cons.prems by simp_all
    obtain fx where "onIBLDownloadReplyFinished r m = (?m1, fx)"
      using Cons.prems c by (simp add: onIBLDownloadReplyFinished_def Let_def)
    moreover obtain m' fx' where "run_replies rs ?m1 = (m', fx')" "m_PendingDownloadCount m' = 0"
      "\<not> m_IBLNetManager m'" "tracked_flagged ?m1 m'"
      using Cons.IH [of ?m1] c(1) Cons.prems False by auto
    ultimately show ?thesis using same by simp
  qed
qed

lemma refl_no_slash: "n @ slash # l \<noteq> ''refl.exr''"
proof
  assume "n @ slash # l = ''refl.exr''"
  then have "slash \<in> set ''refl.exr''" by (metis in_set_conv_decomp)
  then show False by simp
qed

lemma length_pending_tasks:
  "length (pending_tasks ex base name) = (if ex (base @ ''/refl.exr'') then 12 else 13)"
proof -
  let ?P = "\<lambda>(remote, local). \<not> (local = base @ ''/refl.exr'' \<and> ex local)"
  let ?rest = "tl (download_tasks base name)"
  have rest: "filter ?P ?rest = ?rest"
    unfolding filter_id_conv
    using refl_no_slash [of name] refl_no_slash [of _ "''diffuse.exr''"]
    by (auto simp: download_tasks_def Let_def)
  have hd: "download_tasks base name = (''refl.exr'', base @ ''/refl.exr'') # ?rest"
    by (simp add: download_tasks_def Let_def)
  have "length ?rest = 12" by (simp add: download_tasks_def Let_def layer_names_def)
  moreover have "filter ?P (download_tasks base name) =
      (if ex (base @ ''/refl.exr'') then ?rest else (''refl.exr'', base @ ''/refl.exr'') # ?rest)"
    by (subst hd, simp only: filter.simps rest) simp
  ultimately show ?thesis by (simp add: pending_tasks_def)
qed

text \<open>C29: a download the user agreed to always finishes: it requests 12 or 13 files, and after that
  many replies, successful or not and in any order, the network manager is released, no model is
  tracked any more, and exactly the tracked models are marked for another rendering.\<close>

theorem download_completes:
  assumes "p_yes pr" and "p_mkEnvDir pr" and "p_baseReady pr" and "iblNameOK (normalizeIBLName name)"
    and "\<not> m_Destroying m" and "performIBLDownload R pr name base m = (m1, fx)"
    and "length rs = length fx"
  shows "length fx \<in> {12, 13} \<and> (\<exists>m2 fx2. run_replies rs m1 = (m2, fx2) \<and>
    m_PendingDownloadCount m2 = 0 \<and> \<not> m_IBLNetManager m2 \<and> tracked_flagged m m2)"
proof -
  let ?tasks = "pending_tasks (rd_fileExists R) (if base = [] then rd_dataDir R @ ''/okular/ibl'' else base)
    (normalizeIBLName name)"
  have len: "length ?tasks \<in> {12, 13}" unfolding length_pending_tasks by simp
  then have "?tasks \<noteq> []" by auto
  then have m1: "m1 = m\<lparr>m_IBLNetManager := True, m_PendingDownloadCount := int (length ?tasks)\<rparr>"
    and fx: "length fx = length ?tasks"
    using assms(1-4,6) by (auto simp: performIBLDownload_def Let_def)
  have "rs \<noteq> []" using assms(7) fx \<open>?tasks \<noteq> []\<close> by auto
  then obtain m2 fx2 where "run_replies rs m1 = (m2, fx2)" "m_PendingDownloadCount m2 = 0"
    "\<not> m_IBLNetManager m2" "tracked_flagged m1 m2"
    using run_replies_pending [of m1 rs] m1 fx assms(5,7) by auto
  moreover have "tracked_flagged m m2" if "tracked_flagged m1 m2"
    using that m1 by (simp add: tracked_flagged_def model_at_def)
  ultimately show ?thesis using fx len by (auto split: if_splits)
qed

theorem download_completes_witness:
  "\<exists>m1 fx m2 fx2. performIBLDownload sample_missing \<lparr>p_yes = True, p_mkEnvDir = True, p_baseReady = True,
        p_urlEnv = None\<rparr> ''snow'' ''/d'' snow_manager = (m1, fx) \<and>
     run_replies (replicate (length fx) \<lparr>nr_localPath = ''f'', nr_error = True, nr_html = False,
        nr_data = [], nr_writable = True\<rparr>) m1 = (m2, fx2) \<and> m_PendingDownloadCount m2 = 0"
proof -
  let ?pr = "\<lparr>p_yes = True, p_mkEnvDir = True, p_baseReady = True, p_urlEnv = None\<rparr>"
  obtain m1 fx where p: "performIBLDownload sample_missing ?pr ''snow'' ''/d'' snow_manager = (m1, fx)"
    by (metis prod.exhaust)
  have "\<not> m_Destroying snow_manager"
    by (simp add: snow_manager_def sample_manager_def V3dModelManager_new_def Let_def)
  with download_completes [OF _ _ _ _ _ p, of "replicate (length fx) \<lparr>nr_localPath = ''f'',
      nr_error = True, nr_html = False, nr_data = [], nr_writable = True\<rparr>"] p snow_name
  show ?thesis by auto
qed

section \<open>A downloaded map is found\<close>

text \<open>C30: a complete download is found: for a map name without a slash, once every file that
  \<open>performIBLDownload\<close> fetches is in place, \<open>resolveIBLPath\<close> returns its directory.\<close>

theorem download_resolves:
  assumes "normalizeIBLName name = n" and "iblNameOK n" and "n \<noteq> []" and "slash \<notin> set n"
    and "\<forall>(remote, local) \<in> set (download_tasks (getIBLBase envDir dataDir) n). ex local"
  shows "resolveIBLPath ex envDir dataDir name = getIBLBase envDir dataDir @ [slash] @ n"
proof -
  have "name \<noteq> []" using assms(1,3) by (auto simp: normalizeIBLName_def pop_slashes.simps)
  moreover have "tryIBLDir ex (getIBLBase envDir dataDir @ slash # n) = getIBLBase envDir dataDir @ slash # n"
    using assms(5) tryIBLDir_eq [OF assms(4,3)]
    by (auto simp: download_tasks_def Let_def list_all_iff)
  ultimately show ?thesis using assms(1-3) by (simp add: resolveIBLPath_def)
qed

theorem download_resolves_witness:
  "resolveIBLPath (\<lambda>p. p \<in> set (map snd (download_tasks ''/d/okular/ibl'' ''snow''))) None ''/d'' ''snow'' =
     ''/d/okular/ibl/snow''"
proof -
  have all: "\<forall>(r, l) \<in> set ts. l \<in> set (map snd ts)" for ts :: "(string \<times> string) list" by force
  have "getIBLBase None ''/d'' = ''/d/okular/ibl''" by (simp add: getIBLBase_def)
  with download_resolves [OF snow_name, of None "''/d''"
      "\<lambda>p. p \<in> set (map snd (download_tasks ''/d/okular/ibl'' ''snow''))"]
    all [of "download_tasks ''/d/okular/ibl'' ''snow''"]
  show ?thesis by simp
qed

text \<open>C31: a map whose name contains a directory is never found after its download: \<open>resolveIBLPath\<close>
  looks for the common \<open>refl.exr\<close> beside the map, while \<open>performIBLDownload\<close> stores it at the top
  of the library only.\<close>

theorem nested_download_unresolved:
  assumes "normalizeIBLName name = d @ [slash] @ b" and "d \<noteq> []" and "b \<noteq> []" and "slash \<notin> set b"
    and "\<forall>p. ex p \<longleftrightarrow> p \<in> snd ` set (download_tasks (getIBLBase envDir dataDir) (d @ [slash] @ b))"
  shows "resolveIBLPath ex envDir dataDir name = []"
proof -
  let ?base = "getIBLBase envDir dataDir"
  have ns: "b @ slash # l \<noteq> ''refl.exr''" for l by (rule refl_no_slash)
  have "d @ slash # ''refl.exr'' \<noteq> ''refl.exr''" by (rule refl_no_slash)
  moreover have "l \<noteq> []" if "l \<in> set layer_names" for l using that by (auto simp: layer_names_def)
  ultimately have "\<not> ex (?base @ slash # d @ ''/refl.exr'')"
    using assms(5) ns [symmetric] by (auto simp: download_tasks_def Let_def)
  then have "tryIBLDir ex ((?base @ slash # d) @ slash # b) = []"
    unfolding tryIBLDir_eq [OF assms(4,3)] by simp
  then show ?thesis using assms(1) by (simp add: resolveIBLPath_def Let_def)
qed

theorem nested_download_unresolved_witness:
  "resolveIBLPath (\<lambda>p. p \<in> snd ` set (download_tasks ''/d/okular/ibl'' ''sky/snow'')) None ''/d'' ''sky/snow'' = []"
proof -
  have "normalizeIBLName ''sky/snow'' = ''sky'' @ [slash] @ ''snow''" by code_simp
  from nested_download_unresolved [OF this, of "\<lambda>p. p \<in> snd ` set (download_tasks ''/d/okular/ibl'' ''sky/snow'')"
      None "''/d''"] show ?thesis by (simp add: getIBLBase_def)
qed

end
