(* ===== verification/ManagerSystem.thy ===== *)
theory ManagerSystem
  imports ManagerRender
begin

text \<open>
  The manager as a state machine: every entry point that Qt, Okular or a generator calls is a step
  (mouse filter, application filter, pixmap requests, models added while a document is loaded,
  \<open>SetDocument\<close>, rendering, prompts, network replies and refresh timers). The invariant of
  \<open>ManagerEvents\<close> holds in every reachable state, so no handler faults, and the drag state refines
  an automaton with the states "idle" and "dragging a model".
\<close>

section \<open>Every entry point preserves the invariant\<close>

lemma manager_inv_unrelated_render [simp]:
  "manager_inv (m\<lparr>r_drawMode := d\<rparr>) = manager_inv m"
  "manager_inv (m\<lparr>g_lastPage := n\<rparr>) = manager_inv m"
  "manager_inv (m\<lparr>g_lastModel := n\<rparr>) = manager_inv m"
  "manager_inv (m\<lparr>m_IBLNetManager := b\<rparr>) = manager_inv m"
  "manager_inv (m\<lparr>m_PendingDownloadCount := i\<rparr>) = manager_inv m"
  "manager_inv (m\<lparr>m_IBLDeclinedNames := ns\<rparr>) = manager_inv m"
  "manager_inv (m\<lparr>m_ModelsWithMissingIBL := ps\<rparr>) = manager_inv m"
  by (simp_all add: manager_inv_def)

lemma fst_case_append: "fst (case f of (a, b) \<Rightarrow> (a, c @ b)) = fst f"
  by (simp split: prod.split)

lemma resize_to_nth: "p < length xs \<Longrightarrow> resize_to z n xs ! p = xs ! p"
  by (simp add: resize_to_def nth_append)

lemma resize_to_length: "length (resize_to z n xs) = max n (length xs)"
  by (simp add: resize_to_def)

lemma resize_to_new: "length xs \<le> p \<Longrightarrow> p < n \<Longrightarrow> resize_to z n xs ! p = z"
  by (simp add: resize_to_def nth_append)

lemma set_resize_to: "x \<in> set (resize_to [] n xs) \<Longrightarrow> x \<in> set xs \<or> x = []"
  by (auto simp: resize_to_def split: if_splits)

lemma map_resize_to: "map f (resize_to z n xs) = resize_to (f z) n (map f xs)"
  by (simp add: resize_to_def)

lemma zoom_ok_init: "sZoom (mFile x) \<noteq> 0 \<Longrightarrow> zoom_ok (initProjection x)"
  by (simp add: zoom_ok_def initProjection_def Let_def)

lemma AddModel_inv:
  assumes "manager_inv m" and "\<not> m_Dragging m" and "sZoom (mFile x) \<noteq> 0"
  shows "manager_inv (AddModel ex x page m)"
proof -
  let ?m = "ensureHeadlessRenderer ex m"
  let ?ms = "resize_to [] (page + 1) (m_Models ?m)" and ?is = "resize_to [] (page + 1) (m_ModelImages ?m)"
  have v: "view_inv (m_Models m) (m_ModelImages m) False None (- 1)"
    using assms(1,2) by (auto simp: manager_inv_def view_inv_def split: option.splits)
  have shape: "map length ?is = map length ?ms"
    using v by (simp add: map_resize_to ensureHeadlessRenderer_frame view_inv_def)
  have at: "length (?is ! page) = length (?ms ! page)"
  proof -
    have "page < length ?is" "page < length ?ms" by (simp_all add: resize_to_length)
    then show ?thesis using shape by (metis nth_map)
  qed
  have "map length (?is[page := ?is ! page @ [QImage_null]]) =
      map length (?ms[page := ?ms ! page @ [initProjection x]])"
    using shape at by (simp add: map_update)
  moreover have "zoom_ok y" if "xs \<in> set (?ms[page := ?ms ! page @ [initProjection x]])" "y \<in> set xs" for xs y
  proof -
    have old: "zoom_ok u" if "us \<in> set ?ms" "u \<in> set us" for us u
      using v that set_resize_to [of us "page + 1" "m_Models ?m"]
      by (auto simp: ensureHeadlessRenderer_frame view_inv_def)
    have "page < length ?ms" by (simp add: resize_to_length)
    then have mem: "?ms ! page \<in> set ?ms" by simp
    have "xs \<in> set ?ms \<or> xs = ?ms ! page @ [initProjection x]"
      using that(1) set_update_subset_insert by fastforce
    then show ?thesis using that(2) old mem zoom_ok_init [OF assms(3)] by auto
  qed
  moreover have "\<not> m_Dragging ?m" "m_ActiveModel ?m = None" "m_ActiveModelPage ?m = - 1"
    using assms(1,2)
    by (auto simp: manager_inv_def view_inv_def ensureHeadlessRenderer_def split: option.splits)
  ultimately show ?thesis
    by (simp add: AddModel_def Let_def manager_inv_def view_inv_def)
qed

lemma CacheRequest_inv:
  assumes "manager_inv m" and "CacheRequest e r m = (m', fx)"
  shows "manager_inv m'"
proof -
  obtain m1 fx1 where n: "note_observer r m = (m1, fx1)" by (metis prod.exhaust)
  have 1: "manager_inv m1"
    using assms(1) n by (auto simp: note_observer_def Let_def split: if_splits)
  have c: "manager_inv (cacheRequestSizeUnlocked e p w h q u) = manager_inv u" for p w h q and u :: "'a manager"
    by (simp add: cacheRequestSizeUnlocked_def Let_def)
  have g: "manager_inv (cachePageUnlocked p q u) = manager_inv u" for p q and u :: "'a manager"
    by (simp add: cachePageUnlocked_def)
  show ?thesis
    using assms(2) 1 n c g by (auto simp: CacheRequest_def Let_def split: if_splits)
qed

lemma view_inv_images:
  "view_inv ms is d a p \<Longrightarrow> map length is' = map length is \<Longrightarrow> view_inv ms is' d a p"
  by (simp add: view_inv_def)

lemma render_scene_inv:
  assumes "manager_inv m" and "model_at m page idx = Some x"
    and "render_scene G R page idx w h useIBL iblPath canvas x m = Some (m', img)"
  shows "manager_inv m'"
  using assms(3)
proof (cases rule: render_scene_cases)
  case (1 z m1)
  have i1: "manager_inv m1" and ms: "m_Models m1 = m_Models m"
    and im: "m_ModelImages m1 = m_ModelImages m"
    using 1(5) assms(1) by auto
  have x1: "model_at m1 page idx = Some x" using model_at_cong [OF ms] assms(2) by simp
  have iz: "manager_inv (set_model page idx z m1)"
    by (rule set_model_inv [OF i1 x1]) (use 1 model_at_zoom_ok [OF assms(1,2)] in auto)
  have len: "map length ((m_ModelImages m)[page := (m_ModelImages m ! page)[idx := img]]) =
      map length (m_ModelImages m)"
    by (simp add: map_update list_update_same_conv images_range [OF assms(1,2)])
  from 1(6) show ?thesis
  proof
    assume "m' = set_model page idx z m1 \<and> (\<forall>px. img_content img \<noteq> Pixels px)"
    then show ?thesis using iz by simp
  next
    assume "\<not> m_HasChanged z \<and> m' = (set_model page idx z m1)\<lparr>m_ModelImages :=
       (m_ModelImages m)[page := (m_ModelImages m ! page)[idx := img]]\<rparr>"
    then show ?thesis
      using view_inv_images [OF _ len] iz im by (simp add: manager_inv_def set_model_def)
  qed
qed

lemma RenderModel_inv:
  assumes "manager_inv m" and "RenderModel G R page idx w h m = Some (m', fx, img)"
  shows "manager_inv m'"
  using assms(2)
proof (cases rule: RenderModel_cases)
  case (hit x useIBL iblPath)
  then show ?thesis using ibl_decision_frame(4) ensureHeadlessRenderer_frame(3) assms(1) by metis
next
  case (canvas x m1 useIBL iblPath)
  then show ?thesis
    using ibl_decision_frame(4) [OF canvas(2)] ensureHeadlessRenderer_frame(3) assms(1)
      manager_inv_recached [OF recached_Ensure] by metis
next
  case (drawn x m1 useIBL iblPath cv)
  have "manager_inv (EnsureCachedRequestSize page m1)"
    using ibl_decision_frame(4) [OF drawn(2)] ensureHeadlessRenderer_frame(3) assms(1)
      manager_inv_recached [OF recached_Ensure] by metis
  moreover have "model_at (EnsureCachedRequestSize page m1) page idx = Some x"
    using drawn(1) ibl_decision_frame(2) [OF drawn(2)] recached_frame(4) [OF recached_Ensure]
      model_at_cong by metis
  ultimately show ?thesis using render_scene_inv drawn(3) by blast
qed (use assms ensureHeadlessRenderer_frame(3) in blast)+

lemma flag_changed_inv:
  assumes "view_inv ms is d a p"
  shows "view_inv (flag_changed S ms) is d a p"
proof -
  have shape: "map length (flag_changed S ms) = map length ms"
    by (rule nth_equalityI) simp_all
  have zoom: "zoom_ok y" if mem: "xs \<in> set (flag_changed S ms)" "y \<in> set xs" for xs y
  proof -
    obtain q where q: "q < length ms" "xs = flag_changed S ms ! q"
      using mem(1) unfolding in_set_conv_nth by auto
    then obtain j where j: "j < length (ms ! q)" "y = flag_changed S ms ! q ! j"
      using mem(2) unfolding in_set_conv_nth by auto
    have "ms ! q \<in> set ms" "ms ! q ! j \<in> set (ms ! q)" using q(1) j(1) by simp_all
    then have "zoom_ok (ms ! q ! j)" using assms unfolding view_inv_def by blast
    then show ?thesis using q j flag_changed_nth [OF q(1) j(1), of S] by (simp add: zoom_ok_def)
  qed
  have "proper_bounds (flag_changed S ms ! q ! j) = proper_bounds (ms ! q ! j)"
    if "q < length ms" "j < length (ms ! q)" for q j
    using flag_changed_nth [OF that, of S] by (simp add: proper_bounds_def)
  then have "case a of None \<Rightarrow> p = - 1 | Some (q, j) \<Rightarrow> p = int q \<and> q < length (flag_changed S ms) \<and>
      j < length (flag_changed S ms ! q) \<and> proper_bounds (flag_changed S ms ! q ! j)"
    using assms by (cases a) (simp_all add: view_inv_def split: prod.splits)
  with shape zoom assms show ?thesis unfolding view_inv_def by simp
qed

lemma onIBLDownloadComplete_inv: "manager_inv m \<Longrightarrow> manager_inv (fst (onIBLDownloadComplete m))"
  by (simp add: onIBLDownloadComplete_def manager_inv_def flag_changed_inv)

lemma reply_inv: "manager_inv m \<Longrightarrow> manager_inv (fst (onIBLDownloadReplyFinished r m))"
  by (simp add: onIBLDownloadReplyFinished_def Let_def fst_case_append onIBLDownloadComplete_inv)

lemma performIBLDownload_inv:
  assumes "manager_inv m"
  shows "manager_inv (fst (performIBLDownload R pr name base m))"
proof -
  have "manager_inv (fst (declineIBL n m))" for n
    by (simp add: declineIBL_def Let_def assms)
  then show ?thesis
    using assms by (simp add: performIBLDownload_def Let_def fst_case_append onIBLDownloadComplete_inv)
qed

section \<open>Steps and reachable states\<close>

text \<open>Events reach the mouse filter from a live widget. Models are added while a document is being
  loaded, never during a drag (the active model is a pointer into the vector), with the non-zero
  zoom that the projection divides by.\<close>

inductive step :: "'m glm \<Rightarrow> 'm manager \<Rightarrow> 'm manager \<Rightarrow> bool" for G where
  mouse: "EventFilter_eventFilter G e w ev m = Some (m', fx, b) \<Longrightarrow> e_alive e w \<Longrightarrow> step G m m'"
| application: "ApplicationEventFilter_eventFilter G e w ev m = Some (m', fx, b) \<Longrightarrow> step G m m'"
| request: "CacheRequest e r m = (m', fx) \<Longrightarrow> step G m m'"
| model: "\<not> m_Dragging m \<Longrightarrow> sZoom (mFile x) \<noteq> 0 \<Longrightarrow> step G m (AddModel ex x page m)"
| document: "step G m (SetDocument d m)"
| render: "RenderModel G R page idx w h m = Some (m', fx, img) \<Longrightarrow> step G m m'"
| prompt: "IBLEventFilter_prompt R pr name base m = (m', fx) \<Longrightarrow> step G m m'"
| reply: "onIBLDownloadReplyFinished r m = (m', fx) \<Longrightarrow> step G m m'"
| timer: "refreshTimer_fired e page m = Some (m', fx) \<Longrightarrow> step G m m'"

inductive reachable :: "'m glm \<Rightarrow> 'm manager \<Rightarrow> bool" for G where
  start: "reachable G (V3dModelManager_new e d)"
| next_state: "reachable G m \<Longrightarrow> step G m m' \<Longrightarrow> reachable G m'"

inductive_cases stepE: "step G m m'"
inductive_cases reachableE: "reachable G m"

lemma ApplicationEventFilter_inv:
  assumes "manager_inv m" and "ApplicationEventFilter_eventFilter G e w ev m = Some (m', fx, b)"
  shows "manager_inv m'"
proof (cases "(\<exists>k. ev = KeyPress k) \<and> \<not> source_ok e m")
  case False
  then have "inv_ok (ApplicationEventFilter_eventFilter G e w ev m)"
    using assms(1) ApplicationEventFilter_ok ApplicationEventFilter_no_key_ok by metis
  then show ?thesis using assms(2) by simp
next
  case True
  then obtain k where k: "ev = KeyPress k" and d: "GetPageMouseIsOver e m = None"
    using hit_fails_on_dangling_source by blast
  have "m' = m"
    using assms(2) k d
    by (auto simp: ApplicationEventFilter_eventFilter_def keyPressEvent_def split: if_splits)
  then show ?thesis using assms(1) by simp
qed

lemma step_inv: "step G m m' \<Longrightarrow> manager_inv m \<Longrightarrow> manager_inv m'"
proof (induction rule: step.induct)
  case (mouse e w ev m m' fx b)
  then show ?case using EventFilter_ok [of m e w G ev] by simp
next
  case (application e w ev m m' fx b)
  then show ?case using ApplicationEventFilter_inv by blast
next
  case (request e r m m' fx)
  then show ?case using CacheRequest_inv by blast
next
  case (model m x ex page)
  then show ?case by (simp add: AddModel_inv)
next
  case (document m d)
  then show ?case by simp
next
  case (render R page idx w h m m' fx img)
  then show ?case using RenderModel_inv by blast
next
  case (prompt R pr name base m m' fx)
  then show ?case
    using performIBLDownload_inv [of m R pr name base]
    by (auto simp: IBLEventFilter_prompt_def split: if_splits)
next
  case (reply r m m' fx)
  then show ?case using reply_inv [of m r] by simp
next
  case (timer e page m m' fx)
  then show ?case
    using refreshPixmap_frame [of e page m m' fx] by (auto simp: refreshTimer_fired_def split: if_splits)
qed

lemma reachable_inv: "reachable G m \<Longrightarrow> manager_inv m"
  by (induction rule: reachable.induct) (auto intro: step_inv)

text \<open>C22: in every state the manager can reach, the image cache has the shape of the models, no zoom
  is zero, and a drag is in progress exactly when there is an active model, which exists on the
  recorded page and covers an area of it.\<close>

theorem reachable_consistent:
  assumes "reachable G m"
  shows "map length (m_ModelImages m) = map length (m_Models m) \<and>
    (m_Dragging m \<longleftrightarrow> m_ActiveModel m \<noteq> None) \<and>
    (\<forall>p i. m_ActiveModel m = Some (p, i) \<longrightarrow> m_ActiveModelPage m = int p \<and>
       (\<exists>x. model_at m p i = Some x \<and> proper_bounds x \<and> Zoom x \<noteq> 0))"
proof -
  have v: "manager_inv m" using assms by (rule reachable_inv)
  have "\<exists>x. model_at m p i = Some x \<and> proper_bounds x \<and> Zoom x \<noteq> 0"
    if a: "m_ActiveModel m = Some (p, i)" for p i
  proof -
    have "model_at m p i = Some (m_Models m ! p ! i)" "proper_bounds (m_Models m ! p ! i)"
      using v a by (simp_all add: manager_inv_def view_inv_def model_at_def)
    then show ?thesis using model_at_zoom_ok [OF v] by (auto simp: zoom_ok_def)
  qed
  then show ?thesis using v by (auto simp: manager_inv_def view_inv_def)
qed

definition sample_state :: "unit manager" where
  "sample_state = AddModel (\<lambda>_. True) sample_model 0 (V3dModelManager_new sample_env True)"

lemma sample_state_reachable: "reachable unit_glm sample_state"
  unfolding sample_state_def
proof (rule reachable.next_state [OF reachable.start])
  show "step unit_glm (V3dModelManager_new sample_env True)
      (AddModel (\<lambda>_. True) sample_model 0 (V3dModelManager_new sample_env True))"
    by (rule step.model)
       (simp_all add: V3dModelManager_new_def Let_def sample_model_def V3dModel_new_def
        initProjection_def sample_info_def)
qed

theorem reachable_consistent_witness:
  "m_Dragging sample_state \<longleftrightarrow> m_ActiveModel sample_state \<noteq> None"
  using reachable_consistent [OF sample_state_reachable] by blast



section \<open>The drag state refines an automaton\<close>

text \<open>Runs of a component that may fault, and what an observer sees of each input.\<close>

fun run_conc :: "('i \<Rightarrow> 's \<Rightarrow> 's option) \<Rightarrow> 'i list \<Rightarrow> 's \<Rightarrow> 's option" where
  "run_conc f [] s = Some s"
| "run_conc f (i # is) s = Option.bind (f i s) (run_conc f is)"

fun observations :: "('i \<Rightarrow> 's \<Rightarrow> 's option) \<Rightarrow> ('i \<Rightarrow> 's \<Rightarrow> 'o) \<Rightarrow> 'i list \<Rightarrow> 's \<Rightarrow> 'o list" where
  "observations f obs [] s = []"
| "observations f obs (i # is) s =
     obs i s # (case f i s of None \<Rightarrow> [] | Some s' \<Rightarrow> observations f obs is s')"

locale simulation =
  fixes conc :: "'i \<Rightarrow> 's \<Rightarrow> 's option"
    and obs :: "'i \<Rightarrow> 's \<Rightarrow> 'o"
    and abs :: "'s \<Rightarrow> 'a"
    and spec :: "'a \<Rightarrow> 'o \<Rightarrow> 'a"
  assumes simulates: "conc i s = Some s' \<Longrightarrow> abs s' = spec (abs s) (obs i s)"
begin

lemma run_simulates:
  "run_conc conc is s = Some s' \<Longrightarrow> abs s' = foldl spec (abs s) (observations conc obs is s)"
proof (induction "is" arbitrary: s)
  case Nil
  then show ?case by simp
next
  case (Cons i "is")
  then obtain u where "conc i s = Some u" "run_conc conc is u = Some s'"
    by (auto elim: bind_SomeE)
  then show ?case using Cons.IH simulates by simp
qed

end

datatype drag_input = Grab "nat \<times> nat" | Drop | Ignore

fun drag_spec :: "(nat \<times> nat) option \<Rightarrow> drag_input \<Rightarrow> (nat \<times> nat) option" where
  "drag_spec s (Grab h) = Some h"
| "drag_spec s Drop = None"
| "drag_spec s Ignore = s"

definition cursor_model :: "env \<Rightarrow> 'm manager \<Rightarrow> (nat \<times> nat) option" where
  "cursor_model e m =
     (case GetPageMouseIsOver e m of
        Some (Some page, m1) \<Rightarrow>
          if page \<ge> length (m_Models m1) then None
          else (case GetNormalizedPositionRelativeToPage e m1 (m_MousePosition m1) page of
                  Some (np, m2) \<Rightarrow> map_option (Pair page) (hit_model np (m_Models m2 ! page))
                | None \<Rightarrow> None)
      | _ \<Rightarrow> None)"

definition drag_obs :: "env \<times> wid \<times> qevent \<Rightarrow> 'm manager \<Rightarrow> drag_input" where
  "drag_obs i m =
     (case i of (e, w, ev) \<Rightarrow>
        if plain_document e m then Ignore
        else (case ev of
                MouseButtonPress pos l \<Rightarrow>
                  (case (l, cursor_model e ((noteEventSource w m)\<lparr>m_MousePosition := pos\<rparr>)) of
                     (True, Some h) \<Rightarrow> Grab h | _ \<Rightarrow> Ignore)
              | MouseButtonRelease l \<Rightarrow> if l then Drop else Ignore
              | _ \<Rightarrow> Ignore))"

definition deliver :: "'m glm \<Rightarrow> env \<times> wid \<times> qevent \<Rightarrow> 'm manager \<Rightarrow> 'm manager option" where
  "deliver G i m = (case i of (e, w, ev) \<Rightarrow> map_option fst (EventFilter_eventFilter G e w ev m))"

lemma noted_active [simp]: "m_ActiveModel (noteEventSource w m) = m_ActiveModel m"
  by (simp add: noteEventSource_def)

lemma recached_active: "recached m m' \<Longrightarrow> m_ActiveModel m' = m_ActiveModel m"
  by (rule recached_frame)

lemma refresh_active: "requestPixmapRefresh e p m = Some (m', fx) \<Longrightarrow> m_ActiveModel m' = m_ActiveModel m"
  using requestPixmapRefresh_frame by fastforce

lemma move_active_model:
  assumes "mouseMoveEvent G e pos k m = Some (m', fx, b)"
  shows "m_ActiveModel m' = m_ActiveModel m"
proof (cases "plain_document e m \<or> \<not> m_Dragging m")
  case True
  then show ?thesis using assms by (auto simp: mouseMoveEvent_def Let_def split: if_splits)
next
  case False
  let ?m = "m\<lparr>m_MousePosition := pos\<rparr>"
  obtain m1 m2 where 1: "move_active G e k ?m = Some m1"
    and 2: "requestPixmapRefresh e (size_t (m_ActiveModelPage m1)) m1 = Some (m2, fx)"
    and m': "m' = m2\<lparr>m_LastMousePosition := m_MousePosition m2\<rparr>"
    using assms False by (auto simp: mouseMoveEvent_def Let_def elim!: bind_pairE bind_SomeE)
  obtain p i y m3 where "recached ?m m3" "m1 = set_model p i y m3"
    using move_active_frame [OF 1] by blast
  then have "m_ActiveModel m1 = m_ActiveModel m" using recached_active by (fastforce simp: set_model_def)
  then show ?thesis using requestPixmapRefresh_frame [OF 2] m' by auto
qed

lemma wheel_active_model:
  assumes "wheelEvent G e d m = Some (m', fx, b)"
  shows "m_ActiveModel m' = m_ActiveModel m"
proof -
  have s: "requestPixmapRefresh e page (set_model p i y (EnsureCachedRequestSize page v)) = Some (m2, fx')
      \<Longrightarrow> recached m v \<Longrightarrow> m_ActiveModel m2 = m_ActiveModel m" for page p i y v m2 fx'
    using refresh_active [of e page _ m2 fx'] recached_active [of m v]
      recached_active [OF recached_Ensure, of page v]
    by (fastforce simp: set_model_def)
  show ?thesis
    using assms
    by (auto simp: wheelEvent_def Let_def intro: s recached_active
        dest!: GetNormalizedPosition_recached
        elim!: bind_pairE bind_SomeE split: if_splits option.splits)
qed

lemma press_active_model:
  assumes "mouseButtonPressEvent e pos l m = Some (m', fx, b)" and "\<not> plain_document e m"
  shows "m_ActiveModel m' = (case (l, cursor_model e (m\<lparr>m_MousePosition := pos\<rparr>)) of
    (True, Some h) \<Rightarrow> Some h | _ \<Rightarrow> m_ActiveModel m)"
proof (cases l)
  case False
  then show ?thesis using assms by (auto simp: mouseButtonPressEvent_def Let_def)
next
  case True
  let ?m = "m\<lparr>m_MousePosition := pos\<rparr>"
  obtain over m1 where 1: "GetPageMouseIsOver e ?m = Some (over, m1)"
    using assms True by (auto simp: mouseButtonPressEvent_def Let_def elim!: bind_pairE)
  note a1 = recached_active [OF GetPageMouseIsOver_recached [OF 1]]
  show ?thesis
  proof (cases "over = None \<or> the over \<ge> length (m_Models m1)")
    case none: True
    then show ?thesis
      using assms True 1 a1
      by (auto simp: mouseButtonPressEvent_def Let_def cursor_model_def split: option.splits)
  next
    case False
    then obtain page where p: "over = Some page" "\<not> page \<ge> length (m_Models m1)" by auto
    obtain np m2 where 2: "GetNormalizedPositionRelativeToPage e m1 (m_MousePosition m1) page = Some (np, m2)"
      using assms True 1 p by (auto simp: mouseButtonPressEvent_def Let_def elim!: bind_pairE)
    note a2 = recached_active [OF GetNormalizedPosition_recached [OF 2]]
    show ?thesis
      using assms True 1 2 p a1 a2
      by (cases "hit_model np (m_Models m2 ! page)")
         (auto simp: mouseButtonPressEvent_def Let_def cursor_model_def)
  qed
qed

interpretation drag: simulation "deliver G" drag_obs m_ActiveModel drag_spec for G
proof
  fix i :: "env \<times> wid \<times> qevent" and m m' :: "'a manager"
  assume d: "deliver G i m = Some m'"
  obtain e w ev where i: "i = (e, w, ev)" by (cases i) auto
  obtain fx b where r: "EventFilter_eventFilter G e w ev m = Some (m', fx, b)"
    using d i by (auto simp: deliver_def)
  show "m_ActiveModel m' = drag_spec (m_ActiveModel m) (drag_obs i m)"
  proof (cases "plain_document e m")
    case True
    then show ?thesis
      using r i by (cases ev) (auto simp: EventFilter_eventFilter_def handlers_plain drag_obs_def)
  next
    case False
    then show ?thesis
      using r i move_active_model [of G e _ _ "noteEventSource w m" m' fx b]
        wheel_active_model [of G e _ "noteEventSource w m" m' fx b]
        press_active_model [of e _ _ "noteEventSource w m" m' fx b]
      by (cases ev)
         (auto simp: EventFilter_eventFilter_def drag_obs_def mouseButtonReleaseEvent_def
          split: bool.splits option.splits)
  qed
qed

text \<open>C24: the drag state refines a three-transition automaton: over any sequence of events the active
  model is the one the last press grabbed, unless a left release came after it; moves, wheel
  events and presses beside every model leave it alone.\<close>

theorem drag_refinement:
  "run_conc (deliver G) evs m = Some m' \<Longrightarrow>
   m_ActiveModel m' = foldl drag_spec (m_ActiveModel m) (observations (deliver G) drag_obs evs m)"
  by (rule drag.run_simulates)

theorem drag_refinement_witness:
  "\<exists>m'. run_conc (deliver unit_glm) [(sample_env, 1, MouseButtonRelease True)] sample_dragging = Some m' \<and>
     m_ActiveModel m' = None"
proof -
  have "inv_ok (EventFilter_eventFilter unit_glm sample_env 1 (MouseButtonRelease True) sample_dragging)"
    by (rule EventFilter_ok) simp_all
  then obtain m' where "deliver unit_glm (sample_env, 1, MouseButtonRelease True) sample_dragging = Some m'"
    by (auto simp: inv_ok_def deliver_def split: option.splits)
  then have r: "run_conc (deliver unit_glm) [(sample_env, 1, MouseButtonRelease True)] sample_dragging = Some m'"
    by simp
  have "drag_obs (sample_env, 1, MouseButtonRelease True) sample_dragging = Drop"
    by (simp add: drag_obs_def)
  with drag_refinement [OF r] r show ?thesis by (simp split: option.splits)
qed

end
