(* ===== verification/Triple.thy ===== *)
theory Triple
  imports Prelude
begin

text \<open>
  The points of \<^verbatim>\<open>asymptote/triple.h\<close>: arithmetic, norms, products, transformations by
  4x4 and 3x3 matrices, bounds of point lists, and the flatness measures that drive the adaptive
  rendering. A \<open>triple\<close> is a \<^typ>\<open>real vec3\<close>, a \<open>pair\<close> a \<^typ>\<open>real vec2\<close>, a matrix the function
  from the index into the array that the code passes; doubles are idealised as reals, so that a
  division by zero, which the code guards or reports, is \<^term>\<open>None\<close> where it matters. The type
  \<^typ>\<open>'a vec3\<close> is made an instance of the vector space classes, so that the algebra of the
  library applies to points.
\<close>

section \<open>Points as vectors\<close>

text \<open>The operators \<open>+\<close>, \<open>-\<close> and \<open>*\<close> of the class, which become those of the vector space.\<close>

definition triple_add :: "'a :: ab_group_add vec3 \<Rightarrow> 'a vec3 \<Rightarrow> 'a vec3" where
  "triple_add z w = V3 (v3x z + v3x w) (v3y z + v3y w) (v3z z + v3z w)"

definition triple_diff :: "'a :: ab_group_add vec3 \<Rightarrow> 'a vec3 \<Rightarrow> 'a vec3" where
  "triple_diff z w = V3 (v3x z - v3x w) (v3y z - v3y w) (v3z z - v3z w)"

definition triple_uminus :: "'a :: ab_group_add vec3 \<Rightarrow> 'a vec3" where
  "triple_uminus z = V3 (- v3x z) (- v3y z) (- v3z z)"

definition triple_scale :: "real \<Rightarrow> 'a :: real_vector vec3 \<Rightarrow> 'a vec3" where
  "triple_scale s z = V3 (s *\<^sub>R v3x z) (s *\<^sub>R v3y z) (s *\<^sub>R v3z z)"

instantiation vec3 :: (ab_group_add) ab_group_add
begin

definition zero_vec3 :: "'a vec3" where "zero_vec3 = V3 0 0 0"
definition plus_vec3 :: "'a vec3 \<Rightarrow> 'a vec3 \<Rightarrow> 'a vec3" where "plus_vec3 = triple_add"
definition minus_vec3 :: "'a vec3 \<Rightarrow> 'a vec3 \<Rightarrow> 'a vec3" where "minus_vec3 = triple_diff"
definition uminus_vec3 :: "'a vec3 \<Rightarrow> 'a vec3" where "uminus_vec3 = triple_uminus"

instance
  by standard
     (simp_all add: zero_vec3_def plus_vec3_def minus_vec3_def uminus_vec3_def
        triple_add_def triple_diff_def triple_uminus_def algebra_simps)

end

instantiation vec3 :: (real_vector) real_vector
begin

definition scaleR_vec3 :: "real \<Rightarrow> 'a vec3 \<Rightarrow> 'a vec3" where "scaleR_vec3 = triple_scale"

instance
  by standard (simp_all add: scaleR_vec3_def plus_vec3_def triple_scale_def triple_add_def algebra_simps)

end

lemmas vec3_defs = zero_vec3_def plus_vec3_def minus_vec3_def uminus_vec3_def scaleR_vec3_def
  triple_add_def triple_diff_def triple_uminus_def triple_scale_def

lemma vec3_sel [simp]:
  "v3x (z + w) = v3x z + v3x w" "v3y (z + w) = v3y z + v3y w" "v3z (z + w) = v3z z + v3z w"
  "v3x (z - w) = v3x z - v3x w" "v3y (z - w) = v3y z - v3y w" "v3z (z - w) = v3z z - v3z w"
  "v3x (- z) = - v3x z" "v3y (- z) = - v3y z" "v3z (- z) = - v3z z"
  "v3x (0 :: 'a :: ab_group_add vec3) = 0" "v3y (0 :: 'a vec3) = 0" "v3z (0 :: 'a vec3) = 0"
  by (simp_all add: vec3_defs)

lemma vec3_scale_sel [simp]:
  "v3x (s *\<^sub>R z) = s *\<^sub>R v3x z" "v3y (s *\<^sub>R z) = s *\<^sub>R v3y z" "v3z (s *\<^sub>R z) = s *\<^sub>R v3z z"
  by (simp_all add: vec3_defs)

type_synonym triple = "real vec3"
type_synonym pair = "real vec2"

section \<open>Norms and products\<close>

definition abs2 :: "triple \<Rightarrow> real" where
  "abs2 v = v3x v * v3x v + v3y v * v3y v + v3z v * v3z v"

definition triple_length :: "triple \<Rightarrow> real" where
  "triple_length v = sqrt (abs2 v)"

definition dot :: "triple \<Rightarrow> triple \<Rightarrow> real" where
  "dot u v = v3x u * v3x v + v3y u * v3y v + v3z u * v3z v"

definition cross :: "triple \<Rightarrow> triple \<Rightarrow> triple" where
  "cross u v = V3 (v3y u * v3z v - v3z u * v3y v) (v3z u * v3x v - v3x u * v3z v)
     (v3x u * v3y v - v3y u * v3x v)"

text \<open>\<open>unit(v,v0)\<close>; a length that is not a normal number is 0 here.\<close>

definition unit_triple :: "triple \<Rightarrow> triple \<Rightarrow> triple" where
  "unit_triple v v0 =
     (let scale = triple_length v in if scale \<noteq> 0 then (1 / scale) *\<^sub>R v else v0)"

definition perp :: "triple \<Rightarrow> triple \<Rightarrow> triple" where
  "perp v u = v - dot v u *\<^sub>R u"

definition expi :: "real \<Rightarrow> real \<Rightarrow> triple" where
  "expi theta phi = V3 (sin theta * cos phi) (sin theta * sin phi) (cos theta)"

text \<open>\<open>operator/\<close> reports an error for a zero divisor.\<close>

definition triple_div :: "triple \<Rightarrow> real \<Rightarrow> triple option" where
  "triple_div z s = (if s = 0 then None else Some ((1 / s) *\<^sub>R z))"

section \<open>Transformations\<close>

text \<open>By a row-major 4x4 matrix, from the left and from the right (\<^term>\<open>None\<close>: the code reports a
  division by zero), and by a 3x3 matrix.\<close>

definition transform_left :: "(nat \<Rightarrow> real) \<Rightarrow> triple \<Rightarrow> triple option" where
  "transform_left t v =
     (let f = t 12 * v3x v + t 13 * v3y v + t 14 * v3z v + t 15
      in if f \<noteq> 0
         then Some (V3 ((t 0 * v3x v + t 1 * v3y v + t 2 * v3z v + t 3) * (1 / f))
                       ((t 4 * v3x v + t 5 * v3y v + t 6 * v3z v + t 7) * (1 / f))
                       ((t 8 * v3x v + t 9 * v3y v + t 10 * v3z v + t 11) * (1 / f)))
         else None)"

definition transform_right :: "triple \<Rightarrow> (nat \<Rightarrow> real) \<Rightarrow> triple option" where
  "transform_right v t =
     (let f = t 3 * v3x v + t 7 * v3y v + t 11 * v3z v + t 15
      in if f \<noteq> 0
         then Some (V3 ((v3x v * t 0 + v3y v * t 4 + v3z v * t 8 + t 12) * (1 / f))
                       ((v3x v * t 1 + v3y v * t 5 + v3z v * t 9 + t 13) * (1 / f))
                       ((v3x v * t 2 + v3y v * t 6 + v3z v * t 10 + t 14) * (1 / f)))
         else None)"

definition Transform3_right :: "triple \<Rightarrow> (nat \<Rightarrow> real) \<Rightarrow> triple" where
  "Transform3_right v t = V3 (t 0 * v3x v + t 1 * v3y v + t 2 * v3z v)
     (t 3 * v3x v + t 4 * v3y v + t 5 * v3z v) (t 6 * v3x v + t 7 * v3y v + t 8 * v3z v)"

definition Transform3_left :: "(nat \<Rightarrow> real) \<Rightarrow> triple \<Rightarrow> triple" where
  "Transform3_left t v = V3 (v3x v * t 0 + v3y v * t 3 + v3z v * t 6)
     (v3x v * t 1 + v3y v * t 4 + v3z v * t 7) (v3x v * t 2 + v3y v * t 5 + v3z v * t 8)"

definition Transform2T :: "(nat \<Rightarrow> real) \<Rightarrow> triple \<Rightarrow> pair" where
  "Transform2T t v =
     (let f = 1 / (t 3 * v3x v + t 7 * v3y v + t 11 * v3z v + t 15)
      in V2 ((t 0 * v3x v + t 4 * v3y v + t 8 * v3z v + t 12) * f)
            ((t 1 * v3x v + t 5 * v3y v + t 9 * v3z v + t 13) * f))"

text \<open>\<open>billboardTransform\<close> of \<^verbatim>\<open>asymptote/render.h\<close>, with the normal matrix as argument.\<close>

definition billboardTransform :: "(nat \<Rightarrow> real) \<Rightarrow> triple \<Rightarrow> triple \<Rightarrow> triple" where
  "billboardTransform BBT center v =
     (let x = v3x v - v3x center; y = v3y v - v3y center; z = v3z v - v3z center
      in V3 (x * BBT 0 + y * BBT 3 + z * BBT 6 + v3x center)
            (x * BBT 1 + y * BBT 4 + z * BBT 7 + v3y center)
            (x * BBT 2 + y * BBT 5 + z * BBT 8 + v3z center))"

section \<open>Bounds of point lists\<close>

text \<open>\<open>bounds(x,X,v)\<close> extends an interval by a value.\<close>

definition bounds1 :: "real \<Rightarrow> real \<times> real \<Rightarrow> real \<times> real" where
  "bounds1 v xX = (case xX of (x, X) \<Rightarrow> if v < x then (v, X) else if v > X then (x, v) else (x, X))"

definition boundstriples :: "triple list \<Rightarrow> (triple \<times> triple) option" where
  "boundstriples vs =
     (case vs of
        [] \<Rightarrow> None
      | v # rest \<Rightarrow>
          let bx = fold (bounds1 \<circ> v3x) rest (v3x v, v3x v);
              by = fold (bounds1 \<circ> v3y) rest (v3y v, v3y v);
              bz = fold (bounds1 \<circ> v3z) rest (v3z v, v3z v)
          in Some (V3 (fst bx) (fst by) (fst bz), V3 (snd bx) (snd by) (snd bz)))"

lemma fold_bounds1:
  assumes "x \<le> X"
  shows "fold (bounds1 \<circ> f) vs (x, X) = (fold (min \<circ> f) vs x, fold (max \<circ> f) vs X)"
  using assms
proof (induction vs arbitrary: x X)
  case Nil
  then show ?case by simp
next
  case (Cons v vs)
  have "bounds1 (f v) (x, X) = (min (f v) x, max (f v) X)"
    using Cons.prems by (auto simp: bounds1_def min_def max_def)
  moreover have "min (f v) x \<le> max (f v) X" using Cons.prems by auto
  ultimately show ?case using Cons.IH by simp
qed

section \<open>Flatness\<close>

definition third :: real where "third = 1 / 3"

definition Straightness :: "triple \<Rightarrow> triple \<Rightarrow> triple \<Rightarrow> triple \<Rightarrow> real" where
  "Straightness z0 c0 c1 z1 =
     (let v = third *\<^sub>R (z1 - z0) in max (abs2 (c0 - v - z0)) (abs2 (z1 - v - c1)))"

definition Flatness :: "triple \<Rightarrow> triple \<Rightarrow> triple \<Rightarrow> triple \<Rightarrow> real" where
  "Flatness a b c d =
     (let u = b - a; v = d - c
      in 1 / 9 * max (abs2 (cross u (unit_triple v 0))) (abs2 (cross v (unit_triple u 0))))"

definition bezierPP :: "triple \<Rightarrow> triple \<Rightarrow> triple \<Rightarrow> triple" where
  "bezierPP a b c = 3 *\<^sub>R (a + c) - 6 *\<^sub>R b"

definition bezierPPP :: "triple \<Rightarrow> triple \<Rightarrow> triple \<Rightarrow> triple \<Rightarrow> triple" where
  "bezierPPP a b c d = d - a + 3 *\<^sub>R (b - c)"

definition bezierPh :: "triple \<Rightarrow> triple \<Rightarrow> triple \<Rightarrow> triple \<Rightarrow> triple" where
  "bezierPh a b c d = c + d - a - b"

definition bezierPPh :: "triple \<Rightarrow> triple \<Rightarrow> triple \<Rightarrow> triple \<Rightarrow> triple" where
  "bezierPPh a b c d = 3 *\<^sub>R a - 5 *\<^sub>R b + c + d"

end
