(* ===== verification/Bezier.thy ===== *)
theory Bezier
  imports Triple
begin

text \<open>
  The subdivision of cubic Bezier curves, patches and triangles and the bounds computed from it
  (\<^verbatim>\<open>asymptote/bound.h\<close>, \<^verbatim>\<open>asymptote/bound.cc\<close> and the \<open>compute...Bounds\<close> functions of
  \<^verbatim>\<open>V3dObjects.cpp\<close>). An array of control values is the list of its elements; \<open>m\<close> is the
  comparison function that the code passes, \<^const>\<open>min\<close> or \<^const>\<open>max\<close>; the depth of the recursion,
  a non-negative \<open>int\<close> at every call, is a natural number.

  The results: the two halves that \<open>Split\<close> returns are the two halves of the curve; every bound that
  \<open>bound\<close> returns is attained on the patch (or is the bound passed in), and no point of the patch
  exceeds it by more than the larger of the accumulated fuzz and a multiple of the distance of
  neighbouring control values that halves with every level; the bounds for \<^const>\<open>min\<close> are dual to
  those for \<^const>\<open>max\<close>.
\<close>

section \<open>The code\<close>

record 'a Split =
  s_m0 :: 'a  s_m1 :: 'a  s_m2 :: 'a  s_m3 :: 'a  s_m4 :: 'a  s_m5 :: 'a

definition Split_new :: "'a :: real_vector \<Rightarrow> 'a \<Rightarrow> 'a \<Rightarrow> 'a \<Rightarrow> 'a Split" where
  "Split_new z0 c0 c1 z1 =
     (let m0 = (1 / 2) *\<^sub>R (z0 + c0);
          m1 = (1 / 2) *\<^sub>R (c0 + c1);
          m2 = (1 / 2) *\<^sub>R (c1 + z1);
          m3 = (1 / 2) *\<^sub>R (m0 + m1);
          m4 = (1 / 2) *\<^sub>R (m1 + m2);
          m5 = (1 / 2) *\<^sub>R (m3 + m4)
      in \<lparr>s_m0 = m0, s_m1 = m1, s_m2 = m2, s_m3 = m3, s_m4 = m4, s_m5 = m5\<rparr>)"

definition Fuzz2 :: real where "Fuzz2 = 1000 * (1 / 2 ^ 52)"
definition Fuzz :: real where "Fuzz = sqrt Fuzz2"
definition maxdepth :: nat where "maxdepth = 53"

text \<open>\<open>run::norm\<close>, the largest absolute value of an array.\<close>

definition norm_array :: "real list \<Rightarrow> real" where
  "norm_array a =
     fold (\<lambda>x result. let v = (if x < 0 then - x else x) in if v > result then v else result) a 0"

definition cornerbound :: "real list \<Rightarrow> (real \<Rightarrow> real \<Rightarrow> real) \<Rightarrow> real" where
  "cornerbound P m = m (m (m (P ! 0) (P ! 3)) (P ! 12)) (P ! 15)"

definition controlbound :: "real list \<Rightarrow> (real \<Rightarrow> real \<Rightarrow> real) \<Rightarrow> real" where
  "controlbound P m =
     m (m (m (m (m (m (m (m (m (m (m (P ! 1) (P ! 2)) (P ! 4)) (P ! 5)) (P ! 6)) (P ! 7)) (P ! 8))
       (P ! 9)) (P ! 10)) (P ! 11)) (P ! 13)) (P ! 14)"

text \<open>The four quarters of a patch, in the order in which \<open>bound\<close> visits them.\<close>

definition subpatches :: "real list \<Rightarrow> real list \<times> real list \<times> real list \<times> real list" where
  "subpatches P =
     (let c0 = Split_new (P ! 0) (P ! 1) (P ! 2) (P ! 3);
          c1 = Split_new (P ! 4) (P ! 5) (P ! 6) (P ! 7);
          c2 = Split_new (P ! 8) (P ! 9) (P ! 10) (P ! 11);
          c3 = Split_new (P ! 12) (P ! 13) (P ! 14) (P ! 15);
          c4 = Split_new (P ! 12) (P ! 8) (P ! 4) (P ! 0);
          c5 = Split_new (s_m0 c3) (s_m0 c2) (s_m0 c1) (s_m0 c0);
          c6 = Split_new (s_m3 c3) (s_m3 c2) (s_m3 c1) (s_m3 c0);
          c7 = Split_new (s_m5 c3) (s_m5 c2) (s_m5 c1) (s_m5 c0);
          c8 = Split_new (s_m4 c3) (s_m4 c2) (s_m4 c1) (s_m4 c0);
          c9 = Split_new (s_m2 c3) (s_m2 c2) (s_m2 c1) (s_m2 c0);
          c10 = Split_new (P ! 15) (P ! 11) (P ! 7) (P ! 3)
      in ([s_m5 c4, s_m5 c5, s_m5 c6, s_m5 c7, s_m3 c4, s_m3 c5, s_m3 c6, s_m3 c7,
           s_m0 c4, s_m0 c5, s_m0 c6, s_m0 c7, P ! 12, s_m0 c3, s_m3 c3, s_m5 c3],
          [P ! 0, s_m0 c0, s_m3 c0, s_m5 c0, s_m2 c4, s_m2 c5, s_m2 c6, s_m2 c7,
           s_m4 c4, s_m4 c5, s_m4 c6, s_m4 c7, s_m5 c4, s_m5 c5, s_m5 c6, s_m5 c7],
          [s_m5 c0, s_m4 c0, s_m2 c0, P ! 3, s_m2 c7, s_m2 c8, s_m2 c9, s_m2 c10,
           s_m4 c7, s_m4 c8, s_m4 c9, s_m4 c10, s_m5 c7, s_m5 c8, s_m5 c9, s_m5 c10],
          [s_m5 c7, s_m5 c8, s_m5 c9, s_m5 c10, s_m3 c7, s_m3 c8, s_m3 c9, s_m3 c10,
           s_m0 c7, s_m0 c8, s_m0 c9, s_m0 c10, s_m5 c3, s_m4 c3, s_m2 c3, P ! 15]))"

fun bound :: "real list \<Rightarrow> (real \<Rightarrow> real \<Rightarrow> real) \<Rightarrow> real \<Rightarrow> real \<Rightarrow> nat \<Rightarrow> real" where
  "bound P m b fuzz 0 = m b (cornerbound P m)"
| "bound P m b fuzz (Suc depth) =
     (let b1 = m b (cornerbound P m)
      in if m (- 1) 1 * (b1 - controlbound P m) \<ge> - fuzz then b1
         else case subpatches P of (s0, s1, s2, s3) \<Rightarrow>
           bound s3 m (bound s2 m (bound s1 m (bound s0 m b1 (fuzz * 2) depth)
             (fuzz * 2) depth) (fuzz * 2) depth) (fuzz * 2) depth)"

definition cornerboundtri :: "real list \<Rightarrow> (real \<Rightarrow> real \<Rightarrow> real) \<Rightarrow> real" where
  "cornerboundtri P m = m (m (P ! 0) (P ! 6)) (P ! 9)"

definition controlboundtri :: "real list \<Rightarrow> (real \<Rightarrow> real \<Rightarrow> real) \<Rightarrow> real" where
  "controlboundtri P m =
     m (m (m (m (m (m (P ! 1) (P ! 2)) (P ! 3)) (P ! 4)) (P ! 5)) (P ! 7)) (P ! 8)"

text \<open>\<open>Splittri\<close>: the control values of the four subtriangles, left, right, up and center.\<close>

definition Splittri :: "'a :: real_vector list \<Rightarrow> 'a list \<times> 'a list \<times> 'a list \<times> 'a list" where
  "Splittri p =
     (let h = (\<lambda>z w. (1 / 2) *\<^sub>R (z + w));
          l003 = p ! 0; p102 = p ! 1; p012 = p ! 2; p201 = p ! 3; p111 = p ! 4;
          p021 = p ! 5; r300 = p ! 6; p210 = p ! 7; p120 = p ! 8; u030 = p ! 9;
          u021 = h u030 p021; u120 = h u030 p120;
          p033 = h p021 p012; p231 = h p120 p111; p330 = h p120 p210;
          p123 = h p012 p111;
          l012 = h p012 l003; p312 = h p111 p201; r210 = h p210 r300;
          l102 = h l003 p102; p303 = h p102 p201; r201 = h p201 r300;
          u012 = h u021 p033; u210 = h u120 p330;
          l021 = h p033 l012; p4xx = (1 / 2) *\<^sub>R p231 + (1 / 4) *\<^sub>R (p111 + p102);
          r120 = h p330 r210; px4x = (1 / 2) *\<^sub>R p123 + (1 / 4) *\<^sub>R (p111 + p210);
          pxx4 = (1 / 4) *\<^sub>R (p021 + p111) + (1 / 2) *\<^sub>R p312;
          l201 = h l102 p303; r102 = h p303 r201;
          l210 = h px4x l201; r012 = h px4x r102; l300 = h l201 r102;
          r021 = h pxx4 r120; u201 = h u210 pxx4; r030 = h u210 r120;
          u102 = h u012 p4xx; l120 = h l021 p4xx; l030 = h u012 l021;
          l111 = h p123 l102; r111 = h p312 r210;
          u111 = h u021 p231; c111 = (1 / 4) *\<^sub>R (p033 + p330 + p303 + p111)
      in ([l003, l102, l012, l201, l111, l021, l300, l210, l120, l030],
          [l300, r102, r012, r201, r111, r021, r300, r210, r120, r030],
          [l030, u102, u012, u201, u111, u021, r030, u210, u120, u030],
          [r030, u201, r021, u102, c111, r012, l030, l120, l210, l300]))"

fun boundtri :: "real list \<Rightarrow> (real \<Rightarrow> real \<Rightarrow> real) \<Rightarrow> real \<Rightarrow> real \<Rightarrow> nat \<Rightarrow> real" where
  "boundtri P m b fuzz 0 = m b (cornerboundtri P m)"
| "boundtri P m b fuzz (Suc depth) =
     (let b1 = m b (cornerboundtri P m)
      in if m (- 1) 1 * (b1 - controlboundtri P m) \<ge> - fuzz then b1
         else case Splittri P of (l, r, u, c) \<Rightarrow>
           boundtri c m (boundtri u m (boundtri r m (boundtri l m b1 (fuzz * 2) depth)
             (fuzz * 2) depth) (fuzz * 2) depth) (fuzz * 2) depth)"

definition ratiobound :: "triple \<Rightarrow> triple \<Rightarrow> triple \<Rightarrow> triple \<Rightarrow> (real \<Rightarrow> real \<Rightarrow> real) \<Rightarrow>
    (triple \<Rightarrow> real) \<Rightarrow> real" where
  "ratiobound z0 c0 c1 z1 m f =
     (let MX = m (m (m (- v3x z0) (- v3x c0)) (- v3x c1)) (- v3x z1);
          MY = m (m (m (- v3y z0) (- v3y c0)) (- v3y c1)) (- v3y z1);
          Z = m (m (m (v3z z0) (v3z c0)) (v3z c1)) (v3z z1);
          MZ = m (m (m (- v3z z0) (- v3z c0)) (- v3z c1)) (- v3z z1)
      in m (f (V3 (- MX) (- MY) Z)) (f (V3 (- MX) (- MY) (- MZ))))"

fun bound_curve :: "triple \<Rightarrow> triple \<Rightarrow> triple \<Rightarrow> triple \<Rightarrow> (real \<Rightarrow> real \<Rightarrow> real) \<Rightarrow>
    (triple \<Rightarrow> real) \<Rightarrow> real \<Rightarrow> real \<Rightarrow> nat \<Rightarrow> real" where
  "bound_curve z0 c0 c1 z1 m f b fuzz 0 = m b (m (f z0) (f z1))"
| "bound_curve z0 c0 c1 z1 m f b fuzz (Suc depth) =
     (let b1 = m b (m (f z0) (f z1))
      in if m (- 1) 1 * (b1 - ratiobound z0 c0 c1 z1 m f) \<ge> - fuzz then b1
         else let s = Split_new z0 c0 c1 z1
              in bound_curve (s_m5 s) (s_m4 s) (s_m2 s) z1 m f
                   (bound_curve z0 (s_m0 s) (s_m3 s) (s_m5 s) m f b1 (fuzz * 2) depth)
                   (fuzz * 2) depth)"

subsection \<open>The bounds of the objects\<close>

definition patch_range :: "real list \<Rightarrow> real \<times> real" where
  "patch_range c = (let fuzz = Fuzz * norm_array c
     in (bound c min (c ! 0) fuzz maxdepth, bound c max (c ! 0) fuzz maxdepth))"

definition computeBezierPatchBounds :: "triple list \<Rightarrow> triple \<times> triple" where
  "computeBezierPatchBounds controls =
     (let x = patch_range (map v3x controls); y = patch_range (map v3y controls);
          z = patch_range (map v3z controls)
      in (V3 (fst x) (fst y) (fst z), V3 (snd x) (snd y) (snd z)))"

definition triangle_range :: "real list \<Rightarrow> real \<times> real" where
  "triangle_range c = (let fuzz = Fuzz * norm_array c
     in (boundtri c min (c ! 0) fuzz maxdepth, boundtri c max (c ! 0) fuzz maxdepth))"

definition computeBezierTriangleBounds :: "triple list \<Rightarrow> triple \<times> triple" where
  "computeBezierTriangleBounds controls =
     (let x = triangle_range (map v3x controls); y = triangle_range (map v3y controls);
          z = triangle_range (map v3z controls)
      in (V3 (fst x) (fst y) (fst z), V3 (snd x) (snd y) (snd z)))"

definition curve_range :: "triple list \<Rightarrow> (triple \<Rightarrow> real) \<Rightarrow> real \<times> real" where
  "curve_range p f = (let fuzz = Fuzz * norm_array (map f p)
     in (bound_curve (p ! 0) (p ! 1) (p ! 2) (p ! 3) min f (f (p ! 0)) fuzz maxdepth,
         bound_curve (p ! 0) (p ! 1) (p ! 2) (p ! 3) max f (f (p ! 0)) fuzz maxdepth))"

definition computeBezierCurveBounds :: "triple list \<Rightarrow> triple \<times> triple" where
  "computeBezierCurveBounds controls =
     (let x = curve_range controls v3x; y = curve_range controls v3y; z = curve_range controls v3z
      in (V3 (fst x) (fst y) (fst z), V3 (snd x) (snd y) (snd z)))"

section \<open>Comparison functions and subdivision schemes\<close>

text \<open>The comparison functions that the code passes select one of their arguments, the larger one
  after multiplication by the sign \<open>s\<close>, which they return for \<open>-1\<close> and \<open>1\<close>.\<close>

locale comparison =
  fixes m :: "real \<Rightarrow> real \<Rightarrow> real" and s :: real
  assumes sign: "s = 1 \<or> s = - 1"
    and scaled: "s * m x y = max (s * x) (s * y)"
    and sign_eq: "m (- 1) 1 = s"
begin

lemma selects: "m x y = x \<or> m x y = y"
  using sign scaled [of x y] by (auto simp: max_def split: if_splits)

lemma below: "s * x \<le> s * m x y" "s * y \<le> s * m x y"
  by (simp_all add: scaled)

lemma scaled_diff: "s * (a - b) \<ge> - fuzz \<longleftrightarrow> s * b \<le> s * a + fuzz"
  by (auto simp: algebra_simps)

end

text \<open>A subdivision scheme: \<open>bnd\<close> follows the recursion of the code, with its corner and control
  bounds and its pieces; \<open>points\<close> are the values that the curve or surface takes, and \<open>spread\<close>
  bounds the differences of neighbouring control values.\<close>

locale subdivision = comparison +
  fixes corner control :: "'p \<Rightarrow> real" and subs :: "'p \<Rightarrow> 'p list" and points :: "'p \<Rightarrow> real set"
    and spread :: "'p \<Rightarrow> real \<Rightarrow> bool" and bnd :: "'p \<Rightarrow> real \<Rightarrow> real \<Rightarrow> nat \<Rightarrow> real"
  assumes bnd_0: "bnd P b fuzz 0 = m b (corner P)"
    and bnd_Suc: "bnd P b fuzz (Suc d) =
      (let b1 = m b (corner P)
       in if m (- 1) 1 * (b1 - control P) \<ge> - fuzz then b1
          else fold (\<lambda>q b. bnd q b (fuzz * 2) d) (subs P) b1)"
    and corner_in: "corner P \<in> points P"
    and sub_points: "points P = (\<Union>q \<in> set (subs P). points q)"
    and hull: "y \<in> points P \<Longrightarrow> s * y \<le> max (s * corner P) (s * control P)"
    and spread_nonneg: "spread P D \<Longrightarrow> 0 \<le> D"
    and control_near: "spread P D \<Longrightarrow> s * control P \<le> s * corner P + 2 * D"
    and sub_spread: "spread P D \<Longrightarrow> q \<in> set (subs P) \<Longrightarrow> spread q (D / 2)"
begin

lemma fold_extends:
  assumes "\<And>q b. s * b \<le> s * g q b"
  shows "s * b \<le> s * fold g qs b"
  using assms by (induction qs arbitrary: b) (auto intro: order_trans)

lemma extends: "s * b \<le> s * bnd P b fuzz d"
proof (induction d arbitrary: P b fuzz)
  case 0
  then show ?case by (simp add: bnd_0 below)
next
  case (Suc d)
  have "s * m b (corner P) \<le> s * fold (\<lambda>q b. bnd q b (fuzz * 2) d) (subs P) (m b (corner P))"
    by (rule fold_extends) (rule Suc.IH)
  then show ?case using below(1) [of b "corner P"] by (auto simp: bnd_Suc Let_def)
qed

lemma fold_attains:
  assumes "\<And>q b. g q b \<in> insert b (points q)"
  shows "fold g qs b \<in> insert b (\<Union>q \<in> set qs. points q)"
proof (induction qs arbitrary: b)
  case (Cons q qs)
  from Cons.IH [of "g q b"] assms [of q b] show ?case by (simp only: fold_simps) auto
qed simp

lemma attained: "bnd P b fuzz d \<in> insert b (points P)"
proof (induction d arbitrary: P b fuzz)
  case 0
  then show ?case using selects [of b "corner P"] corner_in by (auto simp: bnd_0)
next
  case (Suc d)
  have "fold (\<lambda>q b. bnd q b (fuzz * 2) d) (subs P) (m b (corner P))
      \<in> insert (m b (corner P)) (points P)"
    unfolding sub_points [of P] by (rule fold_attains) (rule Suc.IH)
  then show ?case
    using selects [of b "corner P"] corner_in [of P] by (auto simp: bnd_Suc Let_def)
qed

lemma fold_member:
  assumes "\<And>q b. s * b \<le> s * g q b" and "q \<in> set qs" and "\<And>b. y \<le> s * g q b + e"
  shows "y \<le> s * fold g qs b + e"
  using assms(2)
proof (induction qs arbitrary: b)
  case (Cons q' qs)
  show ?case
  proof (cases "q = q'")
    case True
    then show ?thesis
      using assms(3) [of b] fold_extends [of g "g q b" qs] assms(1) by force
  next
    case False
    then show ?thesis using Cons by simp
  qed
qed simp

text \<open>The tolerance: the fuzz doubles while the spread halves, so that where the recursion stops
  before the last level, a control value exceeds the bound by at most \<open>e\<close>.\<close>

lemma within:
  assumes "spread P D" and "0 \<le> fuzz" and "fuzz * (2 * D) \<le> e\<^sup>2" and "0 \<le> e" and "y \<in> points P"
  shows "s * y \<le> s * bnd P b fuzz d + max e (2 * D / 2 ^ d)"
  using assms
proof (induction d arbitrary: P D b fuzz)
  case 0
  from hull [OF 0(5)] control_near [OF 0(1)] spread_nonneg [OF 0(1)] below(2) [of "corner P" b]
  show ?case by (simp add: bnd_0)
next
  case (Suc d)
  let ?b1 = "m b (corner P)"
  show ?case
  proof (cases "m (- 1) 1 * (?b1 - control P) \<ge> - fuzz")
    case True
    then have "s * control P \<le> s * ?b1 + fuzz" by (simp add: sign_eq scaled_diff)
    moreover have "s * control P \<le> s * ?b1 + 2 * D"
      using control_near [OF Suc.prems(1)] below(2) [of "corner P" b] by simp
    moreover have "fuzz \<le> e \<or> 2 * D \<le> e"
    proof (rule ccontr)
      assume "\<not> (fuzz \<le> e \<or> 2 * D \<le> e)"
      then have "e * e < fuzz * (2 * D)" using Suc.prems(4) by (intro mult_strict_mono') auto
      then show False using Suc.prems(3) by (simp add: power2_eq_square)
    qed
    ultimately have "s * y \<le> s * ?b1 + e"
      using hull [OF Suc.prems(5)] below(2) [of "corner P" b] Suc.prems(4) by auto
    then show ?thesis using True by (simp add: bnd_Suc Let_def)
  next
    case False
    from Suc.prems(5) obtain q where q: "q \<in> set (subs P)" "y \<in> points q"
      unfolding sub_points [of P] by blast
    have step: "s * y \<le> s * bnd q b (fuzz * 2) d + max e (2 * D / 2 ^ Suc d)" for b
      using Suc.IH [OF sub_spread [OF Suc.prems(1) q(1)], of "fuzz * 2" b] Suc.prems q(2)
      by simp
    have "s * y \<le> s * fold (\<lambda>q b. bnd q b (fuzz * 2) d) (subs P) ?b1 + max e (2 * D / 2 ^ Suc d)"
      using extends q(1) step by (rule fold_member)
    then show ?thesis using False by (simp only: bnd_Suc Let_def if_False)
  qed
qed

end

section \<open>Cubic curves\<close>

definition cubic :: "(nat \<Rightarrow> real) \<Rightarrow> real \<Rightarrow> real" where
  "cubic f t = (1 - t) ^ 3 * f 0 + 3 * t * (1 - t)\<^sup>2 * f 1 + 3 * t\<^sup>2 * (1 - t) * f 2 + t ^ 3 * f 3"

text \<open>The half of a curve that \<open>Split\<close> describes, the right one if \<open>r\<close>, and the parameter on the
  whole curve that corresponds to a parameter on the half.\<close>

definition half :: "bool \<Rightarrow> (nat \<Rightarrow> real) \<Rightarrow> nat \<Rightarrow> real" where
  "half r f i =
     (let z = Split_new (f 0) (f 1) (f 2) (f 3)
      in (if r then [s_m5 z, s_m4 z, s_m2 z, f 3] else [f 0, s_m0 z, s_m3 z, s_m5 z]) ! i)"

definition half_at :: "bool \<Rightarrow> real \<Rightarrow> real" where
  "half_at r t = (if r then (1 + t) / 2 else t / 2)"

lemma Split_real [simp]:
  fixes a b c d :: real
  shows "s_m0 (Split_new a b c d) = (a + b) / 2" "s_m1 (Split_new a b c d) = (b + c) / 2"
    "s_m2 (Split_new a b c d) = (c + d) / 2" "s_m3 (Split_new a b c d) = (a + 2 * b + c) / 4"
    "s_m4 (Split_new a b c d) = (b + 2 * c + d) / 4"
    "s_m5 (Split_new a b c d) = (a + 3 * b + 3 * c + d) / 8"
  by (simp_all add: Split_new_def Let_def add_divide_distrib)

lemma half_left [simp]:
  "half False f 0 = f 0" "half False f (Suc 0) = (f 0 + f 1) / 2"
  "half False f 2 = (f 0 + 2 * f 1 + f 2) / 4" "half False f 3 = (f 0 + 3 * f 1 + 3 * f 2 + f 3) / 8"
  by (simp_all add: half_def Let_def)

lemma half_right [simp]:
  "half True f 0 = (f 0 + 3 * f 1 + 3 * f 2 + f 3) / 8" "half True f (Suc 0) = (f 1 + 2 * f 2 + f 3) / 4"
  "half True f 2 = (f 2 + f 3) / 2" "half True f 3 = f 3"
  by (simp_all add: half_def Let_def)

lemma cubic_half: "cubic (half r f) t = cubic f (half_at r t)"
  by (cases r)
     (simp_all add: cubic_def half_at_def field_simps power2_eq_square power3_eq_cube)

lemma cubic_cong:
  "f 0 = g 0 \<Longrightarrow> f 1 = g 1 \<Longrightarrow> f 2 = g 2 \<Longrightarrow> f 3 = g 3 \<Longrightarrow> cubic f t = cubic g t"
  by (simp add: cubic_def)

lemma cubic_ends [simp]: "cubic f 0 = f 0" "cubic f 1 = f 3"
  by (simp_all add: cubic_def)

lemma half_at_range: "0 \<le> t \<Longrightarrow> t \<le> 1 \<Longrightarrow> 0 \<le> half_at r t \<and> half_at r t \<le> 1"
  by (auto simp: half_at_def)

lemma half_at_cover:
  assumes "0 \<le> t" "t \<le> 1"
  obtains r t' where "t = half_at r t'" "0 \<le> t'" "t' \<le> 1"
proof (cases "t \<le> 1 / 2")
  case True
  with assms show ?thesis by (intro that [of False "2 * t"]) (simp_all add: half_at_def)
next
  case False
  with assms show ?thesis by (intro that [of True "2 * t - 1"]) (simp_all add: half_at_def)
qed

lemma four_cases: "i < 4 \<Longrightarrow> i = 0 \<or> i = 1 \<or> i = 2 \<or> i = (3 :: nat)"
  by arith

lemma cubic_hull:
  assumes t: "0 \<le> t" "t \<le> 1" and le: "\<And>i. i < 4 \<Longrightarrow> f i \<le> M"
  shows "cubic f t \<le> M"
proof -
  have "cubic f t \<le> (1 - t) ^ 3 * M + 3 * t * (1 - t)\<^sup>2 * M + 3 * t\<^sup>2 * (1 - t) * M + t ^ 3 * M"
    unfolding cubic_def using t le by (intro add_mono mult_left_mono) auto
  also have "\<dots> = M" by (simp add: field_simps power2_eq_square power3_eq_cube)
  finally show ?thesis .
qed

lemma cubic_scale: "cubic (\<lambda>i. c * f i) t = c * cubic f t"
  by (simp add: cubic_def algebra_simps)

lemma half_diff:
  assumes "\<bar>f 1 - f 0\<bar> \<le> D" "\<bar>f 2 - f 1\<bar> \<le> D" "\<bar>f 3 - f 2\<bar> \<le> D"
  shows "\<bar>half r f 1 - half r f 0\<bar> \<le> D / 2" "\<bar>half r f 2 - half r f 1\<bar> \<le> D / 2"
    "\<bar>half r f 3 - half r f 2\<bar> \<le> D / 2"
  using assms by (cases r; simp add: field_simps abs_le_iff; linarith)+

lemma half_close:
  assumes "\<And>i. i < 4 \<Longrightarrow> \<bar>f i - g i\<bar> \<le> D" and "i < 4"
  shows "\<bar>half r f i - half r g i\<bar> \<le> D"
proof -
  have "\<bar>f 0 - g 0\<bar> \<le> D" "\<bar>f 1 - g 1\<bar> \<le> D" "\<bar>f 2 - g 2\<bar> \<le> D" "\<bar>f 3 - g 3\<bar> \<le> D"
    using assms(1) by auto
  with four_cases [OF assms(2)] show ?thesis
    by (cases r; elim disjE; simp add: field_simps abs_le_iff; linarith)
qed

section \<open>Bezier patches\<close>

text \<open>Row \<open>i\<close>, column \<open>j\<close> of the array of a patch, the surface, and the quarter of a patch given by a
  half of the columns and a half of the rows.\<close>

definition ctl :: "real list \<Rightarrow> nat \<Rightarrow> nat \<Rightarrow> real" where
  "ctl P i j = P ! (4 * i + j)"

definition surf :: "(nat \<Rightarrow> nat \<Rightarrow> real) \<Rightarrow> real \<Rightarrow> real \<Rightarrow> real" where
  "surf p u v = cubic (\<lambda>i. cubic (p i) v) u"

definition quarter :: "bool \<Rightarrow> bool \<Rightarrow> (nat \<Rightarrow> nat \<Rightarrow> real) \<Rightarrow> nat \<Rightarrow> nat \<Rightarrow> real" where
  "quarter a b p i j = half a (\<lambda>i. half b (p i) j) i"

definition patch_points :: "real list \<Rightarrow> real set" where
  "patch_points P = (\<lambda>(u, v). surf (ctl P) u v) ` ({0..1} \<times> {0..1})"

definition patch_spread :: "real list \<Rightarrow> real \<Rightarrow> bool" where
  "patch_spread P D \<longleftrightarrow>
     (\<forall>i < 4. \<forall>j < 3. \<bar>ctl P i (Suc j) - ctl P i j\<bar> \<le> D) \<and>
     (\<forall>i < 3. \<forall>j < 4. \<bar>ctl P (Suc i) j - ctl P i j\<bar> \<le> D)"

lemma surf_cong:
  assumes "\<And>i j. i < 4 \<Longrightarrow> j < 4 \<Longrightarrow> p i j = q i j"
  shows "surf p u v = surf q u v"
  unfolding surf_def using assms by (intro cubic_cong) auto

lemma cubic_of_half:
  assumes "i < 4"
  shows "cubic (\<lambda>j. half r (\<lambda>i. q i j) i) v = half r (\<lambda>i. cubic (q i) v) i"
  using four_cases [OF assms]
  by (cases r; elim disjE; simp add: cubic_def field_simps)

lemma surf_quarter: "surf (quarter a b p) u v = surf p (half_at a u) (half_at b v)"
proof -
  have "surf (quarter a b p) u v = cubic (half a (\<lambda>i. cubic (half b (p i)) v)) u"
    unfolding surf_def quarter_def by (rule cubic_cong; rule cubic_of_half) simp_all
  then show ?thesis by (simp add: cubic_half surf_def)
qed

lemma ctl_nth:
  "ctl P 0 j = P ! j" "ctl P (Suc 0) j = P ! (4 + j)" "ctl P 2 j = P ! (8 + j)" "ctl P 3 j = P ! (12 + j)"
  by (simp_all add: ctl_def)

lemma subpatches_quarter:
  assumes "i < 4" and "j < 4" and "subpatches P = (s0, s1, s2, s3)"
  shows "ctl s0 i j = quarter True False (ctl P) i j" "ctl s1 i j = quarter False False (ctl P) i j"
    "ctl s2 i j = quarter False True (ctl P) i j" "ctl s3 i j = quarter True True (ctl P) i j"
  using four_cases [OF assms(1)] four_cases [OF assms(2)] assms(3)
  by (auto simp: subpatches_def Let_def quarter_def ctl_nth field_simps)

definition patch_subs :: "real list \<Rightarrow> real list list" where
  "patch_subs P = (case subpatches P of (s0, s1, s2, s3) \<Rightarrow> [s0, s1, s2, s3])"

lemma patch_subs_quarter:
  assumes "q \<in> set (patch_subs P)"
  obtains a b where "\<And>i j. i < 4 \<Longrightarrow> j < 4 \<Longrightarrow> ctl q i j = quarter a b (ctl P) i j"
proof -
  obtain s0 s1 s2 s3 where s: "subpatches P = (s0, s1, s2, s3)" by (cases "subpatches P") auto
  with assms have "q = s0 \<or> q = s1 \<or> q = s2 \<or> q = s3" by (simp add: patch_subs_def)
  then show ?thesis using that subpatches_quarter [OF _ _ s] by metis
qed

lemma patch_subs_all:
  obtains q where "q \<in> set (patch_subs P)"
    and "\<And>i j. i < 4 \<Longrightarrow> j < 4 \<Longrightarrow> ctl q i j = quarter a b (ctl P) i j"
proof -
  obtain s0 s1 s2 s3 where s: "subpatches P = (s0, s1, s2, s3)" by (cases "subpatches P") auto
  then have "set (patch_subs P) = {s0, s1, s2, s3}" by (auto simp: patch_subs_def)
  then show ?thesis
    using that [of s0] that [of s1] that [of s2] that [of s3] subpatches_quarter [OF _ _ s]
    by (cases a; cases b) auto
qed

lemma patch_pointsI:
  "0 \<le> u \<Longrightarrow> u \<le> 1 \<Longrightarrow> 0 \<le> v \<Longrightarrow> v \<le> 1 \<Longrightarrow> surf (ctl P) u v \<in> patch_points P"
  unfolding patch_points_def by (rule image_eqI [of _ _ "(u, v)"]) auto

lemma patch_points_subs: "patch_points P = (\<Union>q \<in> set (patch_subs P). patch_points q)"
proof (intro equalityI subsetI)
  fix y assume "y \<in> patch_points P"
  then obtain u v where uv: "0 \<le> u" "u \<le> 1" "0 \<le> v" "v \<le> 1" and y: "y = surf (ctl P) u v"
    by (auto simp: patch_points_def)
  obtain a u' where u': "u = half_at a u'" "0 \<le> u'" "u' \<le> 1" using half_at_cover uv(1,2) by blast
  obtain b v' where v': "v = half_at b v'" "0 \<le> v'" "v' \<le> 1" using half_at_cover uv(3,4) by blast
  obtain q where q: "q \<in> set (patch_subs P)"
    and eq: "\<And>i j. i < 4 \<Longrightarrow> j < 4 \<Longrightarrow> ctl q i j = quarter a b (ctl P) i j"
    using patch_subs_all by blast
  have "y = surf (ctl q) u' v'"
    unfolding y u'(1) v'(1) surf_quarter [symmetric] by (rule surf_cong) (simp add: eq)
  with q patch_pointsI [OF u'(2,3) v'(2,3), of q]
  show "y \<in> (\<Union>q \<in> set (patch_subs P). patch_points q)" by blast
next
  fix y assume "y \<in> (\<Union>q \<in> set (patch_subs P). patch_points q)"
  then obtain q u v where q: "q \<in> set (patch_subs P)" and uv: "0 \<le> u" "u \<le> 1" "0 \<le> v" "v \<le> 1"
    and y: "y = surf (ctl q) u v" by (auto simp: patch_points_def)
  obtain a b where "\<And>i j. i < 4 \<Longrightarrow> j < 4 \<Longrightarrow> ctl q i j = quarter a b (ctl P) i j"
    using patch_subs_quarter [OF q] by blast
  then have "y = surf (quarter a b (ctl P)) u v" unfolding y by (rule surf_cong)
  then have "y = surf (ctl P) (half_at a u) (half_at b v)" by (simp add: surf_quarter)
  then show "y \<in> patch_points P"
    using half_at_range [OF uv(1,2), of a] half_at_range [OF uv(3,4), of b]
    by (simp add: patch_pointsI)
qed

lemma quarter_spread:
  assumes "patch_spread P D"
  shows "i < 4 \<Longrightarrow> j < 3 \<Longrightarrow> \<bar>quarter a b (ctl P) i (Suc j) - quarter a b (ctl P) i j\<bar> \<le> D / 2"
    and "i < 3 \<Longrightarrow> j < 4 \<Longrightarrow> \<bar>quarter a b (ctl P) (Suc i) j - quarter a b (ctl P) i j\<bar> \<le> D / 2"
proof -
  assume i: "i < 4" and j: "j < 3"
  have "\<bar>half b (ctl P i) (Suc j) - half b (ctl P i) j\<bar> \<le> D / 2" if "i < 4" for i
  proof -
    have "\<bar>ctl P i 1 - ctl P i 0\<bar> \<le> D" "\<bar>ctl P i 2 - ctl P i 1\<bar> \<le> D" "\<bar>ctl P i 3 - ctl P i 2\<bar> \<le> D"
      using assms that by (auto simp: patch_spread_def numeral_2_eq_2 numeral_3_eq_3)
    from half_diff [OF this, of b] j show ?thesis
      by (auto simp: numeral_3_eq_3 numeral_2_eq_2 less_Suc_eq)
  qed
  then show "\<bar>quarter a b (ctl P) i (Suc j) - quarter a b (ctl P) i j\<bar> \<le> D / 2"
    unfolding quarter_def using i by (intro half_close) auto
next
  assume i: "i < 3" and j: "j < 4"
  let ?g = "\<lambda>i. half b (ctl P i) j"
  have "\<bar>?g (Suc i) - ?g i\<bar> \<le> D" if "i < 3" for i
    using assms that j by (intro half_close) (auto simp: patch_spread_def)
  from this [of 0] this [of 1] this [of 2]
  have "\<bar>?g 1 - ?g 0\<bar> \<le> D" "\<bar>?g 2 - ?g 1\<bar> \<le> D" "\<bar>?g 3 - ?g 2\<bar> \<le> D"
    by (simp_all add: numeral_2_eq_2 numeral_3_eq_3)
  from half_diff [where f = ?g, OF this, of a] i
  show "\<bar>quarter a b (ctl P) (Suc i) j - quarter a b (ctl P) i j\<bar> \<le> D / 2"
    by (auto simp: quarter_def numeral_3_eq_3 numeral_2_eq_2 less_Suc_eq)
qed

lemma patch_spread_subs:
  assumes "patch_spread P D" and "q \<in> set (patch_subs P)"
  shows "patch_spread q (D / 2)"
proof -
  obtain a b where "\<And>i j. i < 4 \<Longrightarrow> j < 4 \<Longrightarrow> ctl q i j = quarter a b (ctl P) i j"
    using patch_subs_quarter [OF assms(2)] by blast
  then show ?thesis using quarter_spread [OF assms(1), of _ _ a b] by (simp add: patch_spread_def)
qed

lemma patch_spread_nonneg: "patch_spread P D \<Longrightarrow> 0 \<le> D"
  unfolding patch_spread_def by (meson abs_ge_zero order_trans zero_less_numeral)

context comparison
begin

lemma cubic_below:
  assumes "0 \<le> t" "t \<le> 1" and "\<And>i. i < 4 \<Longrightarrow> s * f i \<le> M"
  shows "s * cubic f t \<le> M"
  using cubic_hull [OF assms(1,2), of "\<lambda>i. s * f i"] assms(3) by (simp add: cubic_scale)

lemma corners:
  "s * P ! 0 \<le> s * cornerbound P m" "s * P ! 3 \<le> s * cornerbound P m"
  "s * P ! 12 \<le> s * cornerbound P m" "s * P ! 15 \<le> s * cornerbound P m"
  by (simp_all add: cornerbound_def scaled)

lemma controls:
  "\<forall>k \<in> {1, 2, 4, 5, 6, 7, 8, 9, 10, 11, 13, 14}. s * P ! k \<le> s * controlbound P m"
  unfolding controlbound_def scaled by (simp only: ball_simps le_max_iff_disj order_refl simp_thms)

lemma patch_hull:
  assumes "y \<in> patch_points P"
  shows "s * y \<le> max (s * cornerbound P m) (s * controlbound P m)"
proof -
  let ?M = "max (s * cornerbound P m) (s * controlbound P m)"
  have le: "s * ctl P i j \<le> ?M" if "i < 4" "j < 4" for i j
    using four_cases [OF that(1)] four_cases [OF that(2)]
      corners [of P] controls [of P] by (elim disjE) (simp_all add: ctl_def le_max_iff_disj flip: numeral_2_eq_2)
  from assms obtain u v where uv: "0 \<le> u" "u \<le> 1" "0 \<le> v" "v \<le> 1" and y: "y = surf (ctl P) u v"
    by (auto simp: patch_points_def)
  show ?thesis
    unfolding y surf_def using le uv by (intro cubic_below) auto
qed

lemma near:
  assumes "\<bar>x - y\<bar> \<le> D"
  shows "s * y \<le> M \<Longrightarrow> s * x \<le> M + D" "s * x \<le> M \<Longrightarrow> s * y \<le> M + D"
  using assms sign by auto

lemma patch_control_near:
  assumes "patch_spread P D"
  shows "s * controlbound P m \<le> s * cornerbound P m + 2 * D"
proof -
  let ?c = "s * cornerbound P m"
  have row: "\<bar>P ! (4 * i + Suc j) - P ! (4 * i + j)\<bar> \<le> D" if "i < 4" "j < 3" for i j
    using assms that by (simp add: patch_spread_def ctl_def)
  have col: "\<bar>P ! (4 * Suc i + j) - P ! (4 * i + j)\<bar> \<le> D" if "i < 3" "j < 4" for i j
    using assms that by (simp only: patch_spread_def ctl_def)
  have r: "\<bar>P ! 1 - P ! 0\<bar> \<le> D" "\<bar>P ! 3 - P ! 2\<bar> \<le> D" "\<bar>P ! 5 - P ! 4\<bar> \<le> D" "\<bar>P ! 7 - P ! 6\<bar> \<le> D"
    "\<bar>P ! 9 - P ! 8\<bar> \<le> D" "\<bar>P ! 11 - P ! 10\<bar> \<le> D" "\<bar>P ! 13 - P ! 12\<bar> \<le> D" "\<bar>P ! 15 - P ! 14\<bar> \<le> D"
    using row [of 0 0] row [of 0 2] row [of 1 0] row [of 1 2] row [of 2 0] row [of 2 2] row [of 3 0]
      row [of 3 2] by (simp_all flip: numeral_2_eq_2)
  have c: "\<bar>P ! 4 - P ! 0\<bar> \<le> D" "\<bar>P ! 7 - P ! 3\<bar> \<le> D" "\<bar>P ! 12 - P ! 8\<bar> \<le> D" "\<bar>P ! 15 - P ! 11\<bar> \<le> D"
    using col [of 0 0] col [of 0 3] col [of 2 0] col [of 2 3] by simp_all
  have edge: "s * P ! 1 \<le> ?c + D" "s * P ! 2 \<le> ?c + D" "s * P ! 4 \<le> ?c + D" "s * P ! 7 \<le> ?c + D"
    "s * P ! 8 \<le> ?c + D" "s * P ! 11 \<le> ?c + D" "s * P ! 13 \<le> ?c + D" "s * P ! 14 \<le> ?c + D"
    by (rule near(1) [OF r(1) corners(1)] near(2) [OF r(2) corners(2)] near(1) [OF c(1) corners(1)]
      near(1) [OF c(2) corners(2)] near(2) [OF c(3) corners(3)] near(2) [OF c(4) corners(4)]
      near(1) [OF r(7) corners(3)] near(2) [OF r(8) corners(4)])+
  have inner: "s * P ! 5 \<le> ?c + D + D" "s * P ! 6 \<le> ?c + D + D" "s * P ! 9 \<le> ?c + D + D"
    "s * P ! 10 \<le> ?c + D + D"
    by (rule near(1) [OF r(3) edge(3)] near(2) [OF r(4) edge(4)] near(1) [OF r(5) edge(5)]
      near(2) [OF r(6) edge(6)])+
  have "x \<le> ?c + 2 * D" if "x \<le> ?c + D" for x using that patch_spread_nonneg [OF assms] by simp
  moreover have "x \<le> ?c + 2 * D" if "x \<le> ?c + D + D" for x using that by simp
  ultimately show ?thesis
    unfolding controlbound_def scaled using edge inner by (intro max.boundedI) blast+
qed

lemma corner_on_patch: "cornerbound P m \<in> patch_points P"
proof -
  have "P ! 0 = surf (ctl P) 0 0" "P ! 3 = surf (ctl P) 0 1" "P ! 12 = surf (ctl P) 1 0"
    "P ! 15 = surf (ctl P) 1 1" by (simp_all add: surf_def ctl_def)
  then have "{P ! 0, P ! 3, P ! 12, P ! 15} \<subseteq> patch_points P" by (auto intro: patch_pointsI)
  moreover have "cornerbound P m \<in> {P ! 0, P ! 3, P ! 12, P ! 15}"
    unfolding cornerbound_def using selects by (metis insertCI)
  ultimately show ?thesis by blast
qed

end

sublocale comparison \<subseteq> patch: subdivision m s "\<lambda>P. cornerbound P m" "\<lambda>P. controlbound P m"
  patch_subs patch_points patch_spread "\<lambda>P b fuzz d. bound P m b fuzz d"
proof unfold_locales
  show "bound P m b fuzz (Suc d) =
      (let b1 = m b (cornerbound P m)
       in if m (- 1) 1 * (b1 - controlbound P m) \<ge> - fuzz then b1
          else fold (\<lambda>q b. bound q m b (fuzz * 2) d) (patch_subs P) b1)" for P b fuzz d
    by (simp add: patch_subs_def Let_def split: prod.split)
qed (simp_all only: bound.simps(1) corner_on_patch patch_hull patch_spread_nonneg
  patch_control_near patch_spread_subs patch_points_subs [symmetric])

section \<open>Bezier triangles\<close>

text \<open>The cubic in barycentric coordinates: \<open>l\<close>, \<open>r\<close> and \<open>u\<close> belong to the corners 0, 6 and 9.\<close>

definition tri :: "(nat \<Rightarrow> real) \<Rightarrow> real \<Rightarrow> real \<Rightarrow> real \<Rightarrow> real" where
  "tri f l r u =
     l ^ 3 * f 0 + 3 * r * l\<^sup>2 * f 1 + 3 * u * l\<^sup>2 * f 2 + 3 * r\<^sup>2 * l * f 3 +
     6 * r * u * l * f 4 + 3 * u\<^sup>2 * l * f 5 + r ^ 3 * f 6 + 3 * r\<^sup>2 * u * f 7 +
     3 * r * u\<^sup>2 * f 8 + u ^ 3 * f 9"

definition tri_points :: "real list \<Rightarrow> real set" where
  "tri_points p = {tri (nth p) l r u |l r u. 0 \<le> l \<and> 0 \<le> r \<and> 0 \<le> u \<and> l + r + u = 1}"

text \<open>The neighbouring control values, in the three directions of the triangle.\<close>

definition tri_edges :: "(nat \<times> nat) list \<times> (nat \<times> nat) list \<times> (nat \<times> nat) list" where
  "tri_edges = ([(0, 1), (1, 3), (3, 6), (2, 4), (4, 7), (5, 8)],
     [(0, 2), (2, 5), (5, 9), (1, 4), (4, 8), (3, 7)],
     [(1, 2), (3, 4), (4, 5), (6, 7), (7, 8), (8, 9)])"

definition edges_spread :: "(nat \<times> nat) list \<Rightarrow> real list \<Rightarrow> real \<Rightarrow> bool" where
  "edges_spread es p D \<longleftrightarrow> (\<forall>(i, j) \<in> set es. \<bar>p ! i - p ! j\<bar> \<le> D)"

definition tri_spread :: "real list \<Rightarrow> real \<Rightarrow> bool" where
  "tri_spread p D \<longleftrightarrow> edges_spread (fst tri_edges) p D \<and>
     edges_spread (fst (snd tri_edges)) p D \<and> edges_spread (snd (snd tri_edges)) p D"

definition tri_subs :: "real list \<Rightarrow> real list list" where
  "tri_subs p = (case Splittri p of (l, r, u, c) \<Rightarrow> [l, r, u, c])"

lemma tri_subs_nth:
  fixes p :: "real list"
  assumes "Splittri p = (l', r', u', c')"
  shows "tri (nth l') l r u = tri (nth p) (l + (r + u) / 2) (r / 2) (u / 2)"
    and "tri (nth r') l r u = tri (nth p) (l / 2) (r + (l + u) / 2) (u / 2)"
    and "tri (nth u') l r u = tri (nth p) (l / 2) (r / 2) (u + (l + r) / 2)"
    and "tri (nth c') l r u = tri (nth p) ((r + u) / 2) ((l + u) / 2) ((l + r) / 2)"
  using assms
  by (auto simp: Splittri_def Let_def tri_def field_simps power2_eq_square power3_eq_cube)

lemma tri_points_subs: "tri_points p = (\<Union>q \<in> set (tri_subs p). tri_points q)"
proof -
  obtain l' r' u' c' where s: "Splittri p = (l', r', u', c')" by (cases "Splittri p") auto
  note t = tri_subs_nth [OF s]
  have subs: "(\<Union>q \<in> set (tri_subs p). tri_points q)
      = tri_points l' \<union> tri_points r' \<union> tri_points u' \<union> tri_points c'"
    by (auto simp: tri_subs_def s)
  have I: "tri (nth q) l r u \<in> tri_points q" if "0 \<le> l" "0 \<le> r" "0 \<le> u" "l + r + u = 1" for q l r u
    using that by (auto simp: tri_points_def)
  have "tri (nth p) l r u \<in> tri_points l' \<union> tri_points r' \<union> tri_points u' \<union> tri_points c'"
    if "0 \<le> l" "0 \<le> r" "0 \<le> u" "l + r + u = 1" for l r u
  proof -
    have e: "l = (1 - 2 * r + (1 - 2 * u)) / 2" "r = (1 - 2 * l + (1 - 2 * u)) / 2"
      "u = (1 - 2 * l + (1 - 2 * r)) / 2" using that by (simp_all add: field_simps)
    have average: "x - y - z + (2 * y + 2 * z) / 2 = x" for x y z :: real by (simp add: field_simps)
    have "tri (nth p) l r u = tri (nth l') (l - r - u) (2 * r) (2 * u)"
      "tri (nth p) l r u = tri (nth r') (2 * l) (r - l - u) (2 * u)"
      "tri (nth p) l r u = tri (nth u') (2 * l) (2 * r) (u - l - r)"
      "tri (nth p) l r u = tri (nth c') (1 - 2 * l) (1 - 2 * r) (1 - 2 * u)"
      unfolding t average e [symmetric] by simp_all
    then show ?thesis
      using I [of "l - r - u" "2 * r" "2 * u" l'] I [of "2 * l" "r - l - u" "2 * u" r']
        I [of "2 * l" "2 * r" "u - l - r" u'] I [of "1 - 2 * l" "1 - 2 * r" "1 - 2 * u" c'] that
      by (cases "l < 1 / 2"; cases "r < 1 / 2"; cases "u < 1 / 2") auto
  qed
  then have "tri_points p \<subseteq> tri_points l' \<union> tri_points r' \<union> tri_points u' \<union> tri_points c'"
    by (auto simp: tri_points_def [of p])
  moreover have "tri_points q \<subseteq> tri_points p" if "q \<in> {l', r', u', c'}" for q
  proof
    fix y assume "y \<in> tri_points q"
    then obtain l r u where y: "y = tri (nth q) l r u" and lru: "0 \<le> l" "0 \<le> r" "0 \<le> u" "l + r + u = 1"
      by (auto simp: tri_points_def)
    show "y \<in> tri_points p"
      using that lru unfolding y by (auto simp: t add_divide_distrib intro!: I)
  qed
  ultimately show ?thesis unfolding subs by blast
qed

lemma edges_spread_half:
  assumes "Splittri p = (l', r', u', c')" and "q \<in> {l', r', u', c'}"
  shows "edges_spread (fst tri_edges) p D \<Longrightarrow> edges_spread (fst tri_edges) q (D / 2)"
    and "edges_spread (fst (snd tri_edges)) p D \<Longrightarrow> edges_spread (fst (snd tri_edges)) q (D / 2)"
    and "edges_spread (snd (snd tri_edges)) p D \<Longrightarrow> edges_spread (snd (snd tri_edges)) q (D / 2)"
  using assms
  by (auto simp: edges_spread_def tri_edges_def Splittri_def Let_def abs_le_iff field_simps)

lemma tri_spread_subs:
  assumes "tri_spread p D" and "q \<in> set (tri_subs p)"
  shows "tri_spread q (D / 2)"
proof -
  obtain l' r' u' c' where s: "Splittri p = (l', r', u', c')" by (cases "Splittri p") auto
  with assms(2) have "q \<in> {l', r', u', c'}" by (auto simp: tri_subs_def)
  from edges_spread_half [OF s this] assms(1) show ?thesis unfolding tri_spread_def by blast
qed

lemma tri_spread_nonneg:
  assumes "tri_spread p D"
  shows "0 \<le> D"
proof -
  have "\<bar>p ! 0 - p ! 1\<bar> \<le> D" using assms by (simp add: tri_spread_def edges_spread_def tri_edges_def)
  then show ?thesis by linarith
qed

lemma tri_pointsI:
  "0 \<le> l \<Longrightarrow> 0 \<le> r \<Longrightarrow> 0 \<le> u \<Longrightarrow> l + r + u = 1 \<Longrightarrow> tri (nth p) l r u \<in> tri_points p"
  by (auto simp: tri_points_def)

lemma tri_corner: "p ! 0 \<in> tri_points p" "p ! 6 \<in> tri_points p" "p ! 9 \<in> tri_points p"
  using tri_pointsI [of 1 0 0 p] tri_pointsI [of 0 1 0 p] tri_pointsI [of 0 0 1 p]
  by (simp_all add: tri_def)

lemma tri_convex:
  assumes "0 \<le> l" "0 \<le> r" "0 \<le> u" "l + r + u = 1" and le: "\<And>i. i < 10 \<Longrightarrow> f i \<le> M"
  shows "tri f l r u \<le> M"
proof -
  have "tri f l r u \<le> l ^ 3 * M + 3 * r * l\<^sup>2 * M + 3 * u * l\<^sup>2 * M + 3 * r\<^sup>2 * l * M +
      6 * r * u * l * M + 3 * u\<^sup>2 * l * M + r ^ 3 * M + 3 * r\<^sup>2 * u * M + 3 * r * u\<^sup>2 * M + u ^ 3 * M"
    unfolding tri_def using assms(1-3) le by (intro add_mono mult_left_mono) auto
  also have "\<dots> = (l + r + u) ^ 3 * M"
    by (simp add: field_simps power2_eq_square power3_eq_cube)
  finally show ?thesis by (simp add: assms(4))
qed

lemma tri_scale: "tri (\<lambda>i. c * f i) l r u = c * tri f l r u"
  by (simp add: tri_def algebra_simps)

context comparison
begin

lemma tri_corners:
  "s * p ! 0 \<le> s * cornerboundtri p m" "s * p ! 6 \<le> s * cornerboundtri p m"
  "s * p ! 9 \<le> s * cornerboundtri p m"
  by (simp_all add: cornerboundtri_def scaled)

lemma tri_controls:
  "\<forall>k \<in> {1, 2, 3, 4, 5, 7, 8}. s * p ! k \<le> s * controlboundtri p m"
  unfolding controlboundtri_def scaled
  by (simp only: ball_simps le_max_iff_disj order_refl simp_thms)

lemma tri_hull:
  assumes "y \<in> tri_points p"
  shows "s * y \<le> max (s * cornerboundtri p m) (s * controlboundtri p m)"
proof -
  let ?M = "max (s * cornerboundtri p m) (s * controlboundtri p m)"
  have le: "s * p ! i \<le> ?M" if "i < 10" for i
  proof -
    have "i \<in> {0, 6, 9} \<union> {1, 2, 3, 4, 5, 7, 8}" using that by auto
    then show ?thesis
      using tri_corners [of p] bspec [OF tri_controls [of p], of i] unfolding le_max_iff_disj by auto
  qed
  from assms obtain l r u where "0 \<le> l" "0 \<le> r" "0 \<le> u" "l + r + u = 1"
    and y: "y = tri (nth p) l r u" by (auto simp: tri_points_def)
  with tri_convex [of l r u "\<lambda>i. s * p ! i" ?M] le show ?thesis by (simp add: tri_scale)
qed

lemma tri_control_near:
  assumes "tri_spread p D"
  shows "s * controlboundtri p m \<le> s * cornerboundtri p m + 2 * D"
proof -
  let ?c = "s * cornerboundtri p m"
  have e: "\<bar>p ! 0 - p ! 1\<bar> \<le> D" "\<bar>p ! 0 - p ! 2\<bar> \<le> D" "\<bar>p ! 3 - p ! 6\<bar> \<le> D" "\<bar>p ! 5 - p ! 9\<bar> \<le> D"
    "\<bar>p ! 6 - p ! 7\<bar> \<le> D" "\<bar>p ! 8 - p ! 9\<bar> \<le> D" "\<bar>p ! 1 - p ! 4\<bar> \<le> D"
    using assms by (simp_all add: tri_spread_def edges_spread_def tri_edges_def)
  have edge: "s * p ! 1 \<le> ?c + D" "s * p ! 2 \<le> ?c + D" "s * p ! 3 \<le> ?c + D" "s * p ! 5 \<le> ?c + D"
    "s * p ! 7 \<le> ?c + D" "s * p ! 8 \<le> ?c + D"
    by (rule near(2) [OF e(1) tri_corners(1)] near(2) [OF e(2) tri_corners(1)]
      near(1) [OF e(3) tri_corners(2)] near(1) [OF e(4) tri_corners(3)]
      near(2) [OF e(5) tri_corners(2)] near(1) [OF e(6) tri_corners(3)])+
  have inner: "s * p ! 4 \<le> ?c + D + D" by (rule near(2) [OF e(7) edge(1)])
  have "x \<le> ?c + 2 * D" if "x \<le> ?c + D" for x using that tri_spread_nonneg [OF assms] by simp
  moreover have "x \<le> ?c + 2 * D" if "x \<le> ?c + D + D" for x using that by simp
  ultimately show ?thesis
    unfolding controlboundtri_def scaled using edge inner by (intro max.boundedI) blast+
qed

lemma corner_on_tri: "cornerboundtri p m \<in> tri_points p"
proof -
  have "cornerboundtri p m \<in> {p ! 0, p ! 6, p ! 9}"
    unfolding cornerboundtri_def using selects by (metis insertCI)
  then show ?thesis using tri_corner [of p] by auto
qed

end

sublocale comparison \<subseteq> tri: subdivision m s "\<lambda>p. cornerboundtri p m" "\<lambda>p. controlboundtri p m"
  tri_subs tri_points tri_spread "\<lambda>p b fuzz d. boundtri p m b fuzz d"
proof unfold_locales
  show "boundtri p m b fuzz (Suc d) =
      (let b1 = m b (cornerboundtri p m)
       in if m (- 1) 1 * (b1 - controlboundtri p m) \<ge> - fuzz then b1
          else fold (\<lambda>q b. boundtri q m b (fuzz * 2) d) (tri_subs p) b1)" for p b fuzz d
    by (simp add: tri_subs_def Let_def split: prod.split)
qed (simp_all only: boundtri.simps(1) corner_on_tri tri_hull tri_spread_nonneg
  tri_control_near tri_spread_subs tri_points_subs [symmetric])

section \<open>Curves\<close>

type_synonym segment = "triple \<times> triple \<times> triple \<times> triple"

definition seg_ctl :: "(triple \<Rightarrow> real) \<Rightarrow> segment \<Rightarrow> nat \<Rightarrow> real" where
  "seg_ctl f p = (case p of (z0, c0, c1, z1) \<Rightarrow> (\<lambda>i. [f z0, f c0, f c1, f z1] ! i))"

definition seg_points :: "(triple \<Rightarrow> real) \<Rightarrow> segment \<Rightarrow> real set" where
  "seg_points f p = cubic (seg_ctl f p) ` {0..1}"

definition seg_spread :: "(triple \<Rightarrow> real) \<Rightarrow> segment \<Rightarrow> real \<Rightarrow> bool" where
  "seg_spread f p D \<longleftrightarrow> (\<forall>i < 3. \<bar>seg_ctl f p (Suc i) - seg_ctl f p i\<bar> \<le> D)"

definition seg_subs :: "segment \<Rightarrow> segment list" where
  "seg_subs p = (case p of (z0, c0, c1, z1) \<Rightarrow>
     let s = Split_new z0 c0 c1 z1
     in [(z0, s_m0 s, s_m3 s, s_m5 s), (s_m5 s, s_m4 s, s_m2 s, z1)])"

definition seg_corner :: "(real \<Rightarrow> real \<Rightarrow> real) \<Rightarrow> (triple \<Rightarrow> real) \<Rightarrow> segment \<Rightarrow> real" where
  "seg_corner m f p = (case p of (z0, c0, c1, z1) \<Rightarrow> m (f z0) (f z1))"

definition seg_control :: "(real \<Rightarrow> real \<Rightarrow> real) \<Rightarrow> (triple \<Rightarrow> real) \<Rightarrow> segment \<Rightarrow> real" where
  "seg_control m f p = (case p of (z0, c0, c1, z1) \<Rightarrow> ratiobound z0 c0 c1 z1 m f)"

definition seg_bound :: "(real \<Rightarrow> real \<Rightarrow> real) \<Rightarrow> (triple \<Rightarrow> real) \<Rightarrow> segment \<Rightarrow> real \<Rightarrow> real \<Rightarrow> nat \<Rightarrow> real" where
  "seg_bound m f p b fuzz d = (case p of (z0, c0, c1, z1) \<Rightarrow> bound_curve z0 c0 c1 z1 m f b fuzz d)"

lemma seg_subs_half:
  assumes "i < 4" and "f = v3x \<or> f = v3y \<or> f = v3z"
  shows "seg_ctl f (seg_subs p ! 0) i = half False (seg_ctl f p) i"
    and "seg_ctl f (seg_subs p ! 1) i = half True (seg_ctl f p) i"
proof -
  obtain z0 c0 c1 z1 where p: "p = (z0, c0, c1, z1)" by (cases p)
  show "seg_ctl f (seg_subs p ! 0) i = half False (seg_ctl f p) i"
    "seg_ctl f (seg_subs p ! 1) i = half True (seg_ctl f p) i"
    using four_cases [OF assms(1)] assms(2)
    by (auto simp: p seg_subs_def seg_ctl_def Split_new_def Let_def field_simps)
qed

lemma cubic_seg_subs:
  assumes "f = v3x \<or> f = v3y \<or> f = v3z"
  shows "cubic (seg_ctl f (seg_subs p ! 0)) t = cubic (seg_ctl f p) (half_at False t)"
    and "cubic (seg_ctl f (seg_subs p ! 1)) t = cubic (seg_ctl f p) (half_at True t)"
  unfolding cubic_half [symmetric] by (rule cubic_cong; rule seg_subs_half; simp add: assms)+

lemma set_seg_subs: "set (seg_subs p) = {seg_subs p ! 0, seg_subs p ! 1}"
  by (cases p) (auto simp: seg_subs_def Let_def)

lemma seg_subs_obtain:
  assumes "q \<in> set (seg_subs p)"
  obtains r where "\<And>i. i < 4 \<Longrightarrow> seg_ctl v3z q i = half r (seg_ctl v3z p) i"
  using assms seg_subs_half [of _ v3z] unfolding set_seg_subs by blast

lemma seg_points_subs: "seg_points v3z p = (\<Union>q \<in> set (seg_subs p). seg_points v3z q)"
proof -
  have sub: "cubic (seg_ctl v3z (seg_subs p ! 0)) = (\<lambda>t. cubic (seg_ctl v3z p) (half_at False t))"
    "cubic (seg_ctl v3z (seg_subs p ! 1)) = (\<lambda>t. cubic (seg_ctl v3z p) (half_at True t))"
    by (rule ext; rule cubic_seg_subs; simp)+
  have "t \<in> half_at False ` {0..1} \<union> half_at True ` {0..1}" if "t \<in> {0..1}" for t :: real
    using that half_at_cover [of t] by (metis (full_types) UnCI atLeastAtMost_iff imageI)
  moreover have "half_at r ` {0..1} \<subseteq> {0..1}" for r using half_at_range by auto
  ultimately have "{0..1} = half_at False ` {0..1} \<union> half_at True ` {0..1}" by blast
  then have "seg_points v3z p = (cubic (seg_ctl v3z p) \<circ> half_at False) ` {0..1} \<union>
      (cubic (seg_ctl v3z p) \<circ> half_at True) ` {0..1}"
    unfolding seg_points_def by (metis image_Un image_comp)
  also have "\<dots> = seg_points v3z (seg_subs p ! 0) \<union> seg_points v3z (seg_subs p ! 1)"
    by (simp only: seg_points_def sub comp_def)
  finally show ?thesis by (simp only: set_seg_subs UN_insert UN_empty Un_empty_right)
qed

lemma three_cases: "i < 3 \<Longrightarrow> i = 0 \<or> i = 1 \<or> i = (2 :: nat)"
  by arith

lemma seg_spread_iff: "seg_spread f p D \<longleftrightarrow>
    \<bar>seg_ctl f p 1 - seg_ctl f p 0\<bar> \<le> D \<and> \<bar>seg_ctl f p 2 - seg_ctl f p 1\<bar> \<le> D \<and>
    \<bar>seg_ctl f p 3 - seg_ctl f p 2\<bar> \<le> D"
  by (auto simp: seg_spread_def numeral_2_eq_2 numeral_3_eq_3 less_Suc_eq)

lemma seg_spread_subs:
  assumes "seg_spread v3z p D" and "q \<in> set (seg_subs p)"
  shows "seg_spread v3z q (D / 2)"
proof -
  obtain r where r: "\<And>i. i < 4 \<Longrightarrow> seg_ctl v3z q i = half r (seg_ctl v3z p) i"
    using seg_subs_obtain [OF assms(2)] by blast
  have "seg_ctl v3z q 0 = half r (seg_ctl v3z p) 0" "seg_ctl v3z q 1 = half r (seg_ctl v3z p) 1"
    "seg_ctl v3z q 2 = half r (seg_ctl v3z p) 2" "seg_ctl v3z q 3 = half r (seg_ctl v3z p) 3"
    by (rule r; simp)+
  then show ?thesis
    using assms(1) half_diff [of "seg_ctl v3z p" D r] unfolding seg_spread_iff by metis
qed

lemma seg_spread_nonneg: "seg_spread f p D \<Longrightarrow> 0 \<le> D"
  unfolding seg_spread_iff using abs_ge_zero order_trans by blast

context comparison
begin

text \<open>With the opposite sign the comparison selects the opposite extreme.\<close>

lemma opposite: "s * - m (- x) (- y) = min (s * x) (s * y)"
  using scaled [of "- x" "- y"] by (simp add: min_def max_def)

lemma ratio_z:
  "s * ratiobound z0 c0 c1 z1 m v3z =
     max (max (max (s * v3z z0) (s * v3z c0)) (s * v3z c1)) (s * v3z z1)"
proof -
  let ?Z = "m (m (m (v3z z0) (v3z c0)) (v3z c1)) (v3z z1)"
  let ?MZ = "m (m (m (- v3z z0) (- v3z c0)) (- v3z c1)) (- v3z z1)"
  have "s * - v3z z0 \<le> s * ?MZ" by (simp add: scaled)
  then have "s * - ?MZ \<le> s * v3z z0" by simp
  moreover have "s * v3z z0 \<le> s * ?Z" by (simp add: scaled)
  ultimately have "max (s * ?Z) (s * - ?MZ) = s * ?Z" by simp
  then show ?thesis by (simp add: ratiobound_def Let_def scaled)
qed

lemma ratio_xy:
  assumes "f = v3x \<or> f = v3y"
  shows "s * ratiobound z0 c0 c1 z1 m f \<le> s * f z0"
proof -
  have "s * - f z0 \<le> s * m (m (m (- f z0) (- f c0)) (- f c1)) (- f z1)" by (simp add: scaled)
  then have "s * - m (m (m (- f z0) (- f c0)) (- f c1)) (- f z1) \<le> s * f z0" by simp
  moreover have "m x x = x" for x using selects [of x x] by blast
  ultimately show ?thesis using assms by (auto simp: ratiobound_def Let_def)
qed

lemma curve_xy_ends:
  assumes "f = v3x \<or> f = v3y" and "0 \<le> fuzz"
  shows "bound_curve z0 c0 c1 z1 m f b fuzz d = m b (m (f z0) (f z1))"
proof (cases d)
  case (Suc d')
  let ?b1 = "m b (m (f z0) (f z1))"
  have "s * f z0 \<le> s * ?b1" by (simp add: scaled)
  then have "s * ratiobound z0 c0 c1 z1 m f \<le> s * ?b1 + fuzz"
    using ratio_xy [OF assms(1), of z0 c0 c1 z1] assms(2) by simp
  then have "m (- 1) 1 * (?b1 - ratiobound z0 c0 c1 z1 m f) \<ge> - fuzz"
    by (simp only: sign_eq scaled_diff)
  then show ?thesis by (simp add: Suc Let_def)
qed simp

lemma seg_hull:
  assumes "y \<in> seg_points v3z p"
  shows "s * y \<le> max (s * seg_corner m v3z p) (s * seg_control m v3z p)"
proof -
  obtain z0 c0 c1 z1 where p: "p = (z0, c0, c1, z1)" by (cases p)
  have "s * seg_ctl v3z p i \<le> s * seg_control m v3z p" if "i < 4" for i
    using four_cases [OF that] by (auto simp: p seg_ctl_def seg_control_def ratio_z)
  with assms have "s * y \<le> s * seg_control m v3z p"
    by (auto simp: seg_points_def intro: cubic_below)
  then show ?thesis by simp
qed

lemma seg_control_near:
  assumes "seg_spread v3z p D"
  shows "s * seg_control m v3z p \<le> s * seg_corner m v3z p + 2 * D"
proof -
  obtain z0 c0 c1 z1 where p: "p = (z0, c0, c1, z1)" by (cases p)
  let ?c = "s * seg_corner m v3z p"
  have d: "\<bar>v3z c0 - v3z z0\<bar> \<le> D" "\<bar>v3z z1 - v3z c1\<bar> \<le> D"
    using assms by (auto simp: p seg_spread_iff seg_ctl_def)
  have ends: "s * v3z z0 \<le> ?c" "s * v3z z1 \<le> ?c" by (simp_all add: p seg_corner_def scaled)
  have "s * v3z c0 \<le> ?c + D" "s * v3z c1 \<le> ?c + D"
    by (rule near(1) [OF d(1) ends(1)], rule near(2) [OF d(2) ends(2)])
  then show ?thesis
    using ends seg_spread_nonneg [OF assms] by (simp add: p seg_control_def ratio_z)
qed

lemma seg_corner_in: "seg_corner m v3z p \<in> seg_points v3z p"
proof -
  obtain z0 c0 c1 z1 where p: "p = (z0, c0, c1, z1)" by (cases p)
  have "cubic (seg_ctl v3z p) 0 = v3z z0" "cubic (seg_ctl v3z p) 1 = v3z z1"
    by (simp_all add: p seg_ctl_def)
  then have "v3z z0 \<in> seg_points v3z p" "v3z z1 \<in> seg_points v3z p"
    unfolding seg_points_def by (metis atLeastAtMost_iff imageI order_refl zero_le_one)+
  then show ?thesis using selects [of "v3z z0" "v3z z1"] by (auto simp: p seg_corner_def)
qed

end

sublocale comparison \<subseteq> seg: subdivision m s "seg_corner m v3z" "seg_control m v3z"
  seg_subs "seg_points v3z" "seg_spread v3z" "seg_bound m v3z"
proof unfold_locales
  show "seg_bound m v3z p b fuzz (Suc d) =
      (let b1 = m b (seg_corner m v3z p)
       in if m (- 1) 1 * (b1 - seg_control m v3z p) \<ge> - fuzz then b1
          else fold (\<lambda>q b. seg_bound m v3z q b (fuzz * 2) d) (seg_subs p) b1)" for p b fuzz d
    by (cases p) (simp add: seg_bound_def seg_corner_def seg_control_def seg_subs_def Let_def)
  show "seg_bound m v3z p b fuzz 0 = m b (seg_corner m v3z p)" for p b fuzz
    by (cases p) (simp add: seg_bound_def seg_corner_def)
qed (simp_all only: seg_corner_in seg_hull seg_spread_nonneg
  seg_control_near seg_spread_subs seg_points_subs [symmetric])

interpretation max_bound: comparison max 1
  by unfold_locales (auto simp: max_def)

interpretation min_bound: comparison min "- 1"
  by unfold_locales (auto simp: min_def max_def)

section \<open>The computed boxes\<close>

lemma norm_array_step:
  "fold (\<lambda>x result. let v = (if x < 0 then - x else x) in if v > result then v else result) a r \<ge> r \<and>
   (\<forall>x \<in> set a. \<bar>x\<bar> \<le> fold (\<lambda>x result. let v = (if x < 0 then - x else x)
     in if v > result then v else result) a (r :: real))"
proof (induction a arbitrary: r)
  case (Cons x a)
  let ?r = "if \<bar>x\<bar> > r then \<bar>x\<bar> else r"
  from Cons.IH [of ?r] show ?case by (auto simp: Let_def abs_if split: if_splits)
qed simp

lemma norm_array:
  "0 \<le> norm_array a" "i < length a \<Longrightarrow> \<bar>a ! i\<bar> \<le> norm_array a"
  using norm_array_step [of 0 a] by (simp_all add: norm_array_def)

lemma Fuzz_bounds: "0 \<le> Fuzz" "Fuzz \<le> 1 / 1960000"
proof -
  have "Fuzz2 \<le> (1 / 1960000)\<^sup>2" by (simp add: Fuzz2_def power2_eq_square)
  then show "Fuzz \<le> 1 / 1960000" unfolding Fuzz_def by (rule real_le_lsqrt [rotated]) simp
qed (simp add: Fuzz_def Fuzz2_def)

lemma tolerance:
  assumes "0 \<le> (n :: real)"
  shows "Fuzz * n * (2 * (2 * n)) \<le> (n / 700)\<^sup>2" and "max (n / 700) (2 * (2 * n) / 2 ^ maxdepth) = n / 700"
proof -
  have "Fuzz * (n * n) \<le> 1 / 1960000 * (n * n)"
    using Fuzz_bounds(2) assms by (intro mult_right_mono) auto
  then show "Fuzz * n * (2 * (2 * n)) \<le> (n / 700)\<^sup>2" by (simp add: power2_eq_square)
  show "max (n / 700) (2 * (2 * n) / 2 ^ maxdepth) = n / 700" using assms by (simp add: maxdepth_def)
qed

lemma close_norm:
  assumes "i < length a" "j < length a"
  shows "\<bar>a ! i - a ! j\<bar> \<le> 2 * norm_array a"
  using norm_array(2) [OF assms(1)] norm_array(2) [OF assms(2)] by linarith

context subdivision
begin

lemma range_within:
  assumes "spread P (2 * n)" and "0 \<le> n" and "y \<in> points P"
  shows "s * y \<le> s * bnd P b (Fuzz * n) maxdepth + n / 700"
  using within [OF assms(1) _ tolerance(1) [OF assms(2)] _ assms(3), of b maxdepth]
    tolerance(2) [OF assms(2)] assms(2) Fuzz_bounds(1) by simp

lemma range_attained:
  assumes "b \<in> points P"
  shows "bnd P b fuzz d \<in> points P"
  using attained [of P b fuzz d] assms by auto

end

lemma patch_spread_norm: "length c = 16 \<Longrightarrow> patch_spread c (2 * norm_array c)"
  by (auto simp: patch_spread_def ctl_def intro!: close_norm)

lemma tri_spread_norm: "length c = 10 \<Longrightarrow> tri_spread c (2 * norm_array c)"
  by (auto simp: tri_spread_def edges_spread_def tri_edges_def intro!: close_norm)

lemma patch_first: "c ! 0 \<in> patch_points c"
  using patch_pointsI [of 0 0 c] by (simp add: surf_def ctl_def)

text \<open>what a box computed for an object has to satisfy in each coordinate: both of its sides
  touch the set of values, and no value lies outside by more than a tolerance.\<close>

definition tight_range :: "real \<Rightarrow> real set \<Rightarrow> real \<times> real \<Rightarrow> bool" where
  "tight_range eps S r \<longleftrightarrow> fst r \<in> S \<and> snd r \<in> S \<and> (\<forall>y \<in> S. fst r - eps \<le> y \<and> y \<le> snd r + eps)"

lemma tight_rangeI:
  assumes "l \<in> S" and "h \<in> S" and "\<And>y. y \<in> S \<Longrightarrow> - 1 * y \<le> - 1 * l + eps"
    and "\<And>y. y \<in> S \<Longrightarrow> 1 * y \<le> 1 * h + eps"
  shows "tight_range eps S (l, h)"
  using assms by (force simp: tight_range_def)

lemma patch_range_tight:
  assumes "length c = 16"
  shows "tight_range (norm_array c / 700) (patch_points c) (patch_range c)"
  unfolding patch_range_def Let_def
  by (rule tight_rangeI)
     (rule min_bound.patch.range_attained max_bound.patch.range_attained patch_first
        min_bound.patch.range_within [OF patch_spread_norm [OF assms] norm_array(1)]
        max_bound.patch.range_within [OF patch_spread_norm [OF assms] norm_array(1)]; assumption?)+

lemma triangle_range_tight:
  assumes "length c = 10"
  shows "tight_range (norm_array c / 700) (tri_points c) (triangle_range c)"
  unfolding triangle_range_def Let_def
  by (rule tight_rangeI)
     (rule min_bound.tri.range_attained max_bound.tri.range_attained tri_corner(1)
        min_bound.tri.range_within [OF tri_spread_norm [OF assms] norm_array(1)]
        max_bound.tri.range_within [OF tri_spread_norm [OF assms] norm_array(1)]; assumption?)+

text \<open>C32: the box of a Bezier patch: in each coordinate both sides of the box are values of the
  surface, and the whole surface lies in the box up to 1/700 of the largest control value.\<close>

theorem patch_box_tight:
  assumes "length controls = 16"
  shows "(case computeBezierPatchBounds controls of (mn, mx) \<Rightarrow>
      tight_range (norm_array (map v3x controls) / 700) (patch_points (map v3x controls)) (v3x mn, v3x mx) \<and>
      tight_range (norm_array (map v3y controls) / 700) (patch_points (map v3y controls)) (v3y mn, v3y mx) \<and>
      tight_range (norm_array (map v3z controls) / 700) (patch_points (map v3z controls)) (v3z mn, v3z mx))"
  using patch_range_tight [of "map v3x controls"] patch_range_tight [of "map v3y controls"]
    patch_range_tight [of "map v3z controls"] assms
  by (simp add: computeBezierPatchBounds_def Let_def)

theorem patch_box_tight_witness:
  "tight_range (15 / 700) (patch_points (map real [0..<16]))
     (v3x (fst (computeBezierPatchBounds (map (\<lambda>i. V3 (real i) 0 1) [0..<16]))),
      v3x (snd (computeBezierPatchBounds (map (\<lambda>i. V3 (real i) 0 1) [0..<16]))))"
proof -
  have "map v3x (map (\<lambda>i. V3 (real i) 0 1) [0..<16]) = map real [0..<16]" by simp
  moreover have "norm_array (map real [0..<16]) = 15" by (simp add: norm_array_def upt_conv_Cons)
  ultimately show ?thesis
    using patch_box_tight [of "map (\<lambda>i. V3 (real i) 0 1) [0..<16]"] by (simp add: case_prod_beta comp_def)
qed

text \<open>C33: the box of a Bezier triangle, in the same way.\<close>

theorem triangle_box_tight:
  assumes "length controls = 10"
  shows "(case computeBezierTriangleBounds controls of (mn, mx) \<Rightarrow>
      tight_range (norm_array (map v3x controls) / 700) (tri_points (map v3x controls)) (v3x mn, v3x mx) \<and>
      tight_range (norm_array (map v3y controls) / 700) (tri_points (map v3y controls)) (v3y mn, v3y mx) \<and>
      tight_range (norm_array (map v3z controls) / 700) (tri_points (map v3z controls)) (v3z mn, v3z mx))"
  using triangle_range_tight [of "map v3x controls"] triangle_range_tight [of "map v3y controls"]
    triangle_range_tight [of "map v3z controls"] assms
  by (simp add: computeBezierTriangleBounds_def Let_def)

theorem triangle_box_tight_witness:
  "tight_range (9 / 700) (tri_points (map real [0..<10]))
     (v3x (fst (computeBezierTriangleBounds (map (\<lambda>i. V3 (real i) 0 1) [0..<10]))),
      v3x (snd (computeBezierTriangleBounds (map (\<lambda>i. V3 (real i) 0 1) [0..<10]))))"
proof -
  have "map v3x (map (\<lambda>i. V3 (real i) 0 1) [0..<10]) = map real [0..<10]" by simp
  moreover have "norm_array (map real [0..<10]) = 9" by (simp add: norm_array_def upt_conv_Cons)
  ultimately show ?thesis
    using triangle_box_tight [of "map (\<lambda>i. V3 (real i) 0 1) [0..<10]"] by (simp add: case_prod_beta comp_def)
qed

lemma seg_first: "v3z z0 \<in> seg_points v3z (z0, c0, c1, z1)"
proof -
  have "cubic (seg_ctl v3z (z0, c0, c1, z1)) 0 = v3z z0" by (simp add: seg_ctl_def)
  then show ?thesis unfolding seg_points_def by (metis atLeastAtMost_iff imageI order_refl zero_le_one)
qed

lemma curve_range_z:
  "tight_range (norm_array (map v3z [z0, c0, c1, z1]) / 700) (seg_points v3z (z0, c0, c1, z1))
     (curve_range [z0, c0, c1, z1] v3z)"
proof -
  let ?p = "(z0, c0, c1, z1)" and ?a = "map v3z [z0, c0, c1, z1]"
  have "seg_spread v3z ?p (2 * norm_array ?a)"
    using close_norm [of 1 ?a 0] close_norm [of 2 ?a 1] close_norm [of 3 ?a 2]
    by (simp add: seg_spread_iff seg_ctl_def)
  note spread = this norm_array(1)
  have "tight_range (norm_array ?a / 700) (seg_points v3z ?p)
      (seg_bound min v3z ?p (v3z z0) (Fuzz * norm_array ?a) maxdepth,
       seg_bound max v3z ?p (v3z z0) (Fuzz * norm_array ?a) maxdepth)"
    by (rule tight_rangeI)
       (rule min_bound.seg.range_attained max_bound.seg.range_attained seg_first
          min_bound.seg.range_within [OF spread] max_bound.seg.range_within [OF spread]; assumption?)+
  then show ?thesis by (simp add: curve_range_def seg_bound_def Let_def)
qed

lemma curve_range_xy:
  assumes "f = v3x \<or> f = v3y"
  shows "curve_range [z0, c0, c1, z1] f = (min (f z0) (f z1), max (f z0) (f z1))"
  using Fuzz_bounds(1) norm_array(1) [of "map f [z0, c0, c1, z1]"]
  by (simp add: curve_range_def Let_def min_bound.curve_xy_ends [OF assms]
      max_bound.curve_xy_ends [OF assms])

text \<open>C34: the box of a curve: in \<open>z\<close> it is tight, but in \<open>x\<close> and \<open>y\<close> it is the range of the two end
  points alone, because \<open>ratiobound\<close> hands the opposite extremes of \<open>x\<close> and \<open>y\<close> to the coordinate
  function (as its original use, a ratio to a negative \<open>z\<close>, needs) and so ends the recursion at
  once. A curve that bulges leaves its box: the last line has a point with \<open>y = 3/4\<close> whose box has
  no height.\<close>

theorem curve_box_ends_only:
  "(case computeBezierCurveBounds [z0, c0, c1, z1] of (mn, mx) \<Rightarrow>
      v3x mn = min (v3x z0) (v3x z1) \<and> v3x mx = max (v3x z0) (v3x z1) \<and>
      v3y mn = min (v3y z0) (v3y z1) \<and> v3y mx = max (v3y z0) (v3y z1) \<and>
      tight_range (norm_array (map v3z [z0, c0, c1, z1]) / 700) (seg_points v3z (z0, c0, c1, z1))
        (v3z mn, v3z mx)) \<and>
   (case computeBezierCurveBounds [V3 0 0 0, V3 0 1 0, V3 1 1 0, V3 1 0 0] of (mn, mx) \<Rightarrow>
      v3y mx = 0 \<and> 3 / 4 \<in> seg_points v3y (V3 0 0 0, V3 0 1 0, V3 1 1 0, V3 1 0 0))"
proof (rule conjI)
  show "case computeBezierCurveBounds [z0, c0, c1, z1] of (mn, mx) \<Rightarrow>
      v3x mn = min (v3x z0) (v3x z1) \<and> v3x mx = max (v3x z0) (v3x z1) \<and>
      v3y mn = min (v3y z0) (v3y z1) \<and> v3y mx = max (v3y z0) (v3y z1) \<and>
      tight_range (norm_array (map v3z [z0, c0, c1, z1]) / 700) (seg_points v3z (z0, c0, c1, z1))
        (v3z mn, v3z mx)"
    using curve_range_z [of z0 c0 c1 z1]
    by (simp add: computeBezierCurveBounds_def curve_range_xy Let_def)
  have "cubic (seg_ctl v3y (V3 0 0 0, V3 0 1 0, V3 1 1 0, V3 1 0 0)) (1 / 2) = 3 / 4"
    by (simp add: cubic_def seg_ctl_def power2_eq_square)
  then have "3 / 4 \<in> seg_points v3y (V3 0 0 0, V3 0 1 0, V3 1 1 0, V3 1 0 0)"
    unfolding seg_points_def by (intro image_eqI [of _ _ "1 / 2"]) auto
  then show "case computeBezierCurveBounds [V3 0 0 0, V3 0 1 0, V3 1 1 0, V3 1 0 0] of (mn, mx) \<Rightarrow>
      v3y mx = 0 \<and> 3 / 4 \<in> seg_points v3y (V3 0 0 0, V3 0 1 0, V3 1 1 0, V3 1 0 0)"
    by (simp add: computeBezierCurveBounds_def curve_range_xy Let_def)
qed

end
