(* ===== verification/VertexBuffer.thy ===== *)
theory VertexBuffer
  imports Triple
begin

text \<open>
  The vertex buffers that all objects are tessellated into (\<^verbatim>\<open>asymptote/render.h\<close>) and the
  projected bounding boxes that decide what is off the screen (\<^verbatim>\<open>asymptote/bbox2.h\<close>). The three
  kinds of vertices are records of points and colours (\<open>glm\<close> floats are idealised as reals); an
  index is a 32-bit word, so that it wraps around; the reserved capacity of the vectors is not part of the
  state. The projection matrix that \<open>getProjViewMat\<close> returns and the normal matrix of
  \<open>getNormMat\<close> are arguments.

  The main result is stated once for the three kinds of vertices, as a locale: extending a buffer by
  another one concatenates the shapes that the buffers describe, as long as the number of vertices
  fits into the index type.
\<close>

section \<open>Vertices and buffers\<close>

record MaterialVertex =
  mv_position :: triple
  mv_normal :: triple
  mv_material :: int

record ColorVertex =
  cv_position :: triple
  cv_normal :: triple
  cv_material :: int
  cv_color :: "real vec4"

record PointVertex =
  pv_position :: triple
  pv_width :: real
  pv_material :: int

record VertexBuffer =
  materialVertices :: "MaterialVertex list"
  colorVertices :: "ColorVertex list"
  pointVertices :: "PointVertex list"
  indices :: "uint32 list"
  renderCount :: int

definition VertexBuffer_new :: VertexBuffer where
  "VertexBuffer_new = \<lparr>materialVertices = [], colorVertices = [], pointVertices = [],
     indices = [], renderCount = 0\<rparr>"

definition VertexBuffer_clear :: "VertexBuffer \<Rightarrow> VertexBuffer" where
  "VertexBuffer_clear d = d\<lparr>materialVertices := [], colorVertices := [], pointVertices := [],
     indices := []\<rparr>"

definition addMaterialVertex :: "MaterialVertex \<Rightarrow> VertexBuffer \<Rightarrow> uint32 \<times> VertexBuffer" where
  "addMaterialVertex v d =
     (of_nat (length (materialVertices d)), d\<lparr>materialVertices := materialVertices d @ [v]\<rparr>)"

definition addColorVertex :: "ColorVertex \<Rightarrow> VertexBuffer \<Rightarrow> uint32 \<times> VertexBuffer" where
  "addColorVertex v d =
     (of_nat (length (colorVertices d)), d\<lparr>colorVertices := colorVertices d @ [v]\<rparr>)"

definition addPointVertex :: "PointVertex \<Rightarrow> VertexBuffer \<Rightarrow> uint32 \<times> VertexBuffer" where
  "addPointVertex v d =
     (of_nat (length (pointVertices d)), d\<lparr>pointVertices := pointVertices d @ [v]\<rparr>)"

definition extendOffset :: "uint32 list \<Rightarrow> uint32 list \<Rightarrow> uint32 \<Rightarrow> uint32 list" where
  "extendOffset a b offset = a @ map (\<lambda>i. i + offset) b"

definition extendMaterial :: "VertexBuffer \<Rightarrow> VertexBuffer \<Rightarrow> VertexBuffer" where
  "extendMaterial other d =
     d\<lparr>indices := extendOffset (indices d) (indices other) (of_nat (length (materialVertices d))),
       materialVertices := materialVertices d @ materialVertices other\<rparr>"

definition extendColor :: "VertexBuffer \<Rightarrow> VertexBuffer \<Rightarrow> VertexBuffer" where
  "extendColor other d =
     d\<lparr>indices := extendOffset (indices d) (indices other) (of_nat (length (colorVertices d))),
       colorVertices := colorVertices d @ colorVertices other\<rparr>"

definition extendPoint :: "VertexBuffer \<Rightarrow> VertexBuffer \<Rightarrow> VertexBuffer" where
  "extendPoint other d =
     d\<lparr>indices := extendOffset (indices d) (indices other) (of_nat (length (pointVertices d))),
       pointVertices := pointVertices d @ pointVertices other\<rparr>"

text \<open>The globals that the renderers share: one buffer for each kind of primitive, the index of the
  current material and the copy of it that the renderers take (a \<open>size_t\<close> and an \<open>int\<close> in the code,
  which no document comes near to overflow).\<close>

record render_globals =
  materialData :: VertexBuffer
  colorData :: VertexBuffer
  triangleData :: VertexBuffer
  transparentData :: VertexBuffer
  pointData :: VertexBuffer
  lineData :: VertexBuffer
  MaterialIndex :: int
  materialIndex :: int

definition empty_globals :: render_globals where
  "empty_globals = \<lparr>materialData = VertexBuffer_new, colorData = VertexBuffer_new,
     triangleData = VertexBuffer_new, transparentData = VertexBuffer_new,
     pointData = VertexBuffer_new, lineData = VertexBuffer_new, MaterialIndex = 0, materialIndex = 0\<rparr>"

section \<open>Projected boxes\<close>

record bbox2 =
  b2x :: real  b2y :: real  b2X :: real  b2Y :: real

definition bbox2_Bounds :: "(nat \<Rightarrow> real) \<Rightarrow> triple \<Rightarrow> bbox2" where
  "bbox2_Bounds pv v =
     (let V = Transform2T pv v in \<lparr>b2x = v2x V, b2y = v2y V, b2X = v2x V, b2Y = v2y V\<rparr>)"

definition bbox2_bounds :: "(nat \<Rightarrow> real) \<Rightarrow> triple \<Rightarrow> bbox2 \<Rightarrow> bbox2" where
  "bbox2_bounds pv v B =
     (let V = Transform2T pv v; a = v2x V; b = v2y V;
          B1 = (if a < b2x B then B\<lparr>b2x := a\<rparr> else if a > b2X B then B\<lparr>b2X := a\<rparr> else B)
      in if b < b2y B1 then B1\<lparr>b2y := b\<rparr> else if b > b2Y B1 then B1\<lparr>b2Y := b\<rparr> else B1)"

definition bbox2_points :: "(nat \<Rightarrow> real) \<Rightarrow> triple list \<Rightarrow> bbox2" where
  "bbox2_points pv vs = fold (bbox2_bounds pv) (tl vs) (bbox2_Bounds pv (hd vs))"

definition box_corners :: "triple \<Rightarrow> triple \<Rightarrow> triple list" where
  "box_corners mn mx =
     [mn, V3 (v3x mn) (v3y mn) (v3z mx), V3 (v3x mn) (v3y mx) (v3z mn),
      V3 (v3x mn) (v3y mx) (v3z mx), V3 (v3x mx) (v3y mn) (v3z mn),
      V3 (v3x mx) (v3y mn) (v3z mx), V3 (v3x mx) (v3y mx) (v3z mn), mx]"

definition bbox2_box :: "(nat \<Rightarrow> real) \<Rightarrow> triple \<Rightarrow> triple \<Rightarrow> bbox2" where
  "bbox2_box pv mn mx = bbox2_points pv (box_corners mn mx)"

definition bbox2_billboard :: "(nat \<Rightarrow> real) \<Rightarrow> (nat \<Rightarrow> real) \<Rightarrow> triple \<Rightarrow> triple \<Rightarrow> triple \<Rightarrow> bbox2" where
  "bbox2_billboard pv BBT mn mx BB =
     bbox2_points pv (map (billboardTransform BBT BB) (box_corners mn mx))"

definition bbox2_offscreen :: "bbox2 \<Rightarrow> bool" where
  "bbox2_offscreen B = (let eps = 1 / 100; mn = - 1 - eps; mx = 1 + eps
     in b2X B < mn \<or> b2x B > mx \<or> b2Y B < mn \<or> b2y B > mx)"

section \<open>Shapes\<close>

text \<open>A kind of vertices: how a buffer stores them, how one vertex is added and how a buffer is
  extended by another. The shape of a buffer is the list of the vertices its indices refer to.\<close>

lemma unat_index: "n < 2 ^ 32 \<Longrightarrow> unat (of_nat n :: uint32) = n"
  by (simp add: unat_of_nat take_bit_nat_eq_self)

locale vertex_kind =
  fixes verts :: "VertexBuffer \<Rightarrow> 'v list"
    and add :: "'v \<Rightarrow> VertexBuffer \<Rightarrow> uint32 \<times> VertexBuffer"
    and extend :: "VertexBuffer \<Rightarrow> VertexBuffer \<Rightarrow> VertexBuffer"
  assumes add_index: "fst (add v d) = of_nat (length (verts d))"
    and add_verts: "verts (snd (add v d)) = verts d @ [v]"
    and add_indices: "indices (snd (add v d)) = indices d"
    and extend_verts: "verts (extend other d) = verts d @ verts other"
    and extend_indices: "indices (extend other d) =
      indices d @ map (\<lambda>i. i + of_nat (length (verts d))) (indices other)"
begin

definition shape :: "VertexBuffer \<Rightarrow> 'v list" where
  "shape d = map (\<lambda>i. verts d ! unat i) (indices d)"

definition valid :: "VertexBuffer \<Rightarrow> bool" where
  "valid d \<longleftrightarrow> (\<forall>i \<in> set (indices d). unat i < length (verts d))"

lemma offset_index:
  fixes i :: uint32
  assumes "unat i < n" and "k + n \<le> 2 ^ 32"
  shows "unat (i + of_nat k) = k + unat i"
proof -
  have "unat (of_nat k :: uint32) = k" using assms by (intro unat_index) simp
  then have "unat (i + of_nat k) = (unat i + k) mod 2 ^ 32"
    by (simp only: unat_word_ariths(1) len_of_numeral_defs) simp
  also have "\<dots> = unat i + k" using assms by (intro mod_less) linarith
  finally show ?thesis by simp
qed

lemma extend_shape:
  assumes "valid d" and "valid other" and "length (verts d) + length (verts other) \<le> 2 ^ 32"
  shows "valid (extend other d)" and "shape (extend other d) = shape d @ shape other"
  using assms offset_index [OF _ assms(3)]
  by (auto simp: valid_def shape_def extend_verts extend_indices nth_append)

lemma add_shape:
  assumes "valid d" and "length (verts d) < 2 ^ 32" and "add v d = (i, d')"
  shows "valid d'" and "shape d' = shape d" and "verts d' ! unat i = v"
proof -
  have d': "verts d' = verts d @ [v]" "indices d' = indices d" "i = of_nat (length (verts d))"
    using add_verts [of v d] add_indices [of v d] add_index [of v d] assms(3) by auto
  then show "valid d'" "shape d' = shape d" "verts d' ! unat i = v"
    using assms(1,2) by (auto simp: valid_def shape_def nth_append unat_index)
qed

end

interpretation material: vertex_kind materialVertices addMaterialVertex extendMaterial
  by unfold_locales (simp_all add: addMaterialVertex_def extendMaterial_def extendOffset_def)

interpretation color: vertex_kind colorVertices addColorVertex extendColor
  by unfold_locales (simp_all add: addColorVertex_def extendColor_def extendOffset_def)

interpretation point: vertex_kind pointVertices addPointVertex extendPoint
  by unfold_locales (simp_all add: addPointVertex_def extendPoint_def extendOffset_def)

end
