(* ===== verification/BezierCurve.thy ===== *)
theory BezierCurve
  imports Bezier VertexBuffer
begin

text \<open>
  The adaptive rendering of Bezier curves and of single pixels (\<^verbatim>\<open>asymptote/beziercurve.h\<close>,
  \<^verbatim>\<open>asymptote/beziercurve.cc\<close>). The recursion of \<open>render\<close> is a partial function, whose value is
  \<^term>\<open>None\<close> when the recursion does not end; \<open>pv\<close> is the projection matrix and \<open>mi\<close> the global
  \<open>MaterialIndex\<close>. A polyline that \<open>render\<close> queues is proved to follow the curve to within the
  resolution.
\<close>

section \<open>The code\<close>

record BezierCurve =
  bc_data :: VertexBuffer
  bc_res :: real
  bc_res2 :: real
  Onscreen :: bool

definition BezierCurve_new :: BezierCurve where
  "BezierCurve_new = \<lparr>bc_data = VertexBuffer_new, bc_res = 0, bc_res2 = 0, Onscreen = True\<rparr>"

definition BezierCurve_init :: "real \<Rightarrow> BezierCurve \<times> render_globals \<Rightarrow> BezierCurve \<times> render_globals" where
  "BezierCurve_init r st = (case st of (b, g) \<Rightarrow>
     (b\<lparr>bc_res := r, bc_res2 := r * r\<rparr>, g\<lparr>MaterialIndex := materialIndex g\<rparr>))"

definition curve_offscreen :: "(nat \<Rightarrow> real) \<Rightarrow> triple list \<Rightarrow> BezierCurve \<Rightarrow> bool \<times> BezierCurve" where
  "curve_offscreen pv v b =
     (if bbox2_offscreen (bbox2_points pv v) then (True, b\<lparr>Onscreen := False\<rparr>) else (False, b))"

definition curve_normal :: "triple \<Rightarrow> triple \<Rightarrow> triple" where
  "curve_normal bP bPP = dot bP bP *\<^sub>R bPP - dot bP bPP *\<^sub>R bP"

definition curve_add :: "triple \<Rightarrow> triple \<Rightarrow> int \<Rightarrow> BezierCurve \<Rightarrow> uint32 \<times> BezierCurve" where
  "curve_add p n mi b =
     (case addMaterialVertex \<lparr>mv_position = p, mv_normal = n, mv_material = mi\<rparr> (bc_data b) of
        (i, d) \<Rightarrow> (i, b\<lparr>bc_data := d\<rparr>))"

definition push_segment :: "uint32 \<Rightarrow> uint32 \<Rightarrow> BezierCurve \<Rightarrow> BezierCurve" where
  "push_segment i j b = b\<lparr>bc_data := (bc_data b)\<lparr>indices := indices (bc_data b) @ [i, j]\<rparr>\<rparr>"

partial_function (option) render_indexed ::
  "(nat \<Rightarrow> real) \<Rightarrow> int \<Rightarrow> segment \<Rightarrow> uint32 \<Rightarrow> uint32 \<Rightarrow> BezierCurve \<Rightarrow> BezierCurve option" where
  "render_indexed pv mi p I0 I1 b =
     (case p of (p0, p1, p2, p3) \<Rightarrow>
        if Straightness p0 p1 p2 p3 < bc_res2 b
        then (case curve_offscreen pv [p0, p3] b of (off, b1) \<Rightarrow>
                Some (if off then b1 else push_segment I0 I1 b1))
        else (case curve_offscreen pv [p0, p1, p2, p3] b of (off, b1) \<Rightarrow>
                if off then Some b1
                else let s = Split_new p0 p1 p2 p3;
                         n0 = curve_normal (bezierPh p0 p1 p2 p3) (bezierPPh p0 p1 p2 p3)
                     in case curve_add (s_m5 s) n0 mi b1 of (i0, b2) \<Rightarrow>
                          Option.bind (render_indexed pv mi (p0, s_m0 s, s_m3 s, s_m5 s) I0 i0 b2)
                            (render_indexed pv mi (s_m5 s, s_m4 s, s_m2 s, p3) i0 I1)))"

definition curve_append :: "BezierCurve \<times> render_globals \<Rightarrow> BezierCurve \<times> render_globals" where
  "curve_append st = (case st of (b, g) \<Rightarrow> (b, g\<lparr>lineData := extendMaterial (bc_data b) (lineData g)\<rparr>))"

definition BezierCurve_render :: "(nat \<Rightarrow> real) \<Rightarrow> segment \<Rightarrow> bool \<Rightarrow> BezierCurve \<times> render_globals \<Rightarrow>
    (BezierCurve \<times> render_globals) option" where
  "BezierCurve_render pv p straight st = (case p of (p0, p1, p2, p3) \<Rightarrow> case st of (b, g) \<Rightarrow>
     let n0 = (if straight then V3 0 0 1 else curve_normal (p1 - p0) (p0 + p2 - 2 *\<^sub>R p1));
         n1 = (if straight then V3 0 0 1 else curve_normal (p3 - p2) (p3 + p1 - 2 *\<^sub>R p2))
     in case curve_add p0 n0 (MaterialIndex g) b of (i0, b1) \<Rightarrow>
        case curve_add p3 n1 (MaterialIndex g) b1 of (i3, b2) \<Rightarrow>
          if straight then Some (curve_append (push_segment i0 i3 b2, g))
          else map_option (\<lambda>b3. curve_append (b3, g)) (render_indexed pv (MaterialIndex g) p i0 i3 b2))"

definition curve_notRendered :: "render_globals \<Rightarrow> render_globals" where
  "curve_notRendered g = g\<lparr>lineData := (lineData g)\<lparr>renderCount := 0\<rparr>\<rparr>"

definition pixelResolution :: real where "pixelResolution = 1"

definition BezierCurve_queue :: "(nat \<Rightarrow> real) \<Rightarrow> segment \<Rightarrow> bool \<Rightarrow> real \<Rightarrow>
    BezierCurve \<times> render_globals \<Rightarrow> (BezierCurve \<times> render_globals) option" where
  "BezierCurve_queue pv p straight ratio st = (case st of (b, g) \<Rightarrow>
     BezierCurve_render pv p straight (BezierCurve_init (pixelResolution * ratio)
       (b\<lparr>bc_data := VertexBuffer_clear (bc_data b), Onscreen := True\<rparr>, curve_notRendered g)))"

definition Pixel_append :: "VertexBuffer \<Rightarrow> render_globals \<Rightarrow> render_globals" where
  "Pixel_append d g = g\<lparr>pointData := extendPoint d (pointData g)\<rparr>"

definition Pixel_notRendered :: "render_globals \<Rightarrow> render_globals" where
  "Pixel_notRendered g = g\<lparr>pointData := (pointData g)\<lparr>renderCount := 0\<rparr>\<rparr>"

definition Pixel_queue :: "triple \<Rightarrow> real \<Rightarrow> VertexBuffer \<times> render_globals \<Rightarrow> VertexBuffer \<times> render_globals" where
  "Pixel_queue p w st = (case st of (d, g) \<Rightarrow>
     let g1 = Pixel_notRendered g;
         g2 = g1\<lparr>MaterialIndex := materialIndex g1\<rparr>
     in case addPointVertex \<lparr>pv_position = p, pv_width = w, pv_material = MaterialIndex g2\<rparr>
               (VertexBuffer_clear d) of
          (i, d1) \<Rightarrow> let d2 = d1\<lparr>indices := indices d1 @ [i]\<rparr> in (d2, Pixel_append d2 g2))"

section \<open>Straightness\<close>

lemma dot_le: "\<bar>2 * dot A B\<bar> \<le> abs2 A + abs2 B"
proof -
  have "0 \<le> (v3x A + v3x B)\<^sup>2 + (v3y A + v3y B)\<^sup>2 + (v3z A + v3z B)\<^sup>2"
    "0 \<le> (v3x A - v3x B)\<^sup>2 + (v3y A - v3y B)\<^sup>2 + (v3z A - v3z B)\<^sup>2" by simp_all
  then show ?thesis
    by (simp add: dot_def abs2_def abs_le_iff power2_eq_square algebra_simps)
qed

lemma abs2_combination:
  "abs2 (x *\<^sub>R A + y *\<^sub>R B) \<le> (\<bar>x\<bar> + \<bar>y\<bar>)\<^sup>2 * max (abs2 A) (abs2 B)"
proof -
  let ?M = "max (abs2 A) (abs2 B)"
  have "x * y * (2 * dot A B) \<le> \<bar>x * y\<bar> * \<bar>2 * dot A B\<bar>"
    by (metis abs_ge_self abs_mult)
  also have "\<dots> \<le> \<bar>x * y\<bar> * (2 * ?M)"
    using dot_le [of A B] by (intro mult_left_mono) auto
  finally have "x\<^sup>2 * abs2 A + y\<^sup>2 * abs2 B + x * y * (2 * dot A B)
      \<le> x\<^sup>2 * ?M + y\<^sup>2 * ?M + \<bar>x * y\<bar> * (2 * ?M)"
    by (intro add_mono mult_left_mono) auto
  moreover have "abs2 (x *\<^sub>R A + y *\<^sub>R B) = x\<^sup>2 * abs2 A + y\<^sup>2 * abs2 B + x * y * (2 * dot A B)"
    by (simp add: abs2_def dot_def power2_eq_square algebra_simps)
  moreover have "x\<^sup>2 * ?M + y\<^sup>2 * ?M + \<bar>x * y\<bar> * (2 * ?M) = (\<bar>x\<bar> + \<bar>y\<bar>)\<^sup>2 * ?M"
    by (simp add: power2_sum abs_mult algebra_simps)
  ultimately show ?thesis by simp
qed

definition dev0 :: "segment \<Rightarrow> triple" where
  "dev0 p = (case p of (z0, c0, c1, z1) \<Rightarrow> c0 - third *\<^sub>R (z1 - z0) - z0)"

definition dev1 :: "segment \<Rightarrow> triple" where
  "dev1 p = (case p of (z0, c0, c1, z1) \<Rightarrow> z1 - third *\<^sub>R (z1 - z0) - c1)"

definition seg_straightness :: "segment \<Rightarrow> real" where
  "seg_straightness p = (case p of (z0, c0, c1, z1) \<Rightarrow> Straightness z0 c0 c1 z1)"

lemma seg_straightness_dev: "seg_straightness p = max (abs2 (dev0 p)) (abs2 (dev1 p))"
  by (simp add: seg_straightness_def dev0_def dev1_def Straightness_def Let_def split: prod.split)

lemma dev_halves:
  "dev0 (seg_subs p ! 0) = (3 / 8) *\<^sub>R dev0 p + (1 / 8) *\<^sub>R dev1 p"
  "dev1 (seg_subs p ! 0) = (- 1 / 4) *\<^sub>R dev0 p + 0 *\<^sub>R dev1 p"
  "dev0 (seg_subs p ! 1) = 0 *\<^sub>R dev0 p + (- 1 / 4) *\<^sub>R dev1 p"
  "dev1 (seg_subs p ! 1) = (1 / 8) *\<^sub>R dev0 p + (3 / 8) *\<^sub>R dev1 p"
  by (cases p; simp add: seg_subs_def dev0_def dev1_def Split_new_def third_def Let_def
        vec3.expand field_simps; fail)+

lemma straightness_halves:
  assumes "q \<in> set (seg_subs p)"
  shows "seg_straightness q \<le> seg_straightness p / 4"
proof -
  have le: "abs2 (x *\<^sub>R dev0 p + y *\<^sub>R dev1 p) \<le> seg_straightness p / 4"
    if "\<bar>x\<bar> + \<bar>y\<bar> \<le> 1 / 2" for x y
  proof -
    have "(\<bar>x\<bar> + \<bar>y\<bar>)\<^sup>2 \<le> (1 / 2)\<^sup>2" using that by (intro power_mono) auto
    then have "(\<bar>x\<bar> + \<bar>y\<bar>)\<^sup>2 * seg_straightness p \<le> (1 / 2)\<^sup>2 * seg_straightness p"
      by (intro mult_right_mono) (auto simp: seg_straightness_dev abs2_def le_max_iff_disj)
    then show ?thesis
      using abs2_combination [of x "dev0 p" y "dev1 p"]
      by (simp add: seg_straightness_dev power2_eq_square)
  qed
  show ?thesis
    using assms le [of "3 / 8" "1 / 8"] le [of "- 1 / 4" 0] le [of 0 "- 1 / 4"] le [of "1 / 8" "3 / 8"]
    unfolding set_seg_subs seg_straightness_dev [of q] by (auto simp only: dev_halves insert_iff empty_iff max.bounded_iff)
qed

definition curve_at :: "segment \<Rightarrow> real \<Rightarrow> triple" where
  "curve_at p t = V3 (cubic (seg_ctl v3x p) t) (cubic (seg_ctl v3y p) t) (cubic (seg_ctl v3z p) t)"

definition chord :: "triple \<Rightarrow> triple \<Rightarrow> real \<Rightarrow> triple" where
  "chord A B t = (1 - t) *\<^sub>R A + t *\<^sub>R B"

lemma curve_at_subs:
  "curve_at (seg_subs p ! 0) t = curve_at p (half_at False t)"
  "curve_at (seg_subs p ! 1) t = curve_at p (half_at True t)"
  unfolding curve_at_def by (simp_all only: cubic_seg_subs simp_thms)

lemma curve_chord: "curve_at p t - chord (curve_at p 0) (curve_at p 1) t =
    (3 * t * (1 - t)\<^sup>2) *\<^sub>R dev0 p + (- 3 * t\<^sup>2 * (1 - t)) *\<^sub>R dev1 p"
  by (cases p) (simp add: curve_at_def chord_def dev0_def dev1_def third_def seg_ctl_def cubic_def
      vec3.expand field_simps power2_eq_square power3_eq_cube)

lemma flat_close:
  assumes "0 \<le> t" "t \<le> 1"
  shows "abs2 (curve_at p t - chord (curve_at p 0) (curve_at p 1) t) \<le> 9 / 16 * seg_straightness p"
proof -
  have "\<bar>3 * t * (1 - t)\<^sup>2\<bar> + \<bar>- 3 * t\<^sup>2 * (1 - t)\<bar> = 3 * t * (1 - t)\<^sup>2 + 3 * t\<^sup>2 * (1 - t)"
    using assms by simp
  also have "\<dots> = 3 * (t * (1 - t))" by (simp add: field_simps power2_eq_square)
  also have "\<dots> \<le> 3 / 4" using zero_le_power2 [of "2 * t - 1"] by (simp add: power2_eq_square algebra_simps)
  finally have "(\<bar>3 * t * (1 - t)\<^sup>2\<bar> + \<bar>- 3 * t\<^sup>2 * (1 - t)\<bar>)\<^sup>2 \<le> (3 / 4)\<^sup>2"
    by (intro power_mono) auto
  then have "(\<bar>3 * t * (1 - t)\<^sup>2\<bar> + \<bar>- 3 * t\<^sup>2 * (1 - t)\<bar>)\<^sup>2 * seg_straightness p
      \<le> (3 / 4)\<^sup>2 * seg_straightness p"
    by (intro mult_right_mono) (auto simp: seg_straightness_dev abs2_def le_max_iff_disj)
  then show ?thesis
    using abs2_combination [of "3 * t * (1 - t)\<^sup>2" "dev0 p" "- 3 * t\<^sup>2 * (1 - t)" "dev1 p"]
    unfolding curve_chord seg_straightness_dev [of p, symmetric]
    by (simp add: power2_eq_square)
qed

section \<open>Polylines\<close>

text \<open>The segments \<open>segs\<close> trace the curve \<open>C\<close>: their end points are points of the curve at
  increasing parameters from 0 to 1, each segment beginning where the one before it ends, and the
  curve between them stays close to the segment.\<close>

definition traced :: "(real \<Rightarrow> triple) \<Rightarrow> real \<Rightarrow> (triple \<times> triple) list \<Rightarrow> bool" where
  "traced C e segs \<longleftrightarrow>
     (\<exists>ts. ts \<noteq> [] \<and> sorted_wrt (<) ts \<and> hd ts = 0 \<and> last ts = 1 \<and>
        segs = map (\<lambda>(a, b). (C a, C b)) (zip ts (tl ts)) \<and>
        (\<forall>(a, b) \<in> set (zip ts (tl ts)). \<forall>t \<in> {0..1}.
           abs2 (C (a + t * (b - a)) - chord (C a) (C b) t) \<le> e))"

lemma zip_tl_append:
  assumes "xs \<noteq> []" and "ys \<noteq> []" and "last xs = hd ys"
  shows "zip (xs @ tl ys) (tl (xs @ tl ys)) = zip xs (tl xs) @ zip ys (tl ys)"
  using assms
proof (induction xs)
  case (Cons x xs)
  show ?case
  proof (cases xs)
    case Nil
    with Cons.prems show ?thesis by (cases ys) auto
  next
    case (Cons x' xs')
    with Cons.IH Cons.prems show ?thesis by simp
  qed
qed simp

lemma zip_tl_map: "zip (map f xs) (tl (map f xs)) = map (\<lambda>(a, b). (f a, f b)) (zip xs (tl xs))"
  by (simp add: map_tl [symmetric] zip_map_map)

lemma sorted_wrt_last: "sorted_wrt (<) xs \<Longrightarrow> x \<in> set xs \<Longrightarrow> x \<le> (last xs :: real)"
  by (induction xs) (auto intro: less_imp_le)

lemma sorted_wrt_hd: "sorted_wrt (<) xs \<Longrightarrow> x \<in> set (tl xs) \<Longrightarrow> (hd xs :: real) < x"
  by (cases xs) auto

lemma traced_join:
  assumes "traced (\<lambda>t. C (half_at False t)) e s0" and "traced (\<lambda>t. C (half_at True t)) e s1"
  shows "traced C e (s0 @ s1)"
proof -
  from assms(1) obtain ts0 where t0: "ts0 \<noteq> []" "sorted_wrt (<) ts0" "hd ts0 = 0" "last ts0 = 1"
    and s0: "s0 = map (\<lambda>(a, b). (C (half_at False a), C (half_at False b))) (zip ts0 (tl ts0))"
    and e0: "\<forall>(a, b) \<in> set (zip ts0 (tl ts0)). \<forall>t \<in> {0..1}.
      abs2 (C (half_at False (a + t * (b - a))) - chord (C (half_at False a)) (C (half_at False b)) t) \<le> e"
    unfolding traced_def by blast
  from assms(2) obtain ts1 where t1: "ts1 \<noteq> []" "sorted_wrt (<) ts1" "hd ts1 = 0" "last ts1 = 1"
    and s1: "s1 = map (\<lambda>(a, b). (C (half_at True a), C (half_at True b))) (zip ts1 (tl ts1))"
    and e1: "\<forall>(a, b) \<in> set (zip ts1 (tl ts1)). \<forall>t \<in> {0..1}.
      abs2 (C (half_at True (a + t * (b - a))) - chord (C (half_at True a)) (C (half_at True b)) t) \<le> e"
    unfolding traced_def by blast
  let ?l = "map (half_at False) ts0" and ?r = "map (half_at True) ts1"
  let ?ts = "?l @ tl ?r"
  have meet: "last ?l = hd ?r" using t0 t1 by (simp add: last_map hd_map half_at_def)
  have z: "zip ?ts (tl ?ts) = zip ?l (tl ?l) @ zip ?r (tl ?r)"
    using t0(1) t1(1) meet by (intro zip_tl_append) auto
  have mono: "half_at r a < half_at r b \<longleftrightarrow> a < b" for r a b by (auto simp: half_at_def)
  have "sorted_wrt (<) ?l" using t0(2) by (simp add: sorted_wrt_map mono)
  moreover have "sorted_wrt (<) ?r" using t1(2) by (simp add: sorted_wrt_map mono)
  moreover have "x < y" if x: "x \<in> set ?l" and y: "y \<in> set (tl ?r)" for x y
  proof -
    have "x \<le> last ?l" using \<open>sorted_wrt (<) ?l\<close> x by (rule sorted_wrt_last)
    also have "\<dots> < y" unfolding meet using \<open>sorted_wrt (<) ?r\<close> y by (rule sorted_wrt_hd)
    finally show ?thesis .
  qed
  moreover have "sorted_wrt (<) (tl ?r)" using \<open>sorted_wrt (<) ?r\<close> by (cases ?r) auto
  ultimately have sorted: "sorted_wrt (<) ?ts" by (simp add: sorted_wrt_append)
  have "?ts \<noteq> []" "hd ?ts = 0" using t0 by (auto simp: hd_append hd_map half_at_def)
  moreover have "last ?ts = 1"
  proof (cases "tl ?r = []")
    case True
    then have "ts1 = [hd ts1]" using t1(1) by (cases ts1) auto
    then have "last ts1 = hd ts1" by (metis last_ConsL)
    with t1 show ?thesis by simp
  next
    case False
    then have "last ?ts = last ?r" by (simp add: last_tl)
    then show ?thesis using t1 by (simp add: last_map half_at_def)
  qed
  moreover have "s0 @ s1 = map (\<lambda>(a, b). (C a, C b)) (zip ?ts (tl ?ts))"
    unfolding z s0 s1 zip_tl_map by (simp add: case_prod_beta comp_def)
  moreover have aff: "half_at r a + t * (half_at r b - half_at r a) = half_at r (a + t * (b - a))" for r a b t
    by (simp add: half_at_def field_simps)
  have "\<forall>(a, b) \<in> set (zip ?ts (tl ?ts)). \<forall>t \<in> {0..1}.
      abs2 (C (a + t * (b - a)) - chord (C a) (C b) t) \<le> e"
    unfolding z zip_tl_map using e0 e1 by (auto simp: aff)
  ultimately show ?thesis using sorted unfolding traced_def by blast
qed

lemma traced_flat:
  assumes "seg_straightness p \<le> r"
  shows "traced (curve_at p) (9 / 16 * r) [(curve_at p 0, curve_at p 1)]"
proof -
  have "abs2 (curve_at p t - chord (curve_at p 0) (curve_at p 1) t) \<le> 9 / 16 * r"
    if "t \<in> {0..1}" for t
    using flat_close [of t p] that assms by simp
  then show ?thesis unfolding traced_def by (intro exI [of _ "[0, 1]"]) simp
qed

section \<open>What render adds to the buffer\<close>

fun index_pairs :: "'a list \<Rightarrow> ('a \<times> 'a) list" where
  "index_pairs (a # b # xs) = (a, b) # index_pairs xs"
| "index_pairs _ = []"

definition pos_at :: "MaterialVertex list \<Rightarrow> uint32 \<Rightarrow> triple" where
  "pos_at V i = mv_position (V ! unat i)"

text \<open>The segments that a list of indices describes, and the condition that the vertices of the two
  ends of a curve are there.\<close>

definition drawn_segments :: "MaterialVertex list \<Rightarrow> uint32 list \<Rightarrow> (triple \<times> triple) list" where
  "drawn_segments V is = index_pairs (map (pos_at V) is)"

definition ends_at :: "segment \<Rightarrow> uint32 \<Rightarrow> uint32 \<Rightarrow> MaterialVertex list \<Rightarrow> bool" where
  "ends_at p I0 I1 V \<longleftrightarrow> unat I0 < length V \<and> unat I1 < length V \<and>
     pos_at V I0 = curve_at p 0 \<and> pos_at V I1 = curve_at p 1"

definition extended :: "MaterialVertex list \<Rightarrow> uint32 list \<Rightarrow> bool \<Rightarrow> BezierCurve \<Rightarrow> BezierCurve" where
  "extended vs is on b = b\<lparr>bc_data := (bc_data b)\<lparr>materialVertices := materialVertices (bc_data b) @ vs,
     indices := indices (bc_data b) @ is\<rparr>, Onscreen := on\<rparr>"

definition drawn :: "segment \<Rightarrow> uint32 \<Rightarrow> uint32 \<Rightarrow> BezierCurve \<Rightarrow> BezierCurve \<Rightarrow> bool" where
  "drawn p I0 I1 b b' \<longleftrightarrow>
     (\<exists>vs is. b' = extended vs is (Onscreen b') b \<and> (Onscreen b' \<longrightarrow> Onscreen b) \<and>
        (let V = materialVertices (bc_data b); V' = V @ vs
         in Onscreen b' \<and> length V' \<le> 2 ^ 32 \<and> ends_at p I0 I1 V \<longrightarrow>
              even (length is) \<and> (\<forall>i \<in> set is. unat i < length V') \<and>
              traced (curve_at p) (9 / 16 * bc_res2 b) (drawn_segments V' is)))"

lemma index_pairs_append:
  "even (length xs) \<Longrightarrow> index_pairs (xs @ ys) = index_pairs xs @ index_pairs ys"
  by (induction xs rule: index_pairs.induct) auto

lemma pos_at_append: "unat i < length V \<Longrightarrow> pos_at (V @ vs) i = pos_at V i"
  by (simp add: pos_at_def nth_append)

lemma drawn_segments_append:
  assumes "even (length is)" and "\<forall>i \<in> set is. unat i < length V"
  shows "drawn_segments (V @ vs) (is @ js) = drawn_segments V is @ drawn_segments (V @ vs) js"
proof -
  have "map (pos_at (V @ vs)) is = map (pos_at V) is" using assms(2) by (simp add: pos_at_append)
  with assms(1) show ?thesis
    by (simp only: drawn_segments_def map_append index_pairs_append length_map)
qed

lemma extended_self: "b = extended [] [] (Onscreen b) b"
  by (simp add: extended_def)

lemma extended_twice:
  "extended ws js on2 (extended vs is on1 b) = extended (vs @ ws) (is @ js) on2 b"
  by (simp add: extended_def)

lemma drawn_nothing: "drawn p I0 I1 b (b\<lparr>Onscreen := False\<rparr>)"
  unfolding drawn_def by (intro exI [of _ "[]"]) (simp add: extended_def)

lemma drawn_flat:
  assumes "seg_straightness p \<le> bc_res2 b"
  shows "drawn p I0 I1 b (push_segment I0 I1 b)"
proof -
  have "push_segment I0 I1 b = extended [] [I0, I1] (Onscreen b) b" "Onscreen (push_segment I0 I1 b) = Onscreen b"
    by (simp_all add: push_segment_def extended_def)
  moreover have "traced (curve_at p) (9 / 16 * bc_res2 b) (drawn_segments (V @ []) [I0, I1])"
    if "ends_at p I0 I1 V" for V
    using that traced_flat [OF assms] by (simp add: drawn_segments_def ends_at_def)
  ultimately show ?thesis
    unfolding drawn_def Let_def
    by (intro exI [of _ "[]"] exI [of _ "[I0, I1]"]) (auto simp: ends_at_def)
qed

lemma curve_add_eq:
  "curve_add pt n mi b = (of_nat (length (materialVertices (bc_data b))),
     extended [\<lparr>mv_position = pt, mv_normal = n, mv_material = mi\<rparr>] [] (Onscreen b) b)"
  by (simp add: curve_add_def addMaterialVertex_def extended_def)

lemma extended_sel [simp]:
  "materialVertices (bc_data (extended vs is on b)) = materialVertices (bc_data b) @ vs"
  "indices (bc_data (extended vs is on b)) = indices (bc_data b) @ is"
  "Onscreen (extended vs is on b) = on" "bc_res2 (extended vs is on b) = bc_res2 b"
  by (simp_all add: extended_def)

lemma curve_at_ends:
  "curve_at (seg_subs p ! 0) 0 = curve_at p 0" "curve_at (seg_subs p ! 0) 1 = curve_at p (1 / 2)"
  "curve_at (seg_subs p ! 1) 0 = curve_at p (1 / 2)" "curve_at (seg_subs p ! 1) 1 = curve_at p 1"
  unfolding curve_at_subs by (simp_all add: half_at_def)

lemma ends_at_append: "ends_at p I0 I1 V \<Longrightarrow> ends_at p I0 I1 (V @ vs)"
  by (auto simp: ends_at_def pos_at_append)

lemma drawn_split:
  assumes add: "curve_add (curve_at p (1 / 2)) n mi b = (i0, b1)"
    and d0: "drawn (seg_subs p ! 0) I0 i0 b1 b2" and d1: "drawn (seg_subs p ! 1) i0 I1 b2 b3"
  shows "drawn p I0 I1 b b3"
proof -
  let ?v = "\<lparr>mv_position = curve_at p (1 / 2), mv_normal = n, mv_material = mi\<rparr>"
  let ?V = "materialVertices (bc_data b)" and ?e = "9 / 16 * bc_res2 b"
  have b1: "b1 = extended [?v] [] (Onscreen b) b" and i0: "i0 = of_nat (length ?V)"
    using add by (simp_all add: curve_add_eq)
  from d0 obtain vs0 is0 where b2: "b2 = extended vs0 is0 (Onscreen b2) b1"
    and on0: "Onscreen b2 \<longrightarrow> Onscreen b1"
    and t0: "Onscreen b2 \<and> length (?V @ [?v] @ vs0) \<le> 2 ^ 32 \<and> ends_at (seg_subs p ! 0) I0 i0 (?V @ [?v]) \<longrightarrow>
      even (length is0) \<and> (\<forall>i \<in> set is0. unat i < length (?V @ [?v] @ vs0)) \<and>
      traced (curve_at (seg_subs p ! 0)) ?e (drawn_segments (?V @ [?v] @ vs0) is0)"
    unfolding drawn_def Let_def by (auto simp: b1)
  have V2: "materialVertices (bc_data b2) = ?V @ [?v] @ vs0" "bc_res2 b2 = bc_res2 b"
    by (subst b2, simp add: b1)+
  from d1 obtain vs1 is1 where b3: "b3 = extended vs1 is1 (Onscreen b3) b2"
    and on1: "Onscreen b3 \<longrightarrow> Onscreen b2"
    and t1: "Onscreen b3 \<and> length (?V @ [?v] @ vs0 @ vs1) \<le> 2 ^ 32 \<and>
        ends_at (seg_subs p ! 1) i0 I1 (?V @ [?v] @ vs0) \<longrightarrow>
      even (length is1) \<and> (\<forall>i \<in> set is1. unat i < length (?V @ [?v] @ vs0 @ vs1)) \<and>
      traced (curve_at (seg_subs p ! 1)) ?e (drawn_segments (?V @ [?v] @ vs0 @ vs1) is1)"
    unfolding drawn_def Let_def V2 by auto
  let ?W = "?V @ [?v] @ vs0 @ vs1"
  have eq: "b3 = extended ([?v] @ vs0 @ vs1) (is0 @ is1) (Onscreen b3) b"
    using b3 b2 b1 by (metis append_Nil append_assoc extended_twice)
  have "even (length (is0 @ is1)) \<and> (\<forall>i \<in> set (is0 @ is1). unat i < length ?W) \<and>
      traced (curve_at p) ?e (drawn_segments ?W (is0 @ is1))"
    if on: "Onscreen b3" and len: "length ?W \<le> 2 ^ 32" and ends: "ends_at p I0 I1 ?V"
  proof -
    have u: "unat i0 = length ?V" unfolding i0 using len by (intro unat_index) simp
    have mid: "pos_at (?V @ [?v]) i0 = curve_at p (1 / 2)" by (simp add: pos_at_def u)
    have e0: "ends_at (seg_subs p ! 0) I0 i0 (?V @ [?v])"
      using ends mid by (auto simp: ends_at_def pos_at_append curve_at_ends u simp del: One_nat_def)
    have e1: "ends_at (seg_subs p ! 1) i0 I1 (?V @ [?v])"
      using ends mid by (auto simp: ends_at_def pos_at_append curve_at_ends u simp del: One_nat_def)
    from t0 on on1 len e0 have is0: "even (length is0)" "\<forall>i \<in> set is0. unat i < length (?V @ [?v] @ vs0)"
      "traced (\<lambda>t. curve_at p (half_at False t)) ?e (drawn_segments (?V @ [?v] @ vs0) is0)"
      unfolding curve_at_subs [symmetric] by auto
    from t1 on len ends_at_append [OF e1, of vs0]
    have is1: "even (length is1)" "\<forall>i \<in> set is1. unat i < length ?W"
      "traced (\<lambda>t. curve_at p (half_at True t)) ?e (drawn_segments ?W is1)"
      unfolding curve_at_subs [symmetric] by (auto simp del: One_nat_def)
    from drawn_segments_append [OF is0(1,2), of vs1 is1] traced_join [OF is0(3) is1(3)]
    show ?thesis using is0(1,2) is1(1,2) by auto
  qed
  with eq on0 on1 b1 show ?thesis
    unfolding drawn_def Let_def by (intro exI [of _ "[?v] @ vs0 @ vs1"] exI [of _ "is0 @ is1"]) auto
qed

section \<open>render\<close>

lemma render_indexed_seg:
  "render_indexed pv mi p I0 I1 b =
     (if seg_straightness p < bc_res2 b
      then (case curve_offscreen pv [curve_at p 0, curve_at p 1] b of (off, b1) \<Rightarrow>
              Some (if off then b1 else push_segment I0 I1 b1))
      else (case p of (p0, p1, p2, p3) \<Rightarrow>
            case curve_offscreen pv [p0, p1, p2, p3] b of (off, b1) \<Rightarrow>
              if off then Some b1
              else case curve_add (curve_at p (1 / 2))
                     (curve_normal (bezierPh p0 p1 p2 p3) (bezierPPh p0 p1 p2 p3)) mi b1 of
                (i0, b2) \<Rightarrow>
                  Option.bind (render_indexed pv mi (seg_subs p ! 0) I0 i0 b2)
                    (render_indexed pv mi (seg_subs p ! 1) i0 I1)))"
proof -
  obtain p0 p1 p2 p3 where p: "p = (p0, p1, p2, p3)" by (cases p)
  have "curve_at p 0 = p0" "curve_at p 1 = p3"
    by (simp_all add: p curve_at_def seg_ctl_def)
  moreover have "curve_at p (1 / 2) = s_m5 (Split_new p0 p1 p2 p3)"
    by (rule vec3.expand)
       (simp add: p curve_at_def seg_ctl_def cubic_def Split_new_def Let_def
        power2_eq_square power3_eq_cube add_divide_distrib)
  ultimately show ?thesis
    by (subst render_indexed.simps)
       (simp add: p seg_straightness_def seg_subs_def Let_def case_prod_unfold)
qed

lemma render_indexed_drawn:
  assumes "0 < bc_res2 b" and "seg_straightness p < bc_res2 b * 4 ^ n"
  shows "\<exists>b'. render_indexed pv mi p I0 I1 b = Some b' \<and> drawn p I0 I1 b b'"
  using assms
proof (induction n arbitrary: p I0 I1 b)
  case 0
  then show ?case
    using drawn_flat [of p b] drawn_nothing [of p I0 I1 b]
    by (subst render_indexed_seg) (simp add: curve_offscreen_def)
next
  case (Suc n)
  show ?case
  proof (cases "seg_straightness p < bc_res2 b")
    case True
    then show ?thesis
      using drawn_flat [of p b] drawn_nothing [of p I0 I1 b]
      by (subst render_indexed_seg) (simp add: curve_offscreen_def)
  next
    case False
    obtain p0 p1 p2 p3 where p: "p = (p0, p1, p2, p3)" by (cases p)
    show ?thesis
    proof (cases "bbox2_offscreen (bbox2_points pv [p0, p1, p2, p3])")
      case True
      with False show ?thesis
        using drawn_nothing [of p I0 I1 b]
        by (subst render_indexed_seg) (simp add: curve_offscreen_def p)
    next
      case visible: False
      let ?n = "curve_normal (bezierPh p0 p1 p2 p3) (bezierPPh p0 p1 p2 p3)"
      obtain i0 b1 where add: "curve_add (curve_at p (1 / 2)) ?n mi b = (i0, b1)" by fastforce
      then have res1: "bc_res2 b1 = bc_res2 b" by (auto simp: curve_add_eq)
      have half: "seg_straightness q < bc_res2 b * 4 ^ n" if "q \<in> set (seg_subs p)" for q
        using straightness_halves [OF that] Suc.prems(2) by simp
      have q: "seg_subs p ! 0 \<in> set (seg_subs p)" "seg_subs p ! 1 \<in> set (seg_subs p)"
        by (simp_all only: set_seg_subs insert_iff simp_thms)
      obtain b2 where b2: "render_indexed pv mi (seg_subs p ! 0) I0 i0 b1 = Some b2"
        and d0: "drawn (seg_subs p ! 0) I0 i0 b1 b2"
        using Suc.IH [of b1 "seg_subs p ! 0"] half [OF q(1)] Suc.prems(1) unfolding res1 by blast
      then have res2: "bc_res2 b2 = bc_res2 b"
        unfolding drawn_def by (metis extended_sel(4) res1)
      obtain b3 where "render_indexed pv mi (seg_subs p ! 1) i0 I1 b2 = Some b3"
        and "drawn (seg_subs p ! 1) i0 I1 b2 b3"
        using Suc.IH [of b2 "seg_subs p ! 1"] half [OF q(2)] Suc.prems(1) unfolding res2 by blast
      with b2 add visible False drawn_split [OF add d0] show ?thesis
        by (subst render_indexed_seg) (simp add: curve_offscreen_def p)
    qed
  qed
qed

lemma render_indexed_total:
  assumes "0 < bc_res2 b"
  obtains b' where "render_indexed pv mi p I0 I1 b = Some b'" and "drawn p I0 I1 b b'"
proof -
  obtain n where "seg_straightness p / bc_res2 b < 4 ^ n"
    using real_arch_pow [of 4 "seg_straightness p / bc_res2 b"] by auto
  then have "seg_straightness p < bc_res2 b * 4 ^ n"
    using assms by (simp add: field_simps)
  from render_indexed_drawn [OF assms this] that show ?thesis by blast
qed

section \<open>queue\<close>

lemma curve_add_two:
  assumes "curve_add P n0 mi b = (i0, b1)" and "curve_add Q n1 mi b1 = (i3, b2)"
    and "materialVertices (bc_data b) = []"
  shows "i0 = 0" and "i3 = 1" and "materialVertices (bc_data b2) =
      [\<lparr>mv_position = P, mv_normal = n0, mv_material = mi\<rparr>,
       \<lparr>mv_position = Q, mv_normal = n1, mv_material = mi\<rparr>]"
    and "indices (bc_data b2) = indices (bc_data b)" and "bc_res2 b2 = bc_res2 b"
    and "Onscreen b2 = Onscreen b"
  using assms by (auto simp: curve_add_eq)

text \<open>One call of \<open>queue\<close>: what the curve's own buffer holds and what is appended to \<open>lineData\<close>.\<close>

lemma queue_result:
  assumes "ratio \<noteq> 0"
  shows "\<exists>b' g'. BezierCurve_queue pv p straight ratio (b, g) = Some (b', g') \<and>
    lineData g' = extendMaterial (bc_data b') ((lineData g)\<lparr>renderCount := 0\<rparr>) \<and>
    (straight \<longrightarrow> drawn_segments (materialVertices (bc_data b')) (indices (bc_data b')) =
        [(curve_at p 0, curve_at p 1)] \<and> material.valid (bc_data b')) \<and>
    (\<not> straight \<and> Onscreen b' \<and> length (materialVertices (bc_data b')) \<le> 2 ^ 32 \<longrightarrow>
        material.valid (bc_data b') \<and> even (length (indices (bc_data b'))) \<and>
        traced (curve_at p) (9 / 16 * ratio\<^sup>2)
          (drawn_segments (materialVertices (bc_data b')) (indices (bc_data b'))))"
proof -
  obtain p0 p1 p2 p3 where p: "p = (p0, p1, p2, p3)" by (cases p)
  have ends: "curve_at p 0 = p0" "curve_at p 1 = p3" by (simp_all add: p curve_at_def seg_ctl_def)
  define g1 where "g1 = (curve_notRendered g)\<lparr>MaterialIndex := materialIndex g\<rparr>"
  define b0 where "b0 = b\<lparr>bc_data := VertexBuffer_clear (bc_data b), Onscreen := True,
    bc_res := ratio, bc_res2 := ratio * ratio\<rparr>"
  have init: "BezierCurve_init (pixelResolution * ratio)
      (b\<lparr>bc_data := VertexBuffer_clear (bc_data b), Onscreen := True\<rparr>, curve_notRendered g) = (b0, g1)"
    by (simp add: BezierCurve_init_def pixelResolution_def b0_def g1_def curve_notRendered_def)
  define n0 where "n0 = (if straight then V3 0 0 1 else curve_normal (p1 - p0) (p0 + p2 - 2 *\<^sub>R p1))"
  define n1 where "n1 = (if straight then V3 0 0 1 else curve_normal (p3 - p2) (p3 + p1 - 2 *\<^sub>R p2))"
  obtain i0 b1 where a0: "curve_add p0 n0 (MaterialIndex g1) b0 = (i0, b1)" by fastforce
  obtain i3 b2 where a1: "curve_add p3 n1 (MaterialIndex g1) b1 = (i3, b2)" by fastforce
  have "materialVertices (bc_data b0) = []" by (simp add: b0_def VertexBuffer_clear_def)
  note two = curve_add_two [OF a0 a1 this]
  have b0: "bc_res2 b2 = ratio * ratio" "indices (bc_data b2) = []" "Onscreen b2"
    using two by (simp_all add: b0_def VertexBuffer_clear_def)
  have q: "BezierCurve_queue pv p straight ratio (b, g) =
      (if straight then Some (curve_append (push_segment i0 i3 b2, g1))
       else map_option (\<lambda>b3. curve_append (b3, g1)) (render_indexed pv (MaterialIndex g1) p i0 i3 b2))"
    unfolding BezierCurve_queue_def prod.case init BezierCurve_render_def p Let_def
      n0_def [symmetric] n1_def [symmetric] a0 a1 ..
  have line: "lineData (snd (curve_append (b', g1))) =
      extendMaterial (bc_data b') ((lineData g)\<lparr>renderCount := 0\<rparr>)" for b'
    by (simp add: curve_append_def g1_def curve_notRendered_def)
  show ?thesis
  proof (cases straight)
    case True
    have "drawn_segments (materialVertices (bc_data (push_segment i0 i3 b2)))
        (indices (bc_data (push_segment i0 i3 b2))) = [(p0, p3)]"
      "material.valid (bc_data (push_segment i0 i3 b2))"
      using two b0 by (simp_all add: push_segment_def drawn_segments_def pos_at_def material.valid_def)
    with True q line [of "push_segment i0 i3 b2"] show ?thesis
      by (simp add: curve_append_def ends)
  next
    case False
    have "0 < bc_res2 b2" using assms b0 by (simp add: zero_less_mult_iff) linarith
    then obtain b3 where r: "render_indexed pv (MaterialIndex g1) p i0 i3 b2 = Some b3"
      and d: "drawn p i0 i3 b2 b3" by (rule render_indexed_total)
    have e: "ends_at p i0 i3 (materialVertices (bc_data b2))"
      using two ends by (simp add: ends_at_def pos_at_def)
    from d obtain vs "is" where eq: "b3 = extended vs is (Onscreen b3) b2"
      and t: "Onscreen b3 \<and> length (materialVertices (bc_data b2) @ vs) \<le> 2 ^ 32 \<longrightarrow>
        even (length is) \<and> (\<forall>i \<in> set is. unat i < length (materialVertices (bc_data b2) @ vs)) \<and>
        traced (curve_at p) (9 / 16 * bc_res2 b2)
          (drawn_segments (materialVertices (bc_data b2) @ vs) is)"
      using e unfolding drawn_def Let_def by blast
    have "materialVertices (bc_data b3) = materialVertices (bc_data b2) @ vs" "indices (bc_data b3) = is"
      by (subst eq, simp add: b0)+
    with False q line [of b3] t r b0(1) show ?thesis
      by (simp add: curve_append_def material.valid_def power2_eq_square)
  qed
qed

text \<open>C35: rendering a curve always ends, at every resolution but 0: each half of a curve has a
  quarter of its straightness, so that the recursion reaches flat segments.\<close>

theorem curve_queue_terminates:
  assumes "ratio \<noteq> 0"
  shows "\<exists>b' g'. BezierCurve_queue pv p straight ratio (b, g) = Some (b', g')"
  using queue_result [OF assms] by blast

theorem curve_queue_terminates_witness:
  "\<exists>b' g'. BezierCurve_queue (\<lambda>i. if i = 15 then 1 else 0) (V3 0 0 0, V3 0 90 0, V3 90 90 0, V3 90 0 0)
     False (1 / 2) (BezierCurve_new, empty_globals\<lparr>materialIndex := 3\<rparr>) = Some (b', g')"
  by (rule curve_queue_terminates) simp

text \<open>C36: a curve that is not pruned as off the screen appends to \<open>lineData\<close>, behind what was there
  and without changing it, a polyline whose vertices are points of the curve at increasing
  parameters from 0 to 1, and whose segments stay within 3/4 of the resolution of the curve.\<close>

theorem curve_queue_accurate:
  assumes "BezierCurve_queue pv p False ratio (b, g) = Some (b', g')" and "ratio \<noteq> 0"
    and "Onscreen b'" and "material.valid (lineData g)"
    and "length (materialVertices (lineData g)) + length (materialVertices (bc_data b')) \<le> 2 ^ 32"
  shows "material.valid (lineData g') \<and>
    (\<exists>S. map mv_position (material.shape (lineData g')) =
        map mv_position (material.shape (lineData g)) @ S \<and>
      traced (curve_at p) (9 / 16 * ratio\<^sup>2) (index_pairs S))"
proof -
  let ?d = "(lineData g)\<lparr>renderCount := 0\<rparr>"
  from queue_result [OF assms(2), of pv p False b g] assms(1,3,5)
  have line: "lineData g' = extendMaterial (bc_data b') ?d" and valid: "material.valid (bc_data b')"
    and traced: "traced (curve_at p) (9 / 16 * ratio\<^sup>2)
      (drawn_segments (materialVertices (bc_data b')) (indices (bc_data b')))" by auto
  have d: "material.valid ?d" "material.shape ?d = material.shape (lineData g)"
    using assms(4) by (simp_all add: material.valid_def material.shape_def)
  have "length (materialVertices ?d) + length (materialVertices (bc_data b')) \<le> 2 ^ 32"
    using assms(5) by simp
  note ext = material.extend_shape [OF d(1) valid this]
  have "map mv_position (material.shape (bc_data b')) =
      map (pos_at (materialVertices (bc_data b'))) (indices (bc_data b'))"
    by (simp add: material.shape_def pos_at_def)
  with ext traced show ?thesis
    unfolding line d(2) drawn_segments_def by (metis map_append)
qed

theorem curve_queue_accurate_witness:
  "\<exists>b' g' S. BezierCurve_queue (\<lambda>i. if i = 15 then 1 else 0) (V3 0 0 0, V3 0 1 0, V3 1 1 0, V3 1 0 0)
       False 2 (BezierCurve_new, empty_globals\<lparr>materialIndex := 3\<rparr>) = Some (b', g') \<and>
     map mv_position (material.shape (lineData g')) = S \<and>
     traced (curve_at (V3 0 0 0, V3 0 1 0, V3 1 1 0, V3 1 0 0)) (9 / 16 * 2\<^sup>2) (index_pairs S)"
proof -
  let ?pv = "\<lambda>i. if i = 15 then 1 else 0" and ?p = "(V3 0 0 0, V3 0 1 0, V3 1 1 0, V3 1 0 0)"
  let ?g = "empty_globals\<lparr>materialIndex := 3\<rparr>"
  have "\<exists>b' g'. BezierCurve_queue ?pv ?p False 2 (BezierCurve_new, ?g) = Some (b', g') \<and>
      Onscreen b' \<and> length (materialVertices (bc_data b')) = 2"
    by (simp add: BezierCurve_queue_def BezierCurve_init_def BezierCurve_render_def
        curve_add_eq render_indexed.simps [of _ _ ?p] Straightness_def abs2_def third_def
        curve_offscreen_def bbox2_offscreen_def bbox2_points_def bbox2_Bounds_def bbox2_bounds_def
        Transform2T_def push_segment_def curve_append_def BezierCurve_new_def empty_globals_def VertexBuffer_new_def
        VertexBuffer_clear_def curve_notRendered_def pixelResolution_def extended_def Let_def)
  then obtain b' g' where q: "BezierCurve_queue ?pv ?p False 2 (BezierCurve_new, ?g) = Some (b', g')"
    "Onscreen b'" "length (materialVertices (bc_data b')) = 2" by blast
  have "material.valid (lineData ?g)" "material.shape (lineData ?g) = []"
    by (simp_all add: material.valid_def material.shape_def empty_globals_def VertexBuffer_new_def)
  with curve_queue_accurate [OF q(1) _ q(2)] q show ?thesis
    by (auto simp: empty_globals_def VertexBuffer_new_def)
qed

end
