(* ===== verification/BezierPatch.thy ===== *)
theory BezierPatch
  imports BezierCurve
begin

text \<open>
  The adaptive tessellation of Bezier patches, Bezier triangles and triangle groups
  (\<^verbatim>\<open>asymptote/bezierpatch.h\<close>, \<^verbatim>\<open>asymptote/bezierpatch.cc\<close>). The template parameters \<open>T\<close>
  (transparent) and \<open>C\<close> (vertex colours) of the code are arguments; a corner of a patch (its index
  into the buffer, its possibly adjusted position and its colour) is a record. The recursions are
  partial functions whose value is \<^term>\<open>None\<close> if they do not end. An array of control points is a
  list; an index out of the range of the vectors of a triangle group is \<^term>\<open>None\<close>.
\<close>

section \<open>State\<close>

record BezierPatch =
  bp_data :: VertexBuffer
  transparent :: bool
  color :: bool
  epsilon :: real
  Epsilon :: real
  bp_res2 :: real
  bp_Onscreen :: bool

definition BezierPatch_new :: BezierPatch where
  "BezierPatch_new = \<lparr>bp_data = VertexBuffer_new, transparent = False, color = False,
     epsilon = 0, Epsilon = 0, bp_res2 = 0, bp_Onscreen = True\<rparr>"

definition FillFactor :: real where "FillFactor = 1 / 10"

definition BezierPatch_init :: "real \<Rightarrow> BezierPatch \<times> render_globals \<Rightarrow> BezierPatch \<times> render_globals" where
  "BezierPatch_init res st = (case st of (b, g) \<Rightarrow>
     let b1 = b\<lparr>bp_res2 := res * res\<rparr>
     in if transparent b
        then (b1\<lparr>Epsilon := 0\<rparr>,
              g\<lparr>MaterialIndex := (if color b then - 1 - materialIndex g else 1 + materialIndex g)\<rparr>)
        else (b1\<lparr>Epsilon := FillFactor * res\<rparr>, g\<lparr>MaterialIndex := materialIndex g\<rparr>))"

text \<open>\<open>init(res,colors)\<close>.\<close>

definition BezierPatch_init_colors :: "real \<Rightarrow> bool \<Rightarrow> BezierPatch \<times> render_globals \<Rightarrow> BezierPatch \<times> render_globals" where
  "BezierPatch_init_colors res colors st = (case st of (b, g) \<Rightarrow>
     BezierPatch_init res (b\<lparr>transparent := False, color := colors\<rparr>, g))"

definition black :: "real vec4" where "black = V4 0 0 0 0"

definition patch_addVertex :: "bool \<Rightarrow> bool \<Rightarrow> triple \<Rightarrow> triple \<Rightarrow> int \<Rightarrow> real vec4 \<Rightarrow> BezierPatch \<Rightarrow>
    uint32 \<times> BezierPatch" where
  "patch_addVertex T C p n mi col b =
     (case (if C then addColorVertex \<lparr>cv_position = p, cv_normal = n, cv_material = mi, cv_color = col\<rparr> (bp_data b)
            else if T then addColorVertex \<lparr>cv_position = p, cv_normal = n, cv_material = mi, cv_color = black\<rparr> (bp_data b)
            else addMaterialVertex \<lparr>mv_position = p, mv_normal = n, mv_material = mi\<rparr> (bp_data b)) of
        (i, d) \<Rightarrow> (i, b\<lparr>bp_data := d\<rparr>))"

section \<open>Normals and flatness\<close>

definition patch_normal :: "real \<Rightarrow> triple \<Rightarrow> triple \<Rightarrow> triple \<Rightarrow> triple \<Rightarrow> triple \<Rightarrow> triple \<Rightarrow> triple \<Rightarrow> triple" where
  "patch_normal eps left3 left2 left1 middle right1 right2 right3 =
     (let lp = 3 *\<^sub>R (left1 - middle); rp = 3 *\<^sub>R (right1 - middle); n = cross rp lp
      in if abs2 n > eps then n
      else let lpp = bezierPP middle left1 left2; rpp = bezierPP middle right1 right2;
               n = cross rpp lp + cross rp lpp
      in if abs2 n > eps then n
      else let lppp = bezierPPP middle left1 left2 left3; rppp = bezierPPP middle right1 right2 right3;
               n = cross rpp lpp + cross rppp lp + cross rp lppp
      in if abs2 n > eps then n
      else let n = cross rppp lpp + cross rpp lppp
      in if abs2 n > eps then n else cross rppp lppp)"

definition differential :: "real \<Rightarrow> triple \<Rightarrow> triple \<Rightarrow> triple \<Rightarrow> triple \<Rightarrow> triple" where
  "differential eps p0 p1 p2 p3 =
     (let p = p1 - p0 in if abs2 p > eps then p
      else let p = bezierPP p0 p1 p2 in if abs2 p > eps then p else bezierPPP p0 p1 p2 p3)"

definition patch_Distance :: "triple list \<Rightarrow> real \<times> real" where
  "patch_Distance p =
     (let h = Flatness (p ! 0) (p ! 12) (p ! 3) (p ! 15);
          h = max h (Straightness (p ! 0) (p ! 4) (p ! 8) (p ! 12));
          h = max h (Straightness (p ! 1) (p ! 5) (p ! 9) (p ! 13));
          h = max h (Straightness (p ! 2) (p ! 6) (p ! 10) (p ! 14));
          h = max h (Straightness (p ! 3) (p ! 7) (p ! 11) (p ! 15));
          v = Flatness (p ! 0) (p ! 3) (p ! 12) (p ! 15);
          v = max v (Straightness (p ! 0) (p ! 1) (p ! 2) (p ! 3));
          v = max v (Straightness (p ! 4) (p ! 5) (p ! 6) (p ! 7));
          v = max v (Straightness (p ! 8) (p ! 9) (p ! 10) (p ! 11));
          v = max v (Straightness (p ! 12) (p ! 13) (p ! 14) (p ! 15))
      in (h, v))"

definition tri_Distance :: "triple list \<Rightarrow> real" where
  "tri_Distance p =
     (let d = abs2 (third *\<^sub>R (p ! 0 + p ! 6 + p ! 9) - p ! 4);
          d = max d (Straightness (p ! 0) (p ! 1) (p ! 3) (p ! 6));
          d = max d (Straightness (p ! 0) (p ! 2) (p ! 5) (p ! 9))
      in max d (Straightness (p ! 6) (p ! 7) (p ! 8) (p ! 9)))"

text \<open>The first of three candidates for a normal that is not negligible, the last one otherwise.\<close>

definition first_normal :: "real \<Rightarrow> triple \<Rightarrow> triple \<Rightarrow> triple \<Rightarrow> triple" where
  "first_normal eps a b c = (if abs2 a \<le> eps then if abs2 b \<le> eps then c else b else a)"

definition patch_offscreen :: "(nat \<Rightarrow> real) \<Rightarrow> triple list \<Rightarrow> BezierPatch \<Rightarrow> bool \<times> BezierPatch" where
  "patch_offscreen pv v b =
     (if bbox2_offscreen (bbox2_points pv v) then (True, b\<lparr>bp_Onscreen := False\<rparr>) else (False, b))"

section \<open>Corners\<close>

record corner =
  cI :: uint32
  cP :: triple
  cC :: "real vec4"

definition mix :: "real vec4 \<Rightarrow> real vec4 \<Rightarrow> real vec4" where
  "mix A B = V4 (1 / 2 * (v4r A + v4r B)) (1 / 2 * (v4g A + v4g B)) (1 / 2 * (v4b A + v4b B))
     (1 / 2 * (v4a A + v4a B))"

definition add_corner :: "bool \<Rightarrow> bool \<Rightarrow> int \<Rightarrow> triple \<Rightarrow> triple \<Rightarrow> real vec4 \<Rightarrow> BezierPatch \<Rightarrow> corner \<times> BezierPatch" where
  "add_corner T C mi p n col b =
     (case patch_addVertex T C p n mi col b of (i, b1) \<Rightarrow> (\<lparr>cI = i, cP = p, cC = col\<rparr>, b1))"

text \<open>One triangle of a flat piece, unless it is off the screen.\<close>

definition push_triangle :: "(nat \<Rightarrow> real) \<Rightarrow> corner \<Rightarrow> corner \<Rightarrow> corner \<Rightarrow> BezierPatch \<Rightarrow> BezierPatch" where
  "push_triangle pv a b c bp =
     (case patch_offscreen pv [cP a, cP b, cP c] bp of (off, b1) \<Rightarrow>
        if off then b1
        else b1\<lparr>bp_data := (bp_data b1)\<lparr>indices := indices (bp_data b1) @ [cI a, cI b, cI c]\<rparr>\<rparr>)"

text \<open>The middle of an edge between the corners at \<open>A\<close> and \<open>B\<close>: the edge becomes flat when its
  control polygon \<open>z0 c0 c1 z1\<close> is straight for the first time, and the middle is then moved by
  \<open>Epsilon\<close> against the direction \<open>dir\<close>; while the edge is not flat its middle is the point \<open>m\<close> of
  the curve.\<close>

definition edge_middle :: "BezierPatch \<Rightarrow> bool \<Rightarrow> triple \<Rightarrow> triple \<Rightarrow> real \<Rightarrow> triple \<Rightarrow> triple \<Rightarrow> bool \<times> triple" where
  "edge_middle b flat A B straightness dir m =
     (let mid = (1 / 2) *\<^sub>R (A + B)
      in if flat then (True, mid)
         else if straightness < bp_res2 b
              then (True, if Epsilon b \<noteq> 0 then mid - Epsilon b *\<^sub>R unit_triple dir 0 else mid)
              else (False, m))"

section \<open>Patches\<close>

definition split_vertically :: "triple list \<Rightarrow> triple list \<times> triple list" where
  "split_vertically p =
     (let c0 = Split_new (p ! 0) (p ! 1) (p ! 2) (p ! 3);
          c1 = Split_new (p ! 4) (p ! 5) (p ! 6) (p ! 7);
          c2 = Split_new (p ! 8) (p ! 9) (p ! 10) (p ! 11);
          c3 = Split_new (p ! 12) (p ! 13) (p ! 14) (p ! 15)
      in ([p ! 0, s_m0 c0, s_m3 c0, s_m5 c0, p ! 4, s_m0 c1, s_m3 c1, s_m5 c1,
           p ! 8, s_m0 c2, s_m3 c2, s_m5 c2, p ! 12, s_m0 c3, s_m3 c3, s_m5 c3],
          [s_m5 c0, s_m4 c0, s_m2 c0, p ! 3, s_m5 c1, s_m4 c1, s_m2 c1, p ! 7,
           s_m5 c2, s_m4 c2, s_m2 c2, p ! 11, s_m5 c3, s_m4 c3, s_m2 c3, p ! 15]))"

definition split_horizontally :: "triple list \<Rightarrow> triple list \<times> triple list" where
  "split_horizontally p =
     (let c0 = Split_new (p ! 0) (p ! 4) (p ! 8) (p ! 12);
          c1 = Split_new (p ! 1) (p ! 5) (p ! 9) (p ! 13);
          c2 = Split_new (p ! 2) (p ! 6) (p ! 10) (p ! 14);
          c3 = Split_new (p ! 3) (p ! 7) (p ! 11) (p ! 15)
      in ([p ! 0, p ! 1, p ! 2, p ! 3, s_m0 c0, s_m0 c1, s_m0 c2, s_m0 c3,
           s_m3 c0, s_m3 c1, s_m3 c2, s_m3 c3, s_m5 c0, s_m5 c1, s_m5 c2, s_m5 c3],
          [s_m5 c0, s_m5 c1, s_m5 c2, s_m5 c3, s_m4 c0, s_m4 c1, s_m4 c2, s_m4 c3,
           s_m2 c0, s_m2 c1, s_m2 c2, s_m2 c3, p ! 12, p ! 13, p ! 14, p ! 15]))"

definition split_both :: "triple list \<Rightarrow> triple list \<times> triple list \<times> triple list \<times> triple list" where
  "split_both p =
     (let c0 = Split_new (p ! 0) (p ! 1) (p ! 2) (p ! 3);
          c1 = Split_new (p ! 4) (p ! 5) (p ! 6) (p ! 7);
          c2 = Split_new (p ! 8) (p ! 9) (p ! 10) (p ! 11);
          c3 = Split_new (p ! 12) (p ! 13) (p ! 14) (p ! 15);
          c4 = Split_new (p ! 0) (p ! 4) (p ! 8) (p ! 12);
          c5 = Split_new (s_m0 c0) (s_m0 c1) (s_m0 c2) (s_m0 c3);
          c6 = Split_new (s_m3 c0) (s_m3 c1) (s_m3 c2) (s_m3 c3);
          c7 = Split_new (s_m5 c0) (s_m5 c1) (s_m5 c2) (s_m5 c3);
          c8 = Split_new (s_m4 c0) (s_m4 c1) (s_m4 c2) (s_m4 c3);
          c9 = Split_new (s_m2 c0) (s_m2 c1) (s_m2 c2) (s_m2 c3);
          c10 = Split_new (p ! 3) (p ! 7) (p ! 11) (p ! 15)
      in ([p ! 0, s_m0 c0, s_m3 c0, s_m5 c0, s_m0 c4, s_m0 c5, s_m0 c6, s_m0 c7,
           s_m3 c4, s_m3 c5, s_m3 c6, s_m3 c7, s_m5 c4, s_m5 c5, s_m5 c6, s_m5 c7],
          [s_m5 c4, s_m5 c5, s_m5 c6, s_m5 c7, s_m4 c4, s_m4 c5, s_m4 c6, s_m4 c7,
           s_m2 c4, s_m2 c5, s_m2 c6, s_m2 c7, p ! 12, s_m0 c3, s_m3 c3, s_m5 c3],
          [s_m5 c7, s_m5 c8, s_m5 c9, s_m5 c10, s_m4 c7, s_m4 c8, s_m4 c9, s_m4 c10,
           s_m2 c7, s_m2 c8, s_m2 c9, s_m2 c10, s_m5 c3, s_m4 c3, s_m2 c3, p ! 15],
          [s_m5 c0, s_m4 c0, s_m2 c0, p ! 3, s_m0 c7, s_m0 c8, s_m0 c9, s_m0 c10,
           s_m3 c7, s_m3 c8, s_m3 c9, s_m3 c10, s_m5 c7, s_m5 c8, s_m5 c9, s_m5 c10]))"

text \<open>The normal at the seven control points with the given indices, and the three candidates that
  the code tries.\<close>

definition normal_at :: "real \<Rightarrow> triple list \<Rightarrow> nat list \<Rightarrow> triple" where
  "normal_at eps s k = patch_normal eps (s ! (k ! 0)) (s ! (k ! 1)) (s ! (k ! 2)) (s ! (k ! 3))
     (s ! (k ! 4)) (s ! (k ! 5)) (s ! (k ! 6))"

definition normal3_at :: "real \<Rightarrow> triple list \<Rightarrow> nat list \<Rightarrow> nat list \<Rightarrow> nat list \<Rightarrow> triple" where
  "normal3_at eps s a b c =
     first_normal eps (normal_at eps s a) (normal_at eps s b) (normal_at eps s c)"

definition at_right :: "nat list \<times> nat list \<times> nat list" where
  "at_right = ([0, 4, 8, 12, 13, 14, 15], [0, 4, 8, 12, 11, 7, 3], [3, 2, 1, 0, 13, 14, 15])"

definition at_top :: "nat list \<times> nat list \<times> nat list" where
  "at_top = ([12, 13, 14, 15, 11, 7, 3], [12, 13, 14, 15, 2, 1, 0], [0, 4, 8, 12, 11, 7, 3])"

definition at_left :: "nat list \<times> nat list \<times> nat list" where
  "at_left = ([15, 11, 7, 3, 2, 1, 0], [15, 11, 7, 3, 4, 8, 12], [12, 13, 14, 15, 2, 1, 0])"

definition at_bottom :: "nat list \<times> nat list \<times> nat list" where
  "at_bottom = ([3, 2, 1, 0, 4, 8, 12], [3, 2, 1, 0, 13, 14, 15], [15, 11, 7, 3, 4, 8, 12])"

definition corner_normal :: "real \<Rightarrow> triple list \<Rightarrow> nat list \<times> nat list \<times> nat list \<Rightarrow> triple" where
  "corner_normal eps s k = (case k of (a, b, c) \<Rightarrow> normal3_at eps s a b c)"

definition differential_at :: "real \<Rightarrow> triple list \<Rightarrow> nat \<Rightarrow> nat \<Rightarrow> nat \<Rightarrow> nat \<Rightarrow> triple" where
  "differential_at eps s i j k l = differential eps (s ! i) (s ! j) (s ! k) (s ! l)"

definition straight_at :: "triple list \<Rightarrow> nat \<Rightarrow> nat \<Rightarrow> nat \<Rightarrow> nat \<Rightarrow> real" where
  "straight_at p i j k l = Straightness (p ! i) (p ! j) (p ! k) (p ! l)"

text \<open>One activation of the recursive function \<open>render\<close>: its control points, the corners and the
  flags that say which edges are flat. What it does before the recursive calls, and the arguments of
  these calls in their order, is \<open>patch_step\<close>.\<close>

record patch_call =
  pts :: "triple list"
  k0 :: corner  k1 :: corner  k2 :: corner  k3 :: corner
  flat0 :: bool  flat1 :: bool  flat2 :: bool  flat3 :: bool

definition patch_call :: "triple list \<Rightarrow> corner \<Rightarrow> corner \<Rightarrow> corner \<Rightarrow> corner \<Rightarrow>
    bool \<Rightarrow> bool \<Rightarrow> bool \<Rightarrow> bool \<Rightarrow> patch_call" where
  "patch_call p a b c d f0 f1 f2 f3 = \<lparr>pts = p, k0 = a, k1 = b, k2 = c, k3 = d,
     flat0 = f0, flat1 = f1, flat2 = f2, flat3 = f3\<rparr>"

datatype 'c pieces = Done | Two 'c 'c | Four 'c 'c 'c 'c

definition patch_vertical :: "bool \<Rightarrow> bool \<Rightarrow> int \<Rightarrow> patch_call \<Rightarrow> BezierPatch \<Rightarrow> BezierPatch \<times> patch_call pieces" where
  "patch_vertical T C mi c b =
     (let p = pts c; eps = epsilon b in
      case split_vertically p of (s0, s1) \<Rightarrow>
      case edge_middle b (flat1 c) (cP (k1 c)) (cP (k2 c)) (straight_at p 12 13 14 15)
             (differential_at eps s1 12 8 4 0) (s0 ! 15) of (f1, m0) \<Rightarrow>
      case edge_middle b (flat3 c) (cP (k3 c)) (cP (k0 c)) (straight_at p 0 1 2 3)
             (differential_at eps s0 3 7 11 15) (s1 ! 0) of (f3, m1) \<Rightarrow>
      case add_corner T C mi m0 (corner_normal eps s0 at_top) (mix (cC (k1 c)) (cC (k2 c))) b of (i0, b1) \<Rightarrow>
      case add_corner T C mi m1 (corner_normal eps s1 at_bottom) (mix (cC (k3 c)) (cC (k0 c))) b1 of (i1, b2) \<Rightarrow>
        (b2, Two (patch_call s0 (k0 c) (k1 c) i0 i1 (flat0 c) f1 False f3)
                 (patch_call s1 i1 i0 (k2 c) (k3 c) False f1 (flat2 c) f3)))"

definition patch_horizontal :: "bool \<Rightarrow> bool \<Rightarrow> int \<Rightarrow> patch_call \<Rightarrow> BezierPatch \<Rightarrow> BezierPatch \<times> patch_call pieces" where
  "patch_horizontal T C mi c b =
     (let p = pts c; eps = epsilon b in
      case split_horizontally p of (s0, s1) \<Rightarrow>
      case edge_middle b (flat0 c) (cP (k0 c)) (cP (k1 c)) (straight_at p 0 4 8 12)
             (differential_at eps s1 0 1 2 3) (s0 ! 12) of (f0, m0) \<Rightarrow>
      case edge_middle b (flat2 c) (cP (k2 c)) (cP (k3 c)) (straight_at p 15 11 7 3)
             (differential_at eps s0 15 14 13 12) (s1 ! 3) of (f2, m1) \<Rightarrow>
      case add_corner T C mi m0 (corner_normal eps s0 at_right) (mix (cC (k0 c)) (cC (k1 c))) b of (i0, b1) \<Rightarrow>
      case add_corner T C mi m1 (corner_normal eps s1 at_left) (mix (cC (k2 c)) (cC (k3 c))) b1 of (i1, b2) \<Rightarrow>
        (b2, Two (patch_call s0 (k0 c) i0 i1 (k3 c) f0 False f2 (flat3 c))
                 (patch_call s1 i0 (k1 c) (k2 c) i1 f0 (flat1 c) f2 False)))"

definition patch_both :: "bool \<Rightarrow> bool \<Rightarrow> int \<Rightarrow> patch_call \<Rightarrow> BezierPatch \<Rightarrow> BezierPatch \<times> patch_call pieces" where
  "patch_both T C mi c b =
     (let p = pts c; eps = epsilon b in
      case split_both p of (s0, s1, s2, s3) \<Rightarrow>
      case edge_middle b (flat0 c) (cP (k0 c)) (cP (k1 c)) (straight_at p 0 4 8 12)
             (differential_at eps s1 0 1 2 3) (s0 ! 12) of (f0, m0) \<Rightarrow>
      case edge_middle b (flat1 c) (cP (k1 c)) (cP (k2 c)) (straight_at p 12 13 14 15)
             (differential_at eps s2 12 8 4 0) (s1 ! 15) of (f1, m1) \<Rightarrow>
      case edge_middle b (flat2 c) (cP (k2 c)) (cP (k3 c)) (straight_at p 15 11 7 3)
             (differential_at eps s3 15 14 13 12) (s2 ! 3) of (f2, m2) \<Rightarrow>
      case edge_middle b (flat3 c) (cP (k3 c)) (cP (k0 c)) (straight_at p 0 1 2 3)
             (differential_at eps s0 3 7 11 15) (s3 ! 0) of (f3, m3) \<Rightarrow>
      case add_corner T C mi m0 (corner_normal eps s0 at_right) (mix (cC (k0 c)) (cC (k1 c))) b of (i0, b1) \<Rightarrow>
      case add_corner T C mi m1 (corner_normal eps s1 at_top) (mix (cC (k1 c)) (cC (k2 c))) b1 of (i1, b2) \<Rightarrow>
      case add_corner T C mi m2 (corner_normal eps s2 at_left) (mix (cC (k2 c)) (cC (k3 c))) b2 of (i2, b3) \<Rightarrow>
      case add_corner T C mi m3 (corner_normal eps s3 at_bottom) (mix (cC (k3 c)) (cC (k0 c))) b3 of (i3, b4) \<Rightarrow>
      case add_corner T C mi (s0 ! 15)
             (patch_normal eps (s2 ! 3) (s2 ! 2) (s2 ! 1) (s0 ! 15) (s2 ! 4) (s2 ! 8) (s2 ! 12))
             (mix (cC i0) (cC i2)) b4 of (i4, b5) \<Rightarrow>
        (b5, Four (patch_call s0 (k0 c) i0 i4 i3 f0 False False f3)
                  (patch_call s1 i0 (k1 c) i1 i4 f0 f1 False False)
                  (patch_call s2 i4 i1 (k2 c) i2 False f1 f2 False)
                  (patch_call s3 i3 i4 i2 (k3 c) False False f2 f3)))"

definition patch_step :: "(nat \<Rightarrow> real) \<Rightarrow> bool \<Rightarrow> bool \<Rightarrow> int \<Rightarrow> patch_call \<Rightarrow> BezierPatch \<Rightarrow>
    BezierPatch \<times> patch_call pieces" where
  "patch_step pv T C mi c b =
     (let d = patch_Distance (pts c)
      in if fst d < bp_res2 b \<and> snd d < bp_res2 b
         then (push_triangle pv (k0 c) (k2 c) (k3 c) (push_triangle pv (k0 c) (k1 c) (k2 c) b), Done)
         else (case patch_offscreen pv (pts c) b of (off, b1) \<Rightarrow>
                 if off then (b1, Done)
                 else if fst d < bp_res2 b1 then patch_vertical T C mi c b1
                 else if snd d < bp_res2 b1 then patch_horizontal T C mi c b1
                 else patch_both T C mi c b1))"

text \<open>The recursion, for patches and for triangles.\<close>

partial_function (option) render_calls ::
  "('c \<Rightarrow> BezierPatch \<Rightarrow> BezierPatch \<times> 'c pieces) \<Rightarrow> 'c \<Rightarrow> BezierPatch \<Rightarrow> BezierPatch option" where
  "render_calls step c b =
     (case step c b of (b1, ps) \<Rightarrow>
        (case ps of
           Done \<Rightarrow> Some b1
         | Two x y \<Rightarrow> Option.bind (render_calls step x b1) (render_calls step y)
         | Four x y z w \<Rightarrow> Option.bind (render_calls step x b1) (\<lambda>b2.
             Option.bind (render_calls step y b2) (\<lambda>b3.
             Option.bind (render_calls step z b3) (render_calls step w)))))"

definition patch_append :: "BezierPatch \<times> render_globals \<Rightarrow> BezierPatch \<times> render_globals" where
  "patch_append st = (case st of (b, g) \<Rightarrow> (b,
     if transparent b then g\<lparr>transparentData := extendColor (bp_data b) (transparentData g)\<rparr>
     else if color b then g\<lparr>colorData := extendColor (bp_data b) (colorData g)\<rparr>
     else g\<lparr>materialData := extendMaterial (bp_data b) (materialData g)\<rparr>))"

definition patch_notRendered :: "BezierPatch \<times> render_globals \<Rightarrow> BezierPatch \<times> render_globals" where
  "patch_notRendered st = (case st of (b, g) \<Rightarrow> (b,
     if transparent b then g\<lparr>transparentData := (transparentData g)\<lparr>renderCount := 0\<rparr>\<rparr>
     else if color b then g\<lparr>colorData := (colorData g)\<lparr>renderCount := 0\<rparr>\<rparr>
     else g\<lparr>materialData := (materialData g)\<lparr>renderCount := 0\<rparr>\<rparr>))"

text \<open>The tolerance for normals: the largest squared distance from the first control point, times
  the machine epsilon.\<close>

definition patch_epsilon :: "triple list \<Rightarrow> real" where
  "patch_epsilon p = fold (\<lambda>z e. max e (abs2 (z - p ! 0))) (tl p) 0 * (1 / 2 ^ 52)"

definition BezierPatch_render :: "(nat \<Rightarrow> real) \<Rightarrow> triple list \<Rightarrow> bool \<Rightarrow> real vec4 list \<Rightarrow>
    BezierPatch \<times> render_globals \<Rightarrow> (BezierPatch \<times> render_globals) option" where
  "BezierPatch_render pv p straight cs st = (case st of (b, g) \<Rightarrow>
     let eps = patch_epsilon p; b0 = b\<lparr>epsilon := eps\<rparr>;
         T = transparent b; C = color b; mi = MaterialIndex g
     in case add_corner T C mi (p ! 0) (corner_normal eps p at_bottom) (cs ! 0) b0 of (i0, b1) \<Rightarrow>
        case add_corner T C mi (p ! 12) (corner_normal eps p at_right) (cs ! 1) b1 of (i1, b2) \<Rightarrow>
        case add_corner T C mi (p ! 15) (corner_normal eps p at_top) (cs ! 2) b2 of (i2, b3) \<Rightarrow>
        case add_corner T C mi (p ! 3) (corner_normal eps p at_left) (cs ! 3) b3 of (i3, b4) \<Rightarrow>
          map_option (\<lambda>b5. patch_append (b5, g))
            (if straight then Some (push_triangle pv i0 i2 i3 (push_triangle pv i0 i1 i2 b4))
             else render_calls (patch_step pv T C mi)
                    (patch_call p i0 i1 i2 i3 False False False False) b4))"

section \<open>Triangles\<close>

record tri_call =
  tpts :: "triple list"
  t0 :: corner  t1 :: corner  t2 :: corner
  tflat0 :: bool  tflat1 :: bool  tflat2 :: bool

definition tri_call :: "triple list \<Rightarrow> corner \<Rightarrow> corner \<Rightarrow> corner \<Rightarrow> bool \<Rightarrow> bool \<Rightarrow> bool \<Rightarrow> tri_call" where
  "tri_call p a b c f0 f1 f2 = \<lparr>tpts = p, t0 = a, t1 = b, t2 = c, tflat0 = f0, tflat1 = f1, tflat2 = f2\<rparr>"

definition tri_normals :: "nat list \<times> nat list \<times> nat list" where
  "tri_normals = ([9, 5, 2, 0, 1, 3, 6], [0, 1, 3, 6, 7, 8, 9], [6, 7, 8, 9, 5, 2, 0])"

definition tri_split :: "bool \<Rightarrow> bool \<Rightarrow> int \<Rightarrow> tri_call \<Rightarrow> BezierPatch \<Rightarrow> BezierPatch \<times> tri_call pieces" where
  "tri_split T C mi k b =
     (let p = tpts k; eps = epsilon b; n = tri_normals in
      case Splittri p of (l, r, u, c) \<Rightarrow>
      case edge_middle b (tflat0 k) (cP (t1 k)) (cP (t2 k)) (straight_at p 6 7 8 9)
             (differential_at eps c 0 2 5 9 + differential_at eps c 0 1 3 6) (c ! 0) of (f0, m0) \<Rightarrow>
      case edge_middle b (tflat1 k) (cP (t2 k)) (cP (t0 k)) (straight_at p 0 2 5 9)
             (differential_at eps c 6 3 1 0 + differential_at eps c 6 7 8 9) (c ! 6) of (f1, m1) \<Rightarrow>
      case edge_middle b (tflat2 k) (cP (t0 k)) (cP (t1 k)) (straight_at p 0 1 3 6)
             (differential_at eps c 9 8 7 6 + differential_at eps c 9 5 2 0) (c ! 9) of (f2, m2) \<Rightarrow>
      case add_corner T C mi m0 (normal_at eps c (fst n)) (mix (cC (t1 k)) (cC (t2 k))) b of (i0, b1) \<Rightarrow>
      case add_corner T C mi m1 (normal_at eps c (fst (snd n))) (mix (cC (t2 k)) (cC (t0 k))) b1 of (i1, b2) \<Rightarrow>
      case add_corner T C mi m2 (normal_at eps c (snd (snd n))) (mix (cC (t0 k)) (cC (t1 k))) b2 of (i2, b3) \<Rightarrow>
        (b3, Four (tri_call l (t0 k) i2 i1 False f1 f2) (tri_call r i2 (t1 k) i0 f0 False f2)
                  (tri_call u i1 i0 (t2 k) f0 f1 False) (tri_call c i0 i1 i2 False False False)))"

definition tri_step :: "(nat \<Rightarrow> real) \<Rightarrow> bool \<Rightarrow> bool \<Rightarrow> int \<Rightarrow> tri_call \<Rightarrow> BezierPatch \<Rightarrow> BezierPatch \<times> tri_call pieces" where
  "tri_step pv T C mi k b =
     (if tri_Distance (tpts k) < bp_res2 b then (push_triangle pv (t0 k) (t1 k) (t2 k) b, Done)
      else (case patch_offscreen pv (tpts k) b of (off, b1) \<Rightarrow>
              if off then (b1, Done) else tri_split T C mi k b1))"

definition BezierTriangle_render :: "(nat \<Rightarrow> real) \<Rightarrow> triple list \<Rightarrow> bool \<Rightarrow> real vec4 list \<Rightarrow>
    BezierPatch \<times> render_globals \<Rightarrow> (BezierPatch \<times> render_globals) option" where
  "BezierTriangle_render pv p straight cs st = (case st of (b, g) \<Rightarrow>
     let eps = patch_epsilon p; b0 = b\<lparr>epsilon := eps\<rparr>; n = tri_normals;
         T = transparent b; C = color b; mi = MaterialIndex g
     in case add_corner T C mi (p ! 0) (normal_at eps p (fst n)) (cs ! 0) b0 of (i0, b1) \<Rightarrow>
        case add_corner T C mi (p ! 6) (normal_at eps p (fst (snd n))) (cs ! 1) b1 of (i1, b2) \<Rightarrow>
        case add_corner T C mi (p ! 9) (normal_at eps p (snd (snd n))) (cs ! 2) b2 of (i2, b3) \<Rightarrow>
          map_option (\<lambda>b4. patch_append (b4, g))
            (if straight then Some (push_triangle pv i0 i1 i2 b3)
             else render_calls (tri_step pv T C mi) (tri_call p i0 i1 i2 False False False) b3))"

text \<open>\<open>queue\<close>, which patches and triangles share; \<open>cs\<close> is \<^term>\<open>None\<close> without corner colours.\<close>

definition patch_queue ::
  "(triple list \<Rightarrow> bool \<Rightarrow> real vec4 list \<Rightarrow> BezierPatch \<times> render_globals \<Rightarrow> (BezierPatch \<times> render_globals) option) \<Rightarrow>
   triple list \<Rightarrow> bool \<Rightarrow> real \<Rightarrow> bool \<Rightarrow> real vec4 list option \<Rightarrow>
   BezierPatch \<times> render_globals \<Rightarrow> (BezierPatch \<times> render_globals) option" where
  "patch_queue render p straight ratio Transparent cs st = (case st of (b, g) \<Rightarrow>
     render p straight (case cs of Some c \<Rightarrow> c | None \<Rightarrow> [])
       (BezierPatch_init (pixelResolution * ratio)
         (patch_notRendered (b\<lparr>bp_data := VertexBuffer_clear (bp_data b), bp_Onscreen := True,
            transparent := Transparent, color := cs \<noteq> None\<rparr>, g))))"

definition BezierPatch_queue where
  "BezierPatch_queue pv = patch_queue (BezierPatch_render pv)"

definition BezierTriangle_queue where
  "BezierTriangle_queue pv = patch_queue (BezierTriangle_render pv)"

section \<open>Triangle groups\<close>

definition nth_opt :: "'a list \<Rightarrow> nat \<Rightarrow> 'a option" where
  "nth_opt xs i = (if i < length xs then Some (xs ! i) else None)"

definition triangles_append :: "BezierPatch \<times> render_globals \<Rightarrow> BezierPatch \<times> render_globals" where
  "triangles_append st = (case st of (b, g) \<Rightarrow> (b,
     if transparent b then g\<lparr>transparentData := extendColor (bp_data b) (transparentData g)\<rparr>
     else g\<lparr>triangleData := extendColor (bp_data b) (triangleData g)\<rparr>))"

definition triangles_notRendered :: "BezierPatch \<times> render_globals \<Rightarrow> BezierPatch \<times> render_globals" where
  "triangles_notRendered st = (case st of (b, g) \<Rightarrow> (b,
     if transparent b then g\<lparr>transparentData := (transparentData g)\<lparr>renderCount := 0\<rparr>\<rparr>
     else g\<lparr>triangleData := (triangleData g)\<lparr>renderCount := 0\<rparr>\<rparr>))"

text \<open>The body of the loop over the triangles: \<open>PI\<close>, \<open>NI\<close>, \<open>CI\<close> are the three indices of the
  positions, normals and colours of triangle \<open>i\<close>.\<close>

definition put_vertex :: "nat \<Rightarrow> ColorVertex \<Rightarrow> BezierPatch \<Rightarrow> BezierPatch" where
  "put_vertex i v b = b\<lparr>bp_data := (bp_data b)\<lparr>colorVertices := (colorVertices (bp_data b))[i := v]\<rparr>\<rparr>"

definition triangles_colors :: "real vec4 list \<Rightarrow> uint32 vec3 \<Rightarrow> (real vec4 \<times> real vec4 \<times> real vec4) option" where
  "triangles_colors C CI = do {
     a \<leftarrow> nth_opt C (unat (v3x CI)); b \<leftarrow> nth_opt C (unat (v3y CI)); c \<leftarrow> nth_opt C (unat (v3z CI));
     Some (a, b, c) }"

definition triangles_one :: "(nat \<Rightarrow> real) \<Rightarrow> int \<Rightarrow> triple list \<Rightarrow> triple list \<Rightarrow> real vec4 list \<Rightarrow>
    uint32 vec3 list \<Rightarrow> uint32 vec3 list \<Rightarrow> uint32 vec3 list \<Rightarrow> nat \<Rightarrow> BezierPatch \<Rightarrow> BezierPatch option" where
  "triangles_one pv mi P N C PP NN CC i b = do {
     PI \<leftarrow> nth_opt PP i;
     P0 \<leftarrow> nth_opt P (unat (v3x PI)); P1 \<leftarrow> nth_opt P (unat (v3y PI)); P2 \<leftarrow> nth_opt P (unat (v3z PI));
     NI \<leftarrow> nth_opt NN i;
     cols \<leftarrow> (if C \<noteq> [] then do { CI \<leftarrow> nth_opt CC i; triangles_colors C CI } else Some (black, black, black));
     N0 \<leftarrow> nth_opt N (unat (v3x NI)); N1 \<leftarrow> nth_opt N (unat (v3y NI)); N2 \<leftarrow> nth_opt N (unat (v3z NI));
     case cols of (c0, c1, c2) \<Rightarrow>
       let b1 = (if C \<noteq> [] then b\<lparr>transparent := transparent b \<or> v4a c0 + v4a c1 + v4a c2 < 3\<rparr> else b);
           v = (\<lambda>p n c. \<lparr>cv_position = p, cv_normal = n, cv_material = mi, cv_color = c\<rparr>);
           b2 = put_vertex (unat (v3z PI)) (v P2 N2 c2)
                  (put_vertex (unat (v3y PI)) (v P1 N1 c1) (put_vertex (unat (v3x PI)) (v P0 N0 c0) b1))
       in case patch_offscreen pv [P0, P1, P2] b2 of (off, b3) \<Rightarrow>
            Some (if off then b3
                  else b3\<lparr>bp_data := (bp_data b3)\<lparr>indices := indices (bp_data b3) @ [v3x PI, v3y PI, v3z PI]\<rparr>\<rparr>) }"

fun triangles_loop :: "(nat \<Rightarrow> BezierPatch \<Rightarrow> BezierPatch option) \<Rightarrow> nat list \<Rightarrow> BezierPatch \<Rightarrow> BezierPatch option" where
  "triangles_loop body [] b = Some b"
| "triangles_loop body (i # is) b = Option.bind (body i b) (triangles_loop body is)"

definition zero_vertex :: ColorVertex where
  "zero_vertex = \<lparr>cv_position = 0, cv_normal = 0, cv_material = 0, cv_color = black\<rparr>"

definition Triangles_queue :: "(nat \<Rightarrow> real) \<Rightarrow> triple list \<Rightarrow> triple list \<Rightarrow> real vec4 list \<Rightarrow> nat \<Rightarrow>
    uint32 vec3 list \<Rightarrow> uint32 vec3 list \<Rightarrow> uint32 vec3 list \<Rightarrow> bool \<Rightarrow>
    BezierPatch \<times> render_globals \<Rightarrow> (BezierPatch \<times> render_globals) option" where
  "Triangles_queue pv P N C nI PP NN CC Transparent st =
     (if N = [] then Some st
      else case triangles_notRendered (map_prod (\<lambda>b. b\<lparr>bp_data := VertexBuffer_clear (bp_data b),
             bp_Onscreen := True, transparent := Transparent\<rparr>) id st) of (b, g) \<Rightarrow>
        let b1 = b\<lparr>bp_data := (bp_data b)\<lparr>colorVertices := replicate (length P) zero_vertex\<rparr>\<rparr>;
            g1 = g\<lparr>MaterialIndex := (if C \<noteq> [] then - 1 - materialIndex g else 1 + materialIndex g)\<rparr>
        in map_option (\<lambda>b2. triangles_append (b2, g1))
             (triangles_loop (triangles_one pv (MaterialIndex g1) P N C PP NN CC) [0..<nI] b1))"

section \<open>What the tessellation adds to the buffer\<close>

text \<open>The kind of vertices that a template instance adds: vertices with colours iff \<open>cc\<close>. An index is
  in order if it is the number of a vertex of that kind.\<close>

definition nverts :: "bool \<Rightarrow> VertexBuffer \<Rightarrow> nat" where
  "nverts cc d = (if cc then length (colorVertices d) else length (materialVertices d))"

definition index_ok :: "bool \<Rightarrow> VertexBuffer \<Rightarrow> uint32 \<Rightarrow> bool" where
  "index_ok cc d i \<longleftrightarrow> (\<exists>n < nverts cc d. i = of_nat n)"

definition corner_ok :: "bool \<Rightarrow> BezierPatch \<Rightarrow> corner \<Rightarrow> bool" where
  "corner_ok cc b k \<longleftrightarrow> index_ok cc (bp_data b) (cI k)"

definition data_added :: "bool \<Rightarrow> int \<Rightarrow> VertexBuffer \<Rightarrow> VertexBuffer \<Rightarrow> bool" where
  "data_added cc mi d d' \<longleftrightarrow>
     (\<exists>ms cs is. d' = d\<lparr>materialVertices := materialVertices d @ ms,
          colorVertices := colorVertices d @ cs, indices := indices d @ is\<rparr> \<and>
        (if cc then ms = [] else cs = []) \<and>
        (\<forall>v \<in> set ms. mv_material v = mi) \<and> (\<forall>v \<in> set cs. cv_material v = mi) \<and>
        3 dvd length is \<and> (\<forall>i \<in> set is. index_ok cc d' i))"

definition added :: "bool \<Rightarrow> int \<Rightarrow> BezierPatch \<Rightarrow> BezierPatch \<Rightarrow> bool" where
  "added cc mi b b' \<longleftrightarrow> data_added cc mi (bp_data b) (bp_data b') \<and>
     transparent b' = transparent b \<and> color b' = color b \<and> epsilon b' = epsilon b \<and>
     Epsilon b' = Epsilon b \<and> bp_res2 b' = bp_res2 b"

lemma nverts_sel [simp]:
  "nverts cc (d\<lparr>indices := is\<rparr>) = nverts cc d"
  by (simp add: nverts_def)

lemma data_added_nverts: "data_added cc mi d d' \<Longrightarrow> nverts cc d \<le> nverts cc d'"
  by (auto simp: data_added_def nverts_def)

lemma index_ok_mono: "index_ok cc d i \<Longrightarrow> data_added cc mi d d' \<Longrightarrow> index_ok cc d' i"
  unfolding index_ok_def using data_added_nverts order_less_le_trans by blast

lemma data_added_refl: "data_added cc mi d d"
  unfolding data_added_def by (intro exI [of _ "[]"]) simp

lemma data_added_trans:
  assumes "data_added cc mi d d1" and d2: "data_added cc mi d1 d2"
  shows "data_added cc mi d d2"
proof -
  from assms(1) obtain ms cs "is" where 1: "d1 = d\<lparr>materialVertices := materialVertices d @ ms,
      colorVertices := colorVertices d @ cs, indices := indices d @ is\<rparr>"
    "if cc then ms = [] else cs = []" "\<forall>v \<in> set ms. mv_material v = mi"
    "\<forall>v \<in> set cs. cv_material v = mi" "3 dvd length is" "\<forall>i \<in> set is. index_ok cc d1 i"
    unfolding data_added_def by blast
  from d2 obtain ms' cs' is' where 2: "d2 = d1\<lparr>materialVertices := materialVertices d1 @ ms',
      colorVertices := colorVertices d1 @ cs', indices := indices d1 @ is'\<rparr>"
    "if cc then ms' = [] else cs' = []" "\<forall>v \<in> set ms'. mv_material v = mi"
    "\<forall>v \<in> set cs'. cv_material v = mi" "3 dvd length is'" "\<forall>i \<in> set is'. index_ok cc d2 i"
    unfolding data_added_def by blast
  have "\<forall>i \<in> set is. index_ok cc d2 i" using 1(6) index_ok_mono [OF _ d2] by blast
  with 1 2 show ?thesis
    unfolding data_added_def
    by (intro exI [of _ "ms @ ms'"] exI [of _ "cs @ cs'"] exI [of _ "is @ is'"])
       (auto simp: split: if_splits)
qed

lemma added_refl: "added cc mi b b"
  by (simp add: added_def data_added_refl)

lemma added_trans: "added cc mi b b1 \<Longrightarrow> added cc mi b1 b2 \<Longrightarrow> added cc mi b b2"
  unfolding added_def using data_added_trans by (metis (no_types))

lemma added_res2: "added cc mi b b' \<Longrightarrow> bp_res2 b' = bp_res2 b"
  by (simp add: added_def)

lemma corner_ok_mono: "corner_ok cc b k \<Longrightarrow> added cc mi b b' \<Longrightarrow> corner_ok cc b' k"
  unfolding corner_ok_def added_def using index_ok_mono by blast

lemma patch_offscreen_data:
  "patch_offscreen pv v b = (off, b') \<Longrightarrow> bp_data b' = bp_data b"
  by (auto simp: patch_offscreen_def split: if_splits)

lemma patch_offscreen_added: "patch_offscreen pv v b = (off, b') \<Longrightarrow> added cc mi b b'"
  by (auto simp: patch_offscreen_def added_def data_added_refl split: if_splits)

lemma data_added_vertex:
  "cv_material v = mi \<Longrightarrow> data_added True mi d (d\<lparr>colorVertices := colorVertices d @ [v]\<rparr>)"
  "mv_material w = mi \<Longrightarrow> data_added False mi d (d\<lparr>materialVertices := materialVertices d @ [w]\<rparr>)"
  unfolding data_added_def
  by (intro exI [of _ "[]"] exI [of _ "[v]"], simp)
     (intro exI [of _ "[w]"] exI [of _ "[]"], simp)

lemma data_added_triangle:
  "index_ok cc d i \<Longrightarrow> index_ok cc d j \<Longrightarrow> index_ok cc d k \<Longrightarrow>
    data_added cc mi d (d\<lparr>indices := indices d @ [i, j, k]\<rparr>)"
  unfolding data_added_def
  by (rule exI [of _ "[]"], rule exI [of _ "[]"], rule exI [of _ "[i, j, k]"])
     (simp add: index_ok_def numeral_3_eq_3)

lemma push_triangle_added:
  assumes "corner_ok cc b x" and "corner_ok cc b y" and "corner_ok cc b z"
  shows "added cc mi b (push_triangle pv x y z b)"
proof (cases "patch_offscreen pv [cP x, cP y, cP z] b")
  case (Pair off b1)
  note off = patch_offscreen_added [OF Pair, of cc mi] patch_offscreen_data [OF Pair]
  show ?thesis
  proof (cases off)
    case False
    let ?b = "b1\<lparr>bp_data := (bp_data b1)\<lparr>indices := indices (bp_data b1) @ [cI x, cI y, cI z]\<rparr>\<rparr>"
    have "added cc mi b1 ?b"
      using assms off(2) by (simp add: added_def data_added_triangle corner_ok_def)
    with off(1) show ?thesis using False Pair by (simp add: push_triangle_def added_trans)
  qed (simp add: push_triangle_def Pair off(1))
qed

lemma add_corner_added:
  assumes "add_corner T C mi p n col b = (k, b')" and "cc = (T \<or> C)"
  shows "added cc mi b b'" and "corner_ok cc b' k" and "cP k = p"
  using assms
  by (auto simp: add_corner_def patch_addVertex_def addColorVertex_def addMaterialVertex_def
      added_def data_added_vertex corner_ok_def index_ok_def nverts_def split: if_splits)

section \<open>A scheme for the recursions\<close>

text \<open>A step of a tessellation only adds to the buffer, its calls refer to vertices that are there,
  and the calls have a smaller rank at the resolution in force.\<close>

locale mesh_step =
  fixes step :: "'c \<Rightarrow> BezierPatch \<Rightarrow> BezierPatch \<times> 'c pieces"
    and cc :: bool and mi :: int
    and call_ok :: "BezierPatch \<Rightarrow> 'c \<Rightarrow> bool" and rank :: "real \<Rightarrow> nat \<Rightarrow> 'c \<Rightarrow> bool"
  assumes step_added: "call_ok b c \<Longrightarrow> step c b = (b', ps) \<Longrightarrow> added cc mi b b'"
    and step_calls: "call_ok b c \<Longrightarrow> step c b = (b', ps) \<Longrightarrow> c' \<in> set_pieces ps \<Longrightarrow> call_ok b' c'"
    and call_ok_mono: "call_ok b c \<Longrightarrow> added cc mi b b' \<Longrightarrow> call_ok b' c"
    and step_rank: "0 < bp_res2 b \<Longrightarrow> rank (bp_res2 b) n c \<Longrightarrow> step c b = (b', ps) \<Longrightarrow>
      c' \<in> set_pieces ps \<Longrightarrow> \<exists>n' < n. rank (bp_res2 b) n' c'"
begin

lemma render_total:
  assumes "0 < bp_res2 b" and "rank (bp_res2 b) n c" and "call_ok b c"
  shows "\<exists>b'. render_calls step c b = Some b' \<and> added cc mi b b'"
  using assms
proof (induction n arbitrary: c b rule: less_induct)
  case (less n)
  obtain b1 ps where s: "step c b = (b1, ps)" by fastforce
  note b1 = step_added [OF less.prems(3) s]
  have call: "\<exists>b'. render_calls step c' b2 = Some b' \<and> added cc mi b2 b'"
    if c': "c' \<in> set_pieces ps" and b2: "added cc mi b1 b2" for c' b2
  proof -
    have res: "bp_res2 b2 = bp_res2 b" using added_res2 [OF b1] added_res2 [OF b2] by simp
    obtain n' where "n' < n" "rank (bp_res2 b) n' c'"
      using step_rank [OF less.prems(1,2) s c'] by blast
    moreover have "call_ok b2 c'"
      using call_ok_mono [OF step_calls [OF less.prems(3) s c'] b2] .
    ultimately show ?thesis using less.IH [of n' b2 c'] less.prems(1) by (simp add: res)
  qed
  show ?case
  proof (cases ps)
    case Done
    then show ?thesis using s b1 by (subst render_calls.simps) simp
  next
    case (Two x y)
    from Two call [of x b1] obtain b2 where x: "render_calls step x b1 = Some b2" "added cc mi b1 b2"
      using added_refl by auto
    from Two call [of y b2] x obtain b3 where y: "render_calls step y b2 = Some b3" "added cc mi b2 b3"
      by auto
    have "added cc mi b b3" using b1 x(2) y(2) added_trans by blast
    then show ?thesis using s Two x(1) y(1) by (subst render_calls.simps) simp
  next
    case (Four x y z w)
    from Four call [of x b1] obtain b2 where x: "render_calls step x b1 = Some b2" "added cc mi b1 b2"
      using added_refl by auto
    from Four call [of y b2] x obtain b3 where y: "render_calls step y b2 = Some b3" "added cc mi b2 b3"
      by auto
    have 3: "added cc mi b1 b3" using x(2) y(2) added_trans by blast
    from Four call [of z b3] 3 obtain b4 where z: "render_calls step z b3 = Some b4" "added cc mi b3 b4"
      by auto
    have 4: "added cc mi b1 b4" using 3 z(2) added_trans by blast
    from Four call [of w b4] 4 obtain b5 where w: "render_calls step w b4 = Some b5" "added cc mi b4 b5"
      by auto
    have "added cc mi b b5" using b1 4 w(2) added_trans by blast
    then show ?thesis using s Four x(1) y(1) z(1) w(1) by (subst render_calls.simps) simp
  qed
qed

end

section \<open>Patches: the rank\<close>

definition coords :: "(triple \<Rightarrow> real) set" where "coords = {v3x, v3y, v3z}"

definition pctl :: "(triple \<Rightarrow> real) \<Rightarrow> triple list \<Rightarrow> nat \<Rightarrow> nat \<Rightarrow> real" where
  "pctl f p i j = f (p ! (4 * i + j))"

definition hspread :: "triple list \<Rightarrow> real \<Rightarrow> bool" where
  "hspread p D \<longleftrightarrow> (\<forall>f \<in> coords. \<forall>i < 3. \<forall>j < 4. \<bar>pctl f p (Suc i) j - pctl f p i j\<bar> \<le> D)"

definition vspread :: "triple list \<Rightarrow> real \<Rightarrow> bool" where
  "vspread p D \<longleftrightarrow> (\<forall>f \<in> coords. \<forall>i < 4. \<forall>j < 3. \<bar>pctl f p i (Suc j) - pctl f p i j\<bar> \<le> D)"

lemma Split_coord:
  assumes "f \<in> coords"
  shows "f (s_m0 (Split_new a b c d)) = s_m0 (Split_new (f a) (f b) (f c) (f d))"
    "f (s_m2 (Split_new a b c d)) = s_m2 (Split_new (f a) (f b) (f c) (f d))"
    "f (s_m3 (Split_new a b c d)) = s_m3 (Split_new (f a) (f b) (f c) (f d))"
    "f (s_m4 (Split_new a b c d)) = s_m4 (Split_new (f a) (f b) (f c) (f d))"
    "f (s_m5 (Split_new a b c d)) = s_m5 (Split_new (f a) (f b) (f c) (f d))"
  using assms by (auto simp: coords_def Split_new_def Let_def)

lemma pctl_nth:
  "pctl f p 0 j = f (p ! j)" "pctl f p (Suc 0) j = f (p ! (4 + j))" "pctl f p 2 j = f (p ! (8 + j))"
  "pctl f p 3 j = f (p ! (12 + j))"
  by (simp_all add: pctl_def)

lemma split_vertically_half:
  assumes "f \<in> coords" and "i < 4" and "j < 4" and "split_vertically p = (s0, s1)"
  shows "pctl f s0 i j = half False (pctl f p i) j" and "pctl f s1 i j = half True (pctl f p i) j"
  using four_cases [OF assms(2)] four_cases [OF assms(3)] assms(1,4)
  by (auto simp: split_vertically_def Let_def pctl_nth Split_coord)

lemma split_horizontally_half:
  assumes "f \<in> coords" and "i < 4" and "j < 4" and "split_horizontally p = (s0, s1)"
  shows "pctl f s0 i j = half False (\<lambda>i. pctl f p i j) i"
    and "pctl f s1 i j = half True (\<lambda>i. pctl f p i j) i"
  using four_cases [OF assms(2)] four_cases [OF assms(3)] assms(1,4)
  by (auto simp: split_horizontally_def Let_def pctl_nth Split_coord)

lemma split_both_eq:
  "split_both p = (case split_vertically p of (l, r) \<Rightarrow>
     (fst (split_horizontally l), snd (split_horizontally l),
      snd (split_horizontally r), fst (split_horizontally r)))"
  by (simp add: split_both_def split_vertically_def split_horizontally_def Let_def)

lemma line_diffs:
  assumes "\<forall>k < 3. \<bar>g (Suc k) - g k\<bar> \<le> D" and "k < (3 :: nat)"
  shows "\<bar>half r g (Suc k) - half r g k\<bar> \<le> D / 2"
proof -
  have "\<bar>g 1 - g 0\<bar> \<le> D" "\<bar>g 2 - g 1\<bar> \<le> D" "\<bar>g 3 - g 2\<bar> \<le> D"
    using assms(1) by (auto simp: numeral_2_eq_2 numeral_3_eq_3)
  from half_diff [OF this, of r] three_cases [OF assms(2)] show ?thesis
    by (auto simp: numeral_2_eq_2 numeral_3_eq_3)
qed

lemma half_of_rows:
  assumes eq: "\<And>f i j. f \<in> coords \<Longrightarrow> i < 4 \<Longrightarrow> j < 4 \<Longrightarrow> pctl f s i j = half r (pctl f p i) j"
    and "hspread p Dh" and "vspread p Dv"
  shows "hspread s Dh" and "vspread s (Dv / 2)"
proof -
  show "hspread s Dh"
    unfolding hspread_def
  proof (intro ballI allI impI)
    fix f i j assume f: "f \<in> coords" and i: "i < (3 :: nat)" and j: "j < (4 :: nat)"
    have "\<bar>half r (pctl f p (Suc i)) j - half r (pctl f p i) j\<bar> \<le> Dh"
      using assms(2) f i j by (intro half_close) (auto simp: hspread_def)
    then show "\<bar>pctl f s (Suc i) j - pctl f s i j\<bar> \<le> Dh" using f i j by (simp add: eq)
  qed
  show "vspread s (Dv / 2)"
    unfolding vspread_def
  proof (intro ballI allI impI)
    fix f i j assume f: "f \<in> coords" and i: "i < (4 :: nat)" and j: "j < (3 :: nat)"
    have "\<bar>half r (pctl f p i) (Suc j) - half r (pctl f p i) j\<bar> \<le> Dv / 2"
      using assms(3) f i by (intro line_diffs [OF _ j]) (auto simp: vspread_def)
    then show "\<bar>pctl f s i (Suc j) - pctl f s i j\<bar> \<le> Dv / 2" using f i j by (simp add: eq)
  qed
qed

lemma half_of_columns:
  assumes eq: "\<And>f i j. f \<in> coords \<Longrightarrow> i < 4 \<Longrightarrow> j < 4 \<Longrightarrow> pctl f s i j = half r (\<lambda>i. pctl f p i j) i"
    and "hspread p Dh" and "vspread p Dv"
  shows "hspread s (Dh / 2)" and "vspread s Dv"
proof -
  show "hspread s (Dh / 2)"
    unfolding hspread_def
  proof (intro ballI allI impI)
    fix f i j assume f: "f \<in> coords" and i: "i < (3 :: nat)" and j: "j < (4 :: nat)"
    have "\<bar>half r (\<lambda>i. pctl f p i j) (Suc i) - half r (\<lambda>i. pctl f p i j) i\<bar> \<le> Dh / 2"
      using assms(2) f j by (intro line_diffs [OF _ i]) (auto simp: hspread_def)
    then show "\<bar>pctl f s (Suc i) j - pctl f s i j\<bar> \<le> Dh / 2" using f i j by (simp add: eq)
  qed
  show "vspread s Dv"
    unfolding vspread_def
  proof (intro ballI allI impI)
    fix f i j assume f: "f \<in> coords" and i: "i < (4 :: nat)" and j: "j < (3 :: nat)"
    have "\<bar>half r (\<lambda>i. pctl f p i (Suc j)) i - half r (\<lambda>i. pctl f p i j) i\<bar> \<le> Dv"
      using assms(3) f i j by (intro half_close) (auto simp: vspread_def)
    then show "\<bar>pctl f s i (Suc j) - pctl f s i j\<bar> \<le> Dv" using f i j by (simp add: eq)
  qed
qed

lemma abs2_le_coords:
  assumes "\<And>f. f \<in> coords \<Longrightarrow> \<bar>f v\<bar> \<le> x"
  shows "abs2 v \<le> 3 * x\<^sup>2"
proof -
  have le: "(f v)\<^sup>2 \<le> x\<^sup>2" if "f \<in> coords" for f
    using power_mono [OF assms [OF that], of 2] by simp
  have "abs2 v = (v3x v)\<^sup>2 + (v3y v)\<^sup>2 + (v3z v)\<^sup>2" by (simp add: abs2_def power2_eq_square)
  also have "\<dots> \<le> x\<^sup>2 + x\<^sup>2 + x\<^sup>2" by (intro add_mono le) (simp_all add: coords_def)
  finally show ?thesis by simp
qed

lemma coords_linear:
  assumes "f \<in> coords"
  shows "f (z + w) = f z + f w" "f (z - w) = f z - f w" "f (r *\<^sub>R z) = r * f z"
  using assms by (auto simp: coords_def)

text \<open>Straightness and flatness are bounded by the differences of neighbouring control points.\<close>

definition steps_le :: "triple list \<Rightarrow> real \<Rightarrow> bool" where
  "steps_le ps D \<longleftrightarrow> (\<forall>f \<in> coords. \<forall>k < length ps - 1. \<bar>f (ps ! Suc k) - f (ps ! k)\<bar> \<le> D)"

lemma steps_le_4:
  assumes "steps_le [a, b, c, d] D" and "f \<in> coords"
  shows "\<bar>f b - f a\<bar> \<le> D" "\<bar>f c - f b\<bar> \<le> D" "\<bar>f d - f c\<bar> \<le> D"
  using assms by (auto simp: steps_le_def numeral_3_eq_3 less_Suc_eq)

lemma Straightness_steps:
  assumes "steps_le [a, b, c, d] D"
  shows "Straightness a b c d \<le> 12 * D\<^sup>2"
proof -
  let ?v = "third *\<^sub>R (d - a)"
  have le: "\<bar>f (b - ?v - a)\<bar> \<le> 2 * D \<and> \<bar>f (d - ?v - c)\<bar> \<le> 2 * D" if f: "f \<in> coords" for f
    using steps_le_4 [OF assms f] by (simp add: coords_linear [OF f] third_def abs_le_iff field_simps)
  have "abs2 (b - ?v - a) \<le> 3 * (2 * D)\<^sup>2" "abs2 (d - ?v - c) \<le> 3 * (2 * D)\<^sup>2"
    by (rule abs2_le_coords, simp add: le)+
  then show ?thesis by (simp add: Straightness_def Let_def power_mult_distrib)
qed

lemma lagrange: "abs2 (cross u v) \<le> abs2 u * abs2 v"
proof -
  have "abs2 u * abs2 v - abs2 (cross u v) = (dot u v)\<^sup>2"
    by (simp add: abs2_def cross_def dot_def power2_eq_square algebra_simps)
  then show ?thesis using zero_le_power2 [of "dot u v"] by linarith
qed

lemma abs2_unit: "abs2 (unit_triple v 0) \<le> 1"
proof (cases "triple_length v = 0")
  case True
  then show ?thesis by (simp add: unit_triple_def Let_def abs2_def)
next
  case False
  have "0 \<le> abs2 v" by (simp add: abs2_def)
  then have "(triple_length v)\<^sup>2 = abs2 v" by (simp add: triple_length_def)
  moreover have "abs2 ((1 / triple_length v) *\<^sub>R v) = abs2 v / (triple_length v)\<^sup>2"
    by (simp add: abs2_def power2_eq_square add_divide_distrib)
  ultimately show ?thesis using False by (simp add: unit_triple_def Let_def)
qed

lemma Flatness_steps:
  assumes "\<And>f. f \<in> coords \<Longrightarrow> \<bar>f b - f a\<bar> \<le> 3 * D" and "\<And>f. f \<in> coords \<Longrightarrow> \<bar>f d - f c\<bar> \<le> 3 * D"
  shows "Flatness a b c d \<le> 12 * D\<^sup>2"
proof -
  have le: "abs2 (cross u (unit_triple w 0)) \<le> abs2 u" for u w
  proof -
    have "abs2 u * abs2 (unit_triple w 0) \<le> abs2 u * 1"
      by (intro mult_left_mono abs2_unit) (simp add: abs2_def)
    then show ?thesis using lagrange [of u "unit_triple w 0"] by simp
  qed
  have "abs2 (b - a) \<le> 3 * (3 * D)\<^sup>2" "abs2 (d - c) \<le> 3 * (3 * D)\<^sup>2"
    by (rule abs2_le_coords, simp add: coords_linear assms)+
  then have "max (abs2 (cross (b - a) (unit_triple (d - c) 0))) (abs2 (cross (d - c) (unit_triple (b - a) 0)))
      \<le> 27 * D\<^sup>2"
    using le [of "b - a" "d - c"] le [of "d - c" "b - a"] by (simp add: power_mult_distrib)
  then have "Flatness a b c d \<le> 1 / 9 * (27 * D\<^sup>2)"
    unfolding Flatness_def Let_def by (intro mult_left_mono) simp_all
  then show ?thesis using zero_le_power2 [of D] by linarith
qed

lemma three_steps:
  assumes "steps_le [a, b, c, d] D" and "f \<in> coords"
  shows "\<bar>f d - f a\<bar> \<le> 3 * D"
  using steps_le_4 [OF assms] by linarith

lemma hspread_steps:
  assumes "hspread p D" and "j < 4"
  shows "steps_le [p ! j, p ! (4 + j), p ! (8 + j), p ! (12 + j)] D"
  unfolding steps_le_def
proof (intro ballI allI impI)
  fix f k assume "f \<in> coords" "k < length [p ! j, p ! (4 + j), p ! (8 + j), p ! (12 + j)] - 1"
  then have "k < 3" "\<bar>pctl f p (Suc k) j - pctl f p k j\<bar> \<le> D" using assms by (auto simp: hspread_def)
  with three_cases [of k]
  show "\<bar>f ([p ! j, p ! (4 + j), p ! (8 + j), p ! (12 + j)] ! Suc k) -
      f ([p ! j, p ! (4 + j), p ! (8 + j), p ! (12 + j)] ! k)\<bar> \<le> D"
    by (auto simp: pctl_def)
qed

lemma vspread_steps:
  assumes "vspread p D" and "i < 4"
  shows "steps_le [p ! (4 * i), p ! (4 * i + 1), p ! (4 * i + 2), p ! (4 * i + 3)] D"
  unfolding steps_le_def
proof (intro ballI allI impI)
  fix f k assume "f \<in> coords" "k < length [p ! (4 * i), p ! (4 * i + 1), p ! (4 * i + 2), p ! (4 * i + 3)] - 1"
  then have "k < 3" "\<bar>pctl f p i (Suc k) - pctl f p i k\<bar> \<le> D" using assms by (auto simp: vspread_def)
  with three_cases [of k]
  show "\<bar>f ([p ! (4 * i), p ! (4 * i + 1), p ! (4 * i + 2), p ! (4 * i + 3)] ! Suc k) -
      f ([p ! (4 * i), p ! (4 * i + 1), p ! (4 * i + 2), p ! (4 * i + 3)] ! k)\<bar> \<le> D"
    by (auto simp: pctl_def numeral_2_eq_2 numeral_3_eq_3)
qed

lemma patch_Distance_h:
  assumes "hspread p D"
  shows "fst (patch_Distance p) \<le> 12 * D\<^sup>2"
proof -
  note s = hspread_steps [OF assms, of 0] hspread_steps [OF assms, of 1]
    hspread_steps [OF assms, of 2] hspread_steps [OF assms, of 3]
  have "Flatness (p ! 0) (p ! 12) (p ! 3) (p ! 15) \<le> 12 * D\<^sup>2"
    using three_steps [OF s(1)] three_steps [OF s(4)] by (intro Flatness_steps) auto
  with s [THEN Straightness_steps] show ?thesis by (simp add: patch_Distance_def Let_def)
qed

lemma patch_Distance_v:
  assumes "vspread p D"
  shows "snd (patch_Distance p) \<le> 12 * D\<^sup>2"
proof -
  note s = vspread_steps [OF assms, of 0] vspread_steps [OF assms, of 1]
    vspread_steps [OF assms, of 2] vspread_steps [OF assms, of 3]
  have "Flatness (p ! 0) (p ! 3) (p ! 12) (p ! 15) \<le> 12 * D\<^sup>2"
    using three_steps [OF s(1)] three_steps [OF s(4)] by (intro Flatness_steps) auto
  with s [THEN Straightness_steps] show ?thesis
    by (simp add: patch_Distance_def Let_def flip: numeral_2_eq_2)
qed

definition patch_rank :: "real \<Rightarrow> nat \<Rightarrow> patch_call \<Rightarrow> bool" where
  "patch_rank r n c \<longleftrightarrow> (\<exists>nh nv Dh Dv. n = nh + nv \<and> hspread (pts c) Dh \<and> vspread (pts c) Dv \<and>
     12 * Dh\<^sup>2 < r * 4 ^ nh \<and> 12 * Dv\<^sup>2 < r * 4 ^ nv)"

definition patch_call_ok :: "bool \<Rightarrow> BezierPatch \<Rightarrow> patch_call \<Rightarrow> bool" where
  "patch_call_ok cc b c \<longleftrightarrow>
     corner_ok cc b (k0 c) \<and> corner_ok cc b (k1 c) \<and> corner_ok cc b (k2 c) \<and> corner_ok cc b (k3 c)"

lemma patch_call_sel [simp]:
  "pts (patch_call p a b c d f0 f1 f2 f3) = p" "k0 (patch_call p a b c d f0 f1 f2 f3) = a"
  "k1 (patch_call p a b c d f0 f1 f2 f3) = b" "k2 (patch_call p a b c d f0 f1 f2 f3) = c"
  "k3 (patch_call p a b c d f0 f1 f2 f3) = d"
  by (simp_all add: patch_call_def)

lemma patch_call_ok_mono: "patch_call_ok cc b c \<Longrightarrow> added cc mi b b' \<Longrightarrow> patch_call_ok cc b' c"
  unfolding patch_call_ok_def using corner_ok_mono by blast

lemma patch_vertical_cases:
  assumes "patch_vertical T C mi c b = (b', ps)"
  obtains s0 s1 f1 f3 m0 m1 n0 n1 c0 c1 i0 i1 b1 where "split_vertically (pts c) = (s0, s1)"
    and "add_corner T C mi m0 n0 c0 b = (i0, b1)" and "add_corner T C mi m1 n1 c1 b1 = (i1, b')"
    and "ps = Two (patch_call s0 (k0 c) (k1 c) i0 i1 (flat0 c) f1 False f3)
      (patch_call s1 i1 i0 (k2 c) (k3 c) False f1 (flat2 c) f3)"
  using assms unfolding patch_vertical_def Let_def by (auto split: prod.splits)

lemma patch_horizontal_cases:
  assumes "patch_horizontal T C mi c b = (b', ps)"
  obtains s0 s1 f0 f2 m0 m1 n0 n1 c0 c1 i0 i1 b1 where "split_horizontally (pts c) = (s0, s1)"
    and "add_corner T C mi m0 n0 c0 b = (i0, b1)" and "add_corner T C mi m1 n1 c1 b1 = (i1, b')"
    and "ps = Two (patch_call s0 (k0 c) i0 i1 (k3 c) f0 False f2 (flat3 c))
      (patch_call s1 i0 (k1 c) (k2 c) i1 f0 (flat1 c) f2 False)"
  using assms unfolding patch_horizontal_def Let_def by (auto split: prod.splits)

lemma patch_both_cases:
  assumes "patch_both T C mi c b = (b', ps)"
  obtains s0 s1 s2 s3 f0 f1 f2 f3 m0 m1 m2 m3 m4 n0 n1 n2 n3 n4 c0 c1 c2 c3 c4 i0 i1 i2 i3 i4 b1 b2 b3 b4
    where "split_both (pts c) = (s0, s1, s2, s3)"
    and "add_corner T C mi m0 n0 c0 b = (i0, b1)" and "add_corner T C mi m1 n1 c1 b1 = (i1, b2)"
    and "add_corner T C mi m2 n2 c2 b2 = (i2, b3)" and "add_corner T C mi m3 n3 c3 b3 = (i3, b4)"
    and "add_corner T C mi m4 n4 c4 b4 = (i4, b')"
    and "ps = Four (patch_call s0 (k0 c) i0 i4 i3 f0 False False f3)
      (patch_call s1 i0 (k1 c) i1 i4 f0 f1 False False)
      (patch_call s2 i4 i1 (k2 c) i2 False f1 f2 False)
      (patch_call s3 i3 i4 i2 (k3 c) False False f2 f3)"
  using assms unfolding patch_both_def Let_def by (auto split: prod.splits)

lemma two_corners:
  assumes "add_corner T C mi m0 n0 c0 b = (i0, b1)" and "add_corner T C mi m1 n1 c1 b1 = (i1, b2)"
  shows "added (T \<or> C) mi b b2" and "corner_ok (T \<or> C) b2 i0" and "corner_ok (T \<or> C) b2 i1"
  using add_corner_added [OF assms(1) refl] add_corner_added [OF assms(2) refl]
    added_trans corner_ok_mono by blast+

lemma three_corners:
  assumes "add_corner T C mi m0 n0 c0 b = (i0, b1)" and "add_corner T C mi m1 n1 c1 b1 = (i1, b2)"
    and "add_corner T C mi m2 n2 c2 b2 = (i2, b3)"
  shows "added (T \<or> C) mi b b3" and "corner_ok (T \<or> C) b3 i0" and "corner_ok (T \<or> C) b3 i1"
    and "corner_ok (T \<or> C) b3 i2"
  using two_corners [OF assms(1,2)] add_corner_added [OF assms(3) refl]
    added_trans corner_ok_mono by blast+

lemma five_corners:
  assumes "add_corner T C mi m0 n0 c0 b = (i0, b1)" and "add_corner T C mi m1 n1 c1 b1 = (i1, b2)"
    and "add_corner T C mi m2 n2 c2 b2 = (i2, b3)" and "add_corner T C mi m3 n3 c3 b3 = (i3, b4)"
    and "add_corner T C mi m4 n4 c4 b4 = (i4, b5)"
  shows "added (T \<or> C) mi b b5" and "corner_ok (T \<or> C) b5 i0" and "corner_ok (T \<or> C) b5 i1"
    and "corner_ok (T \<or> C) b5 i2" and "corner_ok (T \<or> C) b5 i3" and "corner_ok (T \<or> C) b5 i4"
  using three_corners [OF assms(1-3)] two_corners [OF assms(4,5)]
    added_trans corner_ok_mono by blast+

text \<open>Each of the three ways to subdivide.\<close>

lemma patch_subdivided:
  assumes ok: "patch_call_ok (T \<or> C) b c"
    and v: "patch_vertical T C mi c b = (b', ps) \<or> patch_horizontal T C mi c b = (b', ps) \<or>
      patch_both T C mi c b = (b', ps)"
  shows "added (T \<or> C) mi b b' \<and> (\<forall>c' \<in> set_pieces ps. patch_call_ok (T \<or> C) b' c')"
  using v
proof (elim disjE)
  assume "patch_vertical T C mi c b = (b', ps)"
  then show ?thesis
  proof (rule patch_vertical_cases)
    fix s0 s1 f1 f3 m0 m1 n0 n1 c0 c1 i0 i1 b1
    assume a: "add_corner T C mi m0 n0 c0 b = (i0, b1)" "add_corner T C mi m1 n1 c1 b1 = (i1, b')"
      and ps: "ps = Two (patch_call s0 (k0 c) (k1 c) i0 i1 (flat0 c) f1 False f3)
        (patch_call s1 i1 i0 (k2 c) (k3 c) False f1 (flat2 c) f3)"
    from two_corners [OF a] patch_call_ok_mono [OF ok two_corners(1) [OF a]] show ?thesis
      by (simp add: ps patch_call_ok_def)
  qed
next
  assume "patch_horizontal T C mi c b = (b', ps)"
  then show ?thesis
  proof (rule patch_horizontal_cases)
    fix s0 s1 f0 f2 m0 m1 n0 n1 c0 c1 i0 i1 b1
    assume a: "add_corner T C mi m0 n0 c0 b = (i0, b1)" "add_corner T C mi m1 n1 c1 b1 = (i1, b')"
      and ps: "ps = Two (patch_call s0 (k0 c) i0 i1 (k3 c) f0 False f2 (flat3 c))
        (patch_call s1 i0 (k1 c) (k2 c) i1 f0 (flat1 c) f2 False)"
    from two_corners [OF a] patch_call_ok_mono [OF ok two_corners(1) [OF a]] show ?thesis
      by (simp add: ps patch_call_ok_def)
  qed
next
  assume "patch_both T C mi c b = (b', ps)"
  then show ?thesis
  proof (rule patch_both_cases)
    fix s0 s1 s2 s3 f0 f1 f2 f3 m0 m1 m2 m3 m4 n0 n1 n2 n3 n4 c0 c1 c2 c3 c4 i0 i1 i2 i3 i4 b1 b2 b3 b4
    assume a: "add_corner T C mi m0 n0 c0 b = (i0, b1)" "add_corner T C mi m1 n1 c1 b1 = (i1, b2)"
      "add_corner T C mi m2 n2 c2 b2 = (i2, b3)" "add_corner T C mi m3 n3 c3 b3 = (i3, b4)"
      "add_corner T C mi m4 n4 c4 b4 = (i4, b')"
      and ps: "ps = Four (patch_call s0 (k0 c) i0 i4 i3 f0 False False f3)
        (patch_call s1 i0 (k1 c) i1 i4 f0 f1 False False)
        (patch_call s2 i4 i1 (k2 c) i2 False f1 f2 False)
        (patch_call s3 i3 i4 i2 (k3 c) False False f2 f3)"
    from five_corners [OF a] patch_call_ok_mono [OF ok five_corners(1) [OF a]] show ?thesis
      by (simp add: ps patch_call_ok_def)
  qed
qed

lemma patch_step_cases:
  assumes "patch_step pv T C mi c b = (b', ps)"
  obtains (flat) "ps = Done" and "fst (patch_Distance (pts c)) < bp_res2 b"
      and "b' = push_triangle pv (k0 c) (k2 c) (k3 c) (push_triangle pv (k0 c) (k1 c) (k2 c) b)"
    | (off) "ps = Done" and "patch_offscreen pv (pts c) b = (True, b')"
    | (split) b1 where "patch_offscreen pv (pts c) b = (False, b1)"
      and "(patch_vertical T C mi c b1 = (b', ps) \<and> \<not> snd (patch_Distance (pts c)) < bp_res2 b) \<or>
        (patch_horizontal T C mi c b1 = (b', ps) \<and> \<not> fst (patch_Distance (pts c)) < bp_res2 b) \<or>
        (patch_both T C mi c b1 = (b', ps) \<and> \<not> fst (patch_Distance (pts c)) < bp_res2 b \<and>
          \<not> snd (patch_Distance (pts c)) < bp_res2 b)"
proof -
  obtain o' b1 where o: "patch_offscreen pv (pts c) b = (o', b1)" by fastforce
  have res: "bp_res2 b1 = bp_res2 b" using added_res2 [OF patch_offscreen_added [OF o]] .
  let ?h = "fst (patch_Distance (pts c)) < bp_res2 b" and ?v = "snd (patch_Distance (pts c)) < bp_res2 b"
  show thesis
  proof (cases "?h \<and> ?v")
    case True
    with assms have "b' = push_triangle pv (k0 c) (k2 c) (k3 c) (push_triangle pv (k0 c) (k1 c) (k2 c) b)"
      "ps = Done" by (simp_all add: patch_step_def Let_def)
    with True that(1) show thesis by blast
  next
    case False
    then have step: "(if o' then (b1, Done) else if ?h then patch_vertical T C mi c b1
        else if ?v then patch_horizontal T C mi c b1 else patch_both T C mi c b1) = (b', ps)"
      using assms unfolding patch_step_def Let_def by (simp only: o if_False prod.case res)
    show thesis
    proof (cases o')
      case True
      with step o that(2) show thesis by simp
    next
      case off: False
      with step False have "(patch_vertical T C mi c b1 = (b', ps) \<and> \<not> ?v) \<or>
          (patch_horizontal T C mi c b1 = (b', ps) \<and> \<not> ?h) \<or>
          (patch_both T C mi c b1 = (b', ps) \<and> \<not> ?h \<and> \<not> ?v)" by (simp split: if_splits)
      with off o that(3) show thesis by simp
    qed
  qed
qed

lemma patch_step_added:
  assumes "patch_call_ok (T \<or> C) b c" and "patch_step pv T C mi c b = (b', ps)"
  shows "added (T \<or> C) mi b b' \<and> (\<forall>c' \<in> set_pieces ps. patch_call_ok (T \<or> C) b' c')"
  using assms(2)
proof (cases rule: patch_step_cases)
  case flat
  have "added (T \<or> C) mi b (push_triangle pv (k0 c) (k1 c) (k2 c) b)"
    using assms(1) by (intro push_triangle_added) (auto simp: patch_call_ok_def)
  moreover have "added (T \<or> C) mi (push_triangle pv (k0 c) (k1 c) (k2 c) b) b'"
    unfolding flat using patch_call_ok_mono [OF assms(1) calculation]
    by (intro push_triangle_added) (auto simp: patch_call_ok_def)
  ultimately show ?thesis using flat(1) added_trans by auto
next
  case off
  then show ?thesis using patch_offscreen_added by auto
next
  case (split b1)
  note b1 = patch_offscreen_added [OF split(1)]
  from split(2) have "patch_vertical T C mi c b1 = (b', ps) \<or> patch_horizontal T C mi c b1 = (b', ps) \<or>
      patch_both T C mi c b1 = (b', ps)" by blast
  from patch_subdivided [OF patch_call_ok_mono [OF assms(1) b1] this] b1 show ?thesis
    using added_trans by blast
qed

lemma quarter_power:
  fixes D r :: real
  assumes "12 * D\<^sup>2 < r * 4 ^ Suc n"
  shows "12 * (D / 2)\<^sup>2 < r * 4 ^ n"
  using assms by (simp add: power_divide)

lemma vertical_spread:
  assumes s: "split_vertically p = (s0, s1)" and "q = s0 \<or> q = s1"
    and "hspread p Dh" and "vspread p Dv"
  shows "hspread q Dh" and "vspread q (Dv / 2)"
  using assms(2) half_of_rows [OF _ assms(3,4)] split_vertically_half [OF _ _ _ s] by metis+

lemma horizontal_spread:
  assumes s: "split_horizontally p = (s0, s1)" and "q = s0 \<or> q = s1"
    and "hspread p Dh" and "vspread p Dv"
  shows "hspread q (Dh / 2)" and "vspread q Dv"
  using assms(2) half_of_columns [OF _ assms(3,4)] split_horizontally_half [OF _ _ _ s] by metis+

lemma both_spread:
  assumes s: "split_both p = (s0, s1, s2, s3)" and "q = s0 \<or> q = s1 \<or> q = s2 \<or> q = s3"
    and "hspread p Dh" and "vspread p Dv"
  shows "hspread q (Dh / 2)" and "vspread q (Dv / 2)"
proof -
  obtain l r where v: "split_vertically p = (l, r)" by fastforce
  have "q = fst (split_horizontally l) \<or> q = snd (split_horizontally l) \<or>
      q = fst (split_horizontally r) \<or> q = snd (split_horizontally r)"
    using s assms(2) unfolding split_both_eq v by auto
  then obtain w where w: "w = l \<or> w = r"
    and q: "q = fst (split_horizontally w) \<or> q = snd (split_horizontally w)" by blast
  from vertical_spread [OF v w assms(3,4)] q
  show "hspread q (Dh / 2)" "vspread q (Dv / 2)"
    by (metis horizontal_spread prod.collapse)+
qed

lemma patch_rank_step:
  assumes "0 < bp_res2 b" and "patch_rank (bp_res2 b) n c"
    and step: "patch_step pv T C mi c b = (b', ps)" and c': "c' \<in> set_pieces ps"
  shows "\<exists>n' < n. patch_rank (bp_res2 b) n' c'"
proof -
  let ?r = "bp_res2 b"
  from assms(2) obtain nh nv Dh Dv where n: "n = nh + nv" and h: "hspread (pts c) Dh"
    and v: "vspread (pts c) Dv" and bh: "12 * Dh\<^sup>2 < ?r * 4 ^ nh" and bv: "12 * Dv\<^sup>2 < ?r * 4 ^ nv"
    unfolding patch_rank_def by blast
  have nh: "nh \<noteq> 0" if "\<not> fst (patch_Distance (pts c)) < ?r"
    using that patch_Distance_h [OF h] bh by (cases nh) auto
  have nv: "nv \<noteq> 0" if "\<not> snd (patch_Distance (pts c)) < ?r"
    using that patch_Distance_v [OF v] bv by (cases nv) auto
  have half_h: "12 * (Dh / 2)\<^sup>2 < ?r * 4 ^ (nh - 1)" if "nh \<noteq> 0"
    using bh that quarter_power [of Dh ?r "nh - 1"] by simp
  have half_v: "12 * (Dv / 2)\<^sup>2 < ?r * 4 ^ (nv - 1)" if "nv \<noteq> 0"
    using bv that quarter_power [of Dv ?r "nv - 1"] by simp
  show ?thesis
    using step
  proof (cases rule: patch_step_cases)
    case (split b1)
    then consider (V) "patch_vertical T C mi c b1 = (b', ps)" "\<not> snd (patch_Distance (pts c)) < ?r"
      | (H) "patch_horizontal T C mi c b1 = (b', ps)" "\<not> fst (patch_Distance (pts c)) < ?r"
      | (B) "patch_both T C mi c b1 = (b', ps)" "\<not> fst (patch_Distance (pts c)) < ?r"
        "\<not> snd (patch_Distance (pts c)) < ?r" by blast
    then show ?thesis
    proof cases
      case V
      from V(1) obtain s0 s1 where s: "split_vertically (pts c) = (s0, s1)" "pts c' = s0 \<or> pts c' = s1"
        by (rule patch_vertical_cases) (use c' in auto)
      have "patch_rank ?r (nh + (nv - 1)) c'"
        unfolding patch_rank_def using vertical_spread [OF s h v] bh half_v [OF nv [OF V(2)]] by blast
      then show ?thesis using nv [OF V(2)] n by (intro exI [of _ "nh + (nv - 1)"]) simp
    next
      case H
      from H(1) obtain s0 s1 where s: "split_horizontally (pts c) = (s0, s1)" "pts c' = s0 \<or> pts c' = s1"
        by (rule patch_horizontal_cases) (use c' in auto)
      have "patch_rank ?r ((nh - 1) + nv) c'"
        unfolding patch_rank_def using horizontal_spread [OF s h v] bv half_h [OF nh [OF H(2)]] by blast
      then show ?thesis using nh [OF H(2)] n by (intro exI [of _ "(nh - 1) + nv"]) simp
    next
      case B
      from B(1) obtain s0 s1 s2 s3 where s: "split_both (pts c) = (s0, s1, s2, s3)"
        "pts c' = s0 \<or> pts c' = s1 \<or> pts c' = s2 \<or> pts c' = s3"
        by (rule patch_both_cases) (use c' in auto)
      have "patch_rank ?r ((nh - 1) + (nv - 1)) c'"
        unfolding patch_rank_def
        using both_spread [OF s h v] half_h [OF nh [OF B(2)]] half_v [OF nv [OF B(3)]] by blast
      then show ?thesis using nh [OF B(2)] n by (intro exI [of _ "(nh - 1) + (nv - 1)"]) simp
    qed
  qed (use c' in simp_all)
qed

interpretation patch_mesh: mesh_step "patch_step pv T C mi" "T \<or> C" mi "patch_call_ok (T \<or> C)" patch_rank
  for pv T C mi
proof unfold_locales
  fix b c b' ps c' n
  assume ok: "patch_call_ok (T \<or> C) b c"
  show "patch_step pv T C mi c b = (b', ps) \<Longrightarrow> added (T \<or> C) mi b b'"
    and "patch_step pv T C mi c b = (b', ps) \<Longrightarrow> c' \<in> set_pieces ps \<Longrightarrow> patch_call_ok (T \<or> C) b' c'"
    using patch_step_added [OF ok] by blast+
  show "added (T \<or> C) mi b b' \<Longrightarrow> patch_call_ok (T \<or> C) b' c"
    using patch_call_ok_mono [OF ok] by blast
qed (rule patch_rank_step)

section \<open>Triangles: the rank\<close>

definition tri_spread3 :: "triple list \<Rightarrow> real \<Rightarrow> bool" where
  "tri_spread3 p D \<longleftrightarrow> length p = 10 \<and> (\<forall>f \<in> coords. tri_spread (map f p) D)"

definition tri_rank :: "real \<Rightarrow> nat \<Rightarrow> tri_call \<Rightarrow> bool" where
  "tri_rank r n c \<longleftrightarrow> (\<exists>D. tri_spread3 (tpts c) D \<and> 12 * D\<^sup>2 < r * 4 ^ n)"

definition tri_call_ok :: "bool \<Rightarrow> BezierPatch \<Rightarrow> tri_call \<Rightarrow> bool" where
  "tri_call_ok cc b c \<longleftrightarrow> corner_ok cc b (t0 c) \<and> corner_ok cc b (t1 c) \<and> corner_ok cc b (t2 c)"

lemma tri_call_sel [simp]:
  "tpts (tri_call p a b c f0 f1 f2) = p" "t0 (tri_call p a b c f0 f1 f2) = a"
  "t1 (tri_call p a b c f0 f1 f2) = b" "t2 (tri_call p a b c f0 f1 f2) = c"
  by (simp_all add: tri_call_def)

lemma tri_call_ok_mono: "tri_call_ok cc b c \<Longrightarrow> added cc mi b b' \<Longrightarrow> tri_call_ok cc b' c"
  unfolding tri_call_ok_def using corner_ok_mono by blast

lemma Splittri_map:
  assumes "f \<in> coords" and "length p = 10"
  shows "Splittri (map f p) = (case Splittri p of (l, r, u, c) \<Rightarrow> (map f l, map f r, map f u, map f c))"
  using assms(2) by (simp add: Splittri_def Let_def coords_linear [OF assms(1)])

lemma Splittri_length:
  "Splittri p = (l, r, u, c) \<Longrightarrow> length l = 10 \<and> length r = 10 \<and> length u = 10 \<and> length c = 10"
  unfolding Splittri_def Let_def by auto

lemma tri_spread3_subs:
  assumes "tri_spread3 p D" and s: "Splittri p = (l, r, u, c)" and "q \<in> {l, r, u, c}"
  shows "tri_spread3 q (D / 2)"
proof -
  have "tri_spread (map f q) (D / 2)" if f: "f \<in> coords" for f
  proof -
    have "Splittri (map f p) = (map f l, map f r, map f u, map f c)"
      using Splittri_map [OF f] assms(1) s by (simp add: tri_spread3_def)
    then have "map f q \<in> set (tri_subs (map f p))" using assms(3) by (auto simp: tri_subs_def)
    with tri_spread_subs show ?thesis using assms(1) f by (auto simp: tri_spread3_def)
  qed
  then show ?thesis using Splittri_length [OF s] assms(3) by (auto simp: tri_spread3_def)
qed

lemma tri_edge:
  assumes "tri_spread3 p D" and "f \<in> coords"
    and "(i, j) \<in> set (fst tri_edges @ fst (snd tri_edges) @ snd (snd tri_edges))"
  shows "\<bar>f (p ! i) - f (p ! j)\<bar> \<le> D"
proof -
  have "tri_spread (map f p) D" and len: "length p = 10" using assms(1,2) by (simp_all add: tri_spread3_def)
  then have "\<bar>map f p ! i - map f p ! j\<bar> \<le> D"
    using assms(3) unfolding tri_spread_def edges_spread_def by auto
  moreover have "i < 10" "j < 10" using assms(3) by (auto simp: tri_edges_def)
  ultimately show ?thesis using len by simp
qed

lemma tri_steps:
  assumes "tri_spread3 p D"
    and "\<forall>(i, j) \<in> {(a, b), (b, c), (c, d)}. (i, j) \<in> set (fst tri_edges @ fst (snd tri_edges) @ snd (snd tri_edges))"
  shows "steps_le [p ! a, p ! b, p ! c, p ! d] D"
  unfolding steps_le_def
proof (intro ballI allI impI)
  fix f k assume f: "f \<in> coords" and "k < length [p ! a, p ! b, p ! c, p ! d] - 1"
  then have "k = 0 \<or> k = 1 \<or> k = 2" by auto
  moreover have "\<bar>f (p ! i) - f (p ! j)\<bar> \<le> D" if "(i, j) \<in> {(a, b), (b, c), (c, d)}" for i j
    using tri_edge [OF assms(1) f] assms(2) that by blast
  then have "\<bar>f (p ! b) - f (p ! a)\<bar> \<le> D" "\<bar>f (p ! c) - f (p ! b)\<bar> \<le> D" "\<bar>f (p ! d) - f (p ! c)\<bar> \<le> D"
    by (auto simp: abs_minus_commute)
  ultimately show "\<bar>f ([p ! a, p ! b, p ! c, p ! d] ! Suc k) - f ([p ! a, p ! b, p ! c, p ! d] ! k)\<bar> \<le> D"
    by auto
qed

lemma tri_Distance_le:
  assumes "tri_spread3 p D"
  shows "tri_Distance p \<le> 12 * D\<^sup>2"
proof -
  have "\<bar>f (third *\<^sub>R (p ! 0 + p ! 6 + p ! 9) - p ! 4)\<bar> \<le> 2 * D" if f: "f \<in> coords" for f
  proof -
    have e: "\<bar>f (p ! 0) - f (p ! 1)\<bar> \<le> D" "\<bar>f (p ! 1) - f (p ! 4)\<bar> \<le> D" "\<bar>f (p ! 3) - f (p ! 6)\<bar> \<le> D"
      "\<bar>f (p ! 3) - f (p ! 4)\<bar> \<le> D" "\<bar>f (p ! 5) - f (p ! 9)\<bar> \<le> D" "\<bar>f (p ! 4) - f (p ! 5)\<bar> \<le> D"
      by (rule tri_edge [OF assms f]; simp add: tri_edges_def)+
    then have "\<bar>f (p ! 0) - f (p ! 4)\<bar> \<le> 2 * D" "\<bar>f (p ! 6) - f (p ! 4)\<bar> \<le> 2 * D"
      "\<bar>f (p ! 9) - f (p ! 4)\<bar> \<le> 2 * D" by linarith+
    then show ?thesis by (simp add: coords_linear [OF f] third_def abs_le_iff field_simps)
  qed
  then have "abs2 (third *\<^sub>R (p ! 0 + p ! 6 + p ! 9) - p ! 4) \<le> 3 * (2 * D)\<^sup>2"
    by (rule abs2_le_coords)
  moreover have "Straightness (p ! 0) (p ! 1) (p ! 3) (p ! 6) \<le> 12 * D\<^sup>2"
    "Straightness (p ! 0) (p ! 2) (p ! 5) (p ! 9) \<le> 12 * D\<^sup>2"
    "Straightness (p ! 6) (p ! 7) (p ! 8) (p ! 9) \<le> 12 * D\<^sup>2"
    by (rule Straightness_steps, rule tri_steps [OF assms], simp add: tri_edges_def)+
  ultimately show ?thesis by (simp add: tri_Distance_def Let_def power_mult_distrib)
qed

lemma tri_split_cases:
  assumes "tri_split T C mi k b = (b', ps)"
  obtains l r u c f0 f1 f2 m0 m1 m2 n0 n1 n2 c0 c1 c2 i0 i1 i2 b1 b2
    where "Splittri (tpts k) = (l, r, u, c)"
    and "add_corner T C mi m0 n0 c0 b = (i0, b1)" and "add_corner T C mi m1 n1 c1 b1 = (i1, b2)"
    and "add_corner T C mi m2 n2 c2 b2 = (i2, b')"
    and "ps = Four (tri_call l (t0 k) i2 i1 False f1 f2) (tri_call r i2 (t1 k) i0 f0 False f2)
      (tri_call u i1 i0 (t2 k) f0 f1 False) (tri_call c i0 i1 i2 False False False)"
  using assms unfolding tri_split_def Let_def by (auto split: prod.splits)

lemma tri_step_cases:
  assumes "tri_step pv T C mi k b = (b', ps)"
  obtains (flat) "ps = Done" and "b' = push_triangle pv (t0 k) (t1 k) (t2 k) b"
    | (off) "ps = Done" and "patch_offscreen pv (tpts k) b = (True, b')"
    | (split) b1 where "\<not> tri_Distance (tpts k) < bp_res2 b"
      and "patch_offscreen pv (tpts k) b = (False, b1)" and "tri_split T C mi k b1 = (b', ps)"
  using assms unfolding tri_step_def by (auto split: if_splits prod.splits)

lemma tri_step_added:
  assumes ok: "tri_call_ok (T \<or> C) b k" and "tri_step pv T C mi k b = (b', ps)"
  shows "added (T \<or> C) mi b b' \<and> (\<forall>c' \<in> set_pieces ps. tri_call_ok (T \<or> C) b' c')"
  using assms(2)
proof (cases rule: tri_step_cases)
  case flat
  with ok show ?thesis by (auto simp: tri_call_ok_def intro: push_triangle_added)
next
  case off
  then show ?thesis using patch_offscreen_added by auto
next
  case (split b1)
  note b1 = patch_offscreen_added [OF split(2), of "T \<or> C" mi]
  from split(3) show ?thesis
  proof (rule tri_split_cases)
    fix l r u c f0 f1 f2 m0 m1 m2 n0 n1 n2 c0 c1 c2 i0 i1 i2 d1 d2
    assume a: "add_corner T C mi m0 n0 c0 b1 = (i0, d1)" "add_corner T C mi m1 n1 c1 d1 = (i1, d2)"
      "add_corner T C mi m2 n2 c2 d2 = (i2, b')"
      and ps: "ps = Four (tri_call l (t0 k) i2 i1 False f1 f2) (tri_call r i2 (t1 k) i0 f0 False f2)
        (tri_call u i1 i0 (t2 k) f0 f1 False) (tri_call c i0 i1 i2 False False False)"
    have all: "added (T \<or> C) mi b b'" using added_trans [OF b1 three_corners(1) [OF a]] .
    from three_corners [OF a] tri_call_ok_mono [OF ok all] all show ?thesis
      by (simp add: ps tri_call_ok_def)
  qed
qed

lemma tri_rank_step:
  assumes "0 < bp_res2 b" and "tri_rank (bp_res2 b) n c"
    and step: "tri_step pv T C mi c b = (b', ps)" and c': "c' \<in> set_pieces ps"
  shows "\<exists>n' < n. tri_rank (bp_res2 b) n' c'"
proof -
  from assms(2) obtain D where D: "tri_spread3 (tpts c) D" "12 * D\<^sup>2 < bp_res2 b * 4 ^ n"
    unfolding tri_rank_def by blast
  show ?thesis
    using step
  proof (cases rule: tri_step_cases)
    case (split b1)
    then have "n \<noteq> 0" using tri_Distance_le [OF D(1)] D(2) by (cases n) auto
    then obtain n' where n: "n = Suc n'" by (cases n) auto
    from split(3) obtain l r u w where "Splittri (tpts c) = (l, r, u, w)" "tpts c' \<in> {l, r, u, w}"
      by (rule tri_split_cases) (use c' in auto)
    from tri_spread3_subs [OF D(1) this] quarter_power [of D "bp_res2 b" n'] D(2)
    have "tri_rank (bp_res2 b) n' c'" unfolding tri_rank_def n by blast
    then show ?thesis using n by blast
  qed (use c' in simp_all)
qed

interpretation tri_mesh: mesh_step "tri_step pv T C mi" "T \<or> C" mi "tri_call_ok (T \<or> C)" tri_rank
  for pv T C mi
proof unfold_locales
  fix b c b' ps c' n
  assume ok: "tri_call_ok (T \<or> C) b c"
  show "tri_step pv T C mi c b = (b', ps) \<Longrightarrow> added (T \<or> C) mi b b'"
    and "tri_step pv T C mi c b = (b', ps) \<Longrightarrow> c' \<in> set_pieces ps \<Longrightarrow> tri_call_ok (T \<or> C) b' c'"
    using tri_step_added [OF ok] by blast+
  show "added (T \<or> C) mi b b' \<Longrightarrow> tri_call_ok (T \<or> C) b' c"
    using tri_call_ok_mono [OF ok] by blast
qed (rule tri_rank_step)

section \<open>queue\<close>

lemma small_enough:
  fixes D r :: real
  assumes "0 < r"
  obtains n where "12 * D\<^sup>2 < r * 4 ^ n"
proof -
  obtain n where "12 * D\<^sup>2 / r < 4 ^ n" using real_arch_pow [of 4 "12 * D\<^sup>2 / r"] by auto
  then show thesis using that [of n] assms by (simp add: field_simps)
qed

lemma finite_bound:
  fixes S :: "real set"
  assumes "finite S"
  obtains D where "\<And>x. x \<in> S \<Longrightarrow> x \<le> D"
  using assms Max_ge by blast

lemma hspread_exists: obtains D where "hspread p D"
proof -
  let ?S = "\<Union>f \<in> coords. (\<lambda>(i, j). \<bar>pctl f p (Suc i) j - pctl f p i j\<bar>) ` ({..<3} \<times> {..<4})"
  have "finite ?S" by (simp add: coords_def)
  then obtain D where "\<And>x. x \<in> ?S \<Longrightarrow> x \<le> D" by (rule finite_bound) blast
  then have "hspread p D" unfolding hspread_def by force
  then show thesis by (rule that)
qed

lemma vspread_exists: obtains D where "vspread p D"
proof -
  let ?S = "\<Union>f \<in> coords. (\<lambda>(i, j). \<bar>pctl f p i (Suc j) - pctl f p i j\<bar>) ` ({..<4} \<times> {..<3})"
  have "finite ?S" by (simp add: coords_def)
  then obtain D where "\<And>x. x \<in> ?S \<Longrightarrow> x \<le> D" by (rule finite_bound) blast
  then have "vspread p D" unfolding vspread_def by force
  then show thesis by (rule that)
qed

lemma tri_spread3_exists:
  assumes "length p = 10"
  obtains D where "tri_spread3 p D"
proof -
  let ?S = "\<Union>f \<in> coords. (\<lambda>(i, j). \<bar>map f p ! i - map f p ! j\<bar>) ` ({..<10} \<times> {..<10})"
  have "finite ?S" by (simp add: coords_def)
  then obtain D where D: "\<And>x. x \<in> ?S \<Longrightarrow> x \<le> D" by (rule finite_bound) blast
  have le: "\<bar>map f p ! i - map f p ! j\<bar> \<le> D" if "f \<in> coords" "i < 10" "j < 10" for f i j
    using that by (intro D) force
  have "tri_spread (map f p) D" if "f \<in> coords" for f
    unfolding tri_spread_def edges_spread_def tri_edges_def using le [OF that]
    by (simp del: nth_map)
  then have "tri_spread3 p D" using assms by (simp add: tri_spread3_def)
  then show thesis by (rule that)
qed

lemma patch_render_result:
  assumes "0 < bp_res2 b"
  shows "\<exists>b'. BezierPatch_render pv p straight cs (b, g) = Some (patch_append (b', g)) \<and>
    added (transparent b \<or> color b) (MaterialIndex g) (b\<lparr>epsilon := patch_epsilon p\<rparr>) b'"
proof -
  let ?T = "transparent b" and ?C = "color b" and ?mi = "MaterialIndex g" and ?e = "patch_epsilon p"
  let ?b0 = "b\<lparr>epsilon := ?e\<rparr>"
  obtain i0 b1 where a0: "add_corner ?T ?C ?mi (p ! 0) (corner_normal ?e p at_bottom) (cs ! 0) ?b0 = (i0, b1)" by fastforce
  obtain i1 b2 where a1: "add_corner ?T ?C ?mi (p ! 12) (corner_normal ?e p at_right) (cs ! 1) b1 = (i1, b2)" by fastforce
  obtain i2 b3 where a2: "add_corner ?T ?C ?mi (p ! 15) (corner_normal ?e p at_top) (cs ! 2) b2 = (i2, b3)" by fastforce
  obtain i3 b4 where a3: "add_corner ?T ?C ?mi (p ! 3) (corner_normal ?e p at_left) (cs ! 3) b3 = (i3, b4)" by fastforce
  have eq: "BezierPatch_render pv p straight cs (b, g) = map_option (\<lambda>b5. patch_append (b5, g))
      (if straight then Some (push_triangle pv i0 i2 i3 (push_triangle pv i0 i1 i2 b4))
       else render_calls (patch_step pv ?T ?C ?mi) (patch_call p i0 i1 i2 i3 False False False False) b4)"
    unfolding BezierPatch_render_def prod.case Let_def a0 a1 a2 a3 ..
  note k = three_corners [OF a0 a1 a2] and k3 = add_corner_added [OF a3 refl]
  have b4: "added (?T \<or> ?C) ?mi ?b0 b4" using added_trans [OF k(1) k3(1)] .
  have ok: "corner_ok (?T \<or> ?C) b4 i0" "corner_ok (?T \<or> ?C) b4 i1" "corner_ok (?T \<or> ?C) b4 i2"
    "corner_ok (?T \<or> ?C) b4 i3"
    using k(2-4) [THEN corner_ok_mono, OF k3(1)] k3(2) by auto
  show ?thesis
  proof (cases straight)
    case True
    let ?b5 = "push_triangle pv i0 i1 i2 b4"
    have 5: "added (?T \<or> ?C) ?mi b4 ?b5" using push_triangle_added ok by blast
    then have "added (?T \<or> ?C) ?mi ?b5 (push_triangle pv i0 i2 i3 ?b5)"
      using push_triangle_added ok corner_ok_mono by blast
    then show ?thesis using True eq added_trans [OF b4 added_trans [OF 5]] by auto
  next
    case False
    let ?c = "patch_call p i0 i1 i2 i3 False False False False"
    have res: "bp_res2 b4 = bp_res2 b" using added_res2 [OF b4] by simp
    obtain Dh where h: "hspread p Dh" by (rule hspread_exists)
    obtain Dv where v: "vspread p Dv" by (rule vspread_exists)
    obtain nh where nh: "12 * Dh\<^sup>2 < bp_res2 b * 4 ^ nh" using small_enough [OF assms] by blast
    obtain nv where nv: "12 * Dv\<^sup>2 < bp_res2 b * 4 ^ nv" using small_enough [OF assms] by blast
    have "patch_rank (bp_res2 b4) (nh + nv) ?c"
      unfolding patch_rank_def res patch_call_sel using h v nh nv by blast
    moreover have "patch_call_ok (?T \<or> ?C) b4 ?c" using ok by (simp add: patch_call_ok_def)
    ultimately obtain b' where "render_calls (patch_step pv ?T ?C ?mi) ?c b4 = Some b'"
      and "added (?T \<or> ?C) ?mi b4 b'"
      using patch_mesh.render_total assms res by metis
    then show ?thesis using False eq added_trans [OF b4] by auto
  qed
qed

lemma triangle_render_result:
  assumes "0 < bp_res2 b" and "length p = 10"
  shows "\<exists>b'. BezierTriangle_render pv p straight cs (b, g) = Some (patch_append (b', g)) \<and>
    added (transparent b \<or> color b) (MaterialIndex g) (b\<lparr>epsilon := patch_epsilon p\<rparr>) b'"
proof -
  let ?T = "transparent b" and ?C = "color b" and ?mi = "MaterialIndex g" and ?e = "patch_epsilon p"
  let ?b0 = "b\<lparr>epsilon := ?e\<rparr>" and ?n = tri_normals
  obtain i0 b1 where a0: "add_corner ?T ?C ?mi (p ! 0) (normal_at ?e p (fst ?n)) (cs ! 0) ?b0 = (i0, b1)" by fastforce
  obtain i1 b2 where a1: "add_corner ?T ?C ?mi (p ! 6) (normal_at ?e p (fst (snd ?n))) (cs ! 1) b1 = (i1, b2)" by fastforce
  obtain i2 b3 where a2: "add_corner ?T ?C ?mi (p ! 9) (normal_at ?e p (snd (snd ?n))) (cs ! 2) b2 = (i2, b3)" by fastforce
  have eq: "BezierTriangle_render pv p straight cs (b, g) = map_option (\<lambda>b5. patch_append (b5, g))
      (if straight then Some (push_triangle pv i0 i1 i2 b3)
       else render_calls (tri_step pv ?T ?C ?mi) (tri_call p i0 i1 i2 False False False) b3)"
    unfolding BezierTriangle_render_def prod.case Let_def a0 a1 a2 ..
  note k = three_corners [OF a0 a1 a2]
  show ?thesis
  proof (cases straight)
    case True
    have "added (?T \<or> ?C) ?mi b3 (push_triangle pv i0 i1 i2 b3)"
      using push_triangle_added k by blast
    then show ?thesis using True eq added_trans [OF k(1)] by auto
  next
    case False
    let ?c = "tri_call p i0 i1 i2 False False False"
    have res: "bp_res2 b3 = bp_res2 b" using added_res2 [OF k(1)] by simp
    obtain D where D: "tri_spread3 p D" using tri_spread3_exists [OF assms(2)] by blast
    obtain n where n: "12 * D\<^sup>2 < bp_res2 b * 4 ^ n" using small_enough [OF assms(1)] by blast
    have "tri_rank (bp_res2 b3) n ?c" unfolding tri_rank_def res tri_call_sel using D n by blast
    moreover have "tri_call_ok (?T \<or> ?C) b3 ?c" using k by (simp add: tri_call_ok_def)
    ultimately obtain b' where "render_calls (tri_step pv ?T ?C ?mi) ?c b3 = Some b'"
      and "added (?T \<or> ?C) ?mi b3 b'"
      using tri_mesh.render_total assms(1) res by metis
    then show ?thesis using False eq added_trans [OF k(1)] by auto
  qed
qed

text \<open>The material index that vertices carry: negative when the vertices have colours and the
  material only adds to them, positive and shifted by one in the transparent buffer.\<close>

definition queue_material :: "bool \<Rightarrow> bool \<Rightarrow> int \<Rightarrow> int" where
  "queue_material Tr col m = (if Tr then if col then - 1 - m else 1 + m else m)"

lemma patch_queue_result:
  assumes render: "\<And>straight cs b g. 0 < bp_res2 b \<Longrightarrow>
      \<exists>b'. render p straight cs (b, g) = Some (patch_append (b', g)) \<and>
        added (transparent b \<or> color b) (MaterialIndex g) (b\<lparr>epsilon := patch_epsilon p\<rparr>) b'"
    and "ratio \<noteq> 0"
  shows "\<exists>b' g0. patch_queue render p straight ratio Tr cs (b, g) = Some (patch_append (b', g0)) \<and>
    data_added (Tr \<or> cs \<noteq> None) (queue_material Tr (cs \<noteq> None) (materialIndex g))
      (VertexBuffer_clear (bp_data b)) (bp_data b') \<and>
    transparent b' = Tr \<and> color b' = (cs \<noteq> None) \<and>
    g0 = (snd (patch_notRendered (b', g)))\<lparr>MaterialIndex := queue_material Tr (cs \<noteq> None) (materialIndex g)\<rparr>"
proof -
  define b0 where "b0 = b\<lparr>bp_data := VertexBuffer_clear (bp_data b), bp_Onscreen := True,
    transparent := Tr, color := cs \<noteq> None, bp_res2 := ratio * ratio,
    Epsilon := (if Tr then 0 else FillFactor * ratio)\<rparr>"
  define g0 where "g0 = (snd (patch_notRendered (b0, g)))
    \<lparr>MaterialIndex := queue_material Tr (cs \<noteq> None) (materialIndex g)\<rparr>"
  have init: "BezierPatch_init (pixelResolution * ratio)
      (patch_notRendered (b\<lparr>bp_data := VertexBuffer_clear (bp_data b), bp_Onscreen := True,
        transparent := Tr, color := cs \<noteq> None\<rparr>, g)) = (b0, g0)"
    by (simp add: BezierPatch_init_def patch_notRendered_def pixelResolution_def b0_def g0_def
        queue_material_def Let_def)
  have "0 < bp_res2 b0" using assms(2) by (simp add: b0_def zero_less_mult_iff) linarith
  from render [OF this, of straight "case cs of Some c \<Rightarrow> c | None \<Rightarrow> []" g0] obtain b'
    where b': "patch_queue render p straight ratio Tr cs (b, g) = Some (patch_append (b', g0))"
    and add: "added (transparent b0 \<or> color b0) (MaterialIndex g0) (b0\<lparr>epsilon := patch_epsilon p\<rparr>) b'"
    unfolding patch_queue_def prod.case init by blast
  have sel: "transparent b0 = Tr" "color b0 = (cs \<noteq> None)" "bp_data b0 = VertexBuffer_clear (bp_data b)"
    "MaterialIndex g0 = queue_material Tr (cs \<noteq> None) (materialIndex g)"
    by (simp_all add: b0_def g0_def)
  have "g0 = (snd (patch_notRendered (b', g)))\<lparr>MaterialIndex := queue_material Tr (cs \<noteq> None) (materialIndex g)\<rparr>"
    using add sel by (simp add: g0_def patch_notRendered_def added_def)
  with b' add sel show ?thesis by (auto simp: added_def)
qed

lemma cleared_shapes:
  assumes "data_added cc mi (VertexBuffer_clear d) d'" and "nverts cc d' \<le> 2 ^ 32"
  shows "cc \<Longrightarrow> color.valid d' \<and> 3 dvd length (color.shape d') \<and> (\<forall>v \<in> set (color.shape d'). cv_material v = mi)"
    and "\<not> cc \<Longrightarrow> material.valid d' \<and> 3 dvd length (material.shape d') \<and>
      (\<forall>v \<in> set (material.shape d'). mv_material v = mi)"
proof -
  from assms(1) obtain ms cs "is" where d': "materialVertices d' = ms" "colorVertices d' = cs" "indices d' = is"
    and mats: "\<forall>v \<in> set ms. mv_material v = mi" "\<forall>v \<in> set cs. cv_material v = mi"
    and three: "3 dvd length is" and ok: "\<forall>i \<in> set is. index_ok cc d' i"
    unfolding data_added_def by (auto simp: VertexBuffer_clear_def)
  have idx: "unat i < nverts cc d'" if i: "i \<in> set is" for i
  proof -
    obtain n where "n < nverts cc d'" "i = of_nat n" using ok i unfolding index_ok_def by blast
    then show ?thesis using unat_index [of n] assms(2) by simp
  qed
  show "cc \<Longrightarrow> color.valid d' \<and> 3 dvd length (color.shape d') \<and> (\<forall>v \<in> set (color.shape d'). cv_material v = mi)"
    using idx three mats d' by (auto simp: color.valid_def color.shape_def nverts_def)
  show "\<not> cc \<Longrightarrow> material.valid d' \<and> 3 dvd length (material.shape d') \<and>
      (\<forall>v \<in> set (material.shape d'). mv_material v = mi)"
    using idx three mats d' by (auto simp: material.valid_def material.shape_def nverts_def)
qed

text \<open>A buffer whose shape has grown by triangles of one material.\<close>

definition color_grown :: "int \<Rightarrow> VertexBuffer \<Rightarrow> VertexBuffer \<Rightarrow> bool" where
  "color_grown mi d d' \<longleftrightarrow> color.valid d' \<and>
     (\<exists>S. color.shape d' = color.shape d @ S \<and> 3 dvd length S \<and> (\<forall>v \<in> set S. cv_material v = mi))"

definition material_grown :: "int \<Rightarrow> VertexBuffer \<Rightarrow> VertexBuffer \<Rightarrow> bool" where
  "material_grown mi d d' \<longleftrightarrow> material.valid d' \<and>
     (\<exists>S. material.shape d' = material.shape d @ S \<and> 3 dvd length S \<and> (\<forall>v \<in> set S. mv_material v = mi))"

lemma color_grown_extend:
  assumes "data_added True mi (VertexBuffer_clear d0) other" and "color.valid d"
    and "length (colorVertices d) + length (colorVertices other) \<le> 2 ^ 32"
  shows "color_grown mi d (extendColor other (d\<lparr>renderCount := 0\<rparr>))"
proof -
  let ?d = "d\<lparr>renderCount := 0\<rparr>"
  have d: "color.valid ?d" "color.shape ?d = color.shape d"
    using assms(2) by (simp_all add: color.valid_def color.shape_def)
  have "nverts True other \<le> 2 ^ 32" using assms(3) by (simp add: nverts_def)
  note o = cleared_shapes(1) [OF assms(1) this TrueI]
  have "color.valid (extendColor other ?d)" "color.shape (extendColor other ?d) = color.shape d @ color.shape other"
    using color.extend_shape [OF d(1), of other] o assms(3) d(2) by auto
  with o show ?thesis unfolding color_grown_def by blast
qed

lemma material_grown_extend:
  assumes "data_added False mi (VertexBuffer_clear d0) other" and "material.valid d"
    and "length (materialVertices d) + length (materialVertices other) \<le> 2 ^ 32"
  shows "material_grown mi d (extendMaterial other (d\<lparr>renderCount := 0\<rparr>))"
proof -
  let ?d = "d\<lparr>renderCount := 0\<rparr>"
  have d: "material.valid ?d" "material.shape ?d = material.shape d"
    using assms(2) by (simp_all add: material.valid_def material.shape_def)
  have "nverts False other \<le> 2 ^ 32" using assms(3) by (simp add: nverts_def)
  note o = cleared_shapes(2) [OF assms(1) this not_False_eq_True [THEN iffD2, OF TrueI]]
  have "material.valid (extendMaterial other ?d)"
    "material.shape (extendMaterial other ?d) = material.shape d @ material.shape other"
    using material.extend_shape [OF d(1), of other] o assms(3) d(2) by auto
  with o show ?thesis unfolding material_grown_def by blast
qed

text \<open>C37: the tessellation of a patch and of a triangle ends, whatever the control points, the
  projection and the corner colours are, at every resolution but 0: subdividing in a direction
  halves the differences of the control points in it.\<close>

theorem tessellation_terminates:
  assumes "ratio \<noteq> 0" and "length q = 10"
  shows "BezierPatch_queue pv p straight ratio Tr cs st \<noteq> None \<and>
    BezierTriangle_queue pv q straight ratio Tr cs st \<noteq> None"
proof -
  obtain b g where st: "st = (b, g)" by fastforce
  from patch_queue_result [where p = p and render = "BezierPatch_render pv" and straight = straight and Tr = Tr and cs = cs and b = b and g = g, OF patch_render_result assms(1)]
    patch_queue_result [where p = q and render = "BezierTriangle_render pv" and straight = straight and Tr = Tr and cs = cs and b = b and g = g, OF triangle_render_result [OF _ assms(2)] assms(1)]
  show ?thesis by (auto simp: st BezierPatch_queue_def BezierTriangle_queue_def)
qed

theorem tessellation_terminates_witness:
  "BezierPatch_queue (\<lambda>_. 1) (replicate 15 0 @ [V3 9 9 9]) False (1 / 8) True None (BezierPatch_new, empty_globals) \<noteq> None \<and>
   BezierTriangle_queue (\<lambda>_. 1) (replicate 9 0 @ [V3 9 9 9]) False (1 / 8) True None (BezierPatch_new, empty_globals) \<noteq> None"
  by (rule tessellation_terminates) simp_all

text \<open>C38: queueing a patch or a triangle appends triangles to exactly one of the buffers, the one that
  its transparency and its colours select, behind what was there and without changing it; all
  indices refer to vertices, and all vertices carry the index of the material with the sign and the
  shift that the shader expects.\<close>

theorem patch_queue_appends:
  assumes "BezierPatch_queue pv p straight ratio Tr cs (b, g) = Some (b', g') \<or>
      length p = 10 \<and> BezierTriangle_queue pv p straight ratio Tr cs (b, g) = Some (b', g')"
    and "ratio \<noteq> 0"
    and "color.valid (transparentData g)" and "color.valid (colorData g)" and "material.valid (materialData g)"
    and "length (colorVertices (transparentData g)) + length (colorVertices (bp_data b')) \<le> 2 ^ 32"
    and "length (colorVertices (colorData g)) + length (colorVertices (bp_data b')) \<le> 2 ^ 32"
    and "length (materialVertices (materialData g)) + length (materialVertices (bp_data b')) \<le> 2 ^ 32"
  shows "(if Tr then color_grown (queue_material Tr (cs \<noteq> None) (materialIndex g)) (transparentData g) (transparentData g')
          else transparentData g' = transparentData g) \<and>
    (if \<not> Tr \<and> cs \<noteq> None then color_grown (materialIndex g) (colorData g) (colorData g')
     else colorData g' = colorData g) \<and>
    (if \<not> Tr \<and> cs = None then material_grown (materialIndex g) (materialData g) (materialData g')
     else materialData g' = materialData g) \<and>
    triangleData g' = triangleData g \<and> lineData g' = lineData g \<and> pointData g' = pointData g"
proof -
  let ?mi = "queue_material Tr (cs \<noteq> None) (materialIndex g)"
  have "\<exists>b1 g0. (b', g') = patch_append (b1, g0) \<and>
    data_added (Tr \<or> cs \<noteq> None) ?mi (VertexBuffer_clear (bp_data b)) (bp_data b1) \<and>
    transparent b1 = Tr \<and> color b1 = (cs \<noteq> None) \<and>
    g0 = (snd (patch_notRendered (b1, g)))\<lparr>MaterialIndex := ?mi\<rparr>"
    using assms(1)
  proof (elim disjE conjE)
    assume "BezierPatch_queue pv p straight ratio Tr cs (b, g) = Some (b', g')"
    with patch_queue_result [where p = p and render = "BezierPatch_render pv" and straight = straight and Tr = Tr and cs = cs and b = b and g = g, OF patch_render_result assms(2)] show ?thesis
      unfolding BezierPatch_queue_def by (metis option.inject)
  next
    assume len: "length p = 10" and q: "BezierTriangle_queue pv p straight ratio Tr cs (b, g) = Some (b', g')"
    from q patch_queue_result [where p = p and render = "BezierTriangle_render pv" and straight = straight and Tr = Tr and cs = cs and b = b and g = g, OF triangle_render_result [OF _ len] assms(2)] show ?thesis
      unfolding BezierTriangle_queue_def by (metis option.inject)
  qed
  then obtain g0 where app: "(b', g') = patch_append (b', g0)"
    and data: "data_added (Tr \<or> cs \<noteq> None) ?mi (VertexBuffer_clear (bp_data b)) (bp_data b')"
    and flags: "transparent b' = Tr" "color b' = (cs \<noteq> None)"
    and g0: "g0 = (snd (patch_notRendered (b', g)))\<lparr>MaterialIndex := ?mi\<rparr>"
    by (auto simp: patch_append_def)
  consider (tr) "Tr" | (col) "\<not> Tr" "cs \<noteq> None" | (mat) "\<not> Tr" "cs = None" by blast
  then show ?thesis
  proof cases
    case tr
    with data have "color_grown ?mi (transparentData g)
        (extendColor (bp_data b') ((transparentData g)\<lparr>renderCount := 0\<rparr>))"
      using assms(3,6) by (intro color_grown_extend) auto
    with tr app flags g0 show ?thesis
      by (simp add: patch_append_def patch_notRendered_def)
  next
    case col
    with data have "color_grown ?mi (colorData g) (extendColor (bp_data b') ((colorData g)\<lparr>renderCount := 0\<rparr>))"
      using assms(4,7) by (intro color_grown_extend) auto
    with col app flags g0 show ?thesis
      by (auto simp: patch_append_def patch_notRendered_def queue_material_def)
  next
    case mat
    with data have "material_grown ?mi (materialData g)
        (extendMaterial (bp_data b') ((materialData g)\<lparr>renderCount := 0\<rparr>))"
      using assms(5,8) by (intro material_grown_extend) auto
    with mat app flags g0 show ?thesis
      by (simp add: patch_append_def patch_notRendered_def queue_material_def)
  qed
qed

theorem patch_queue_appends_witness:
  "\<exists>b' g'. BezierPatch_queue (\<lambda>i. if i = 15 then 1 else 0) (replicate 16 0) True 1 False None
       (BezierPatch_new, empty_globals\<lparr>materialIndex := 3\<rparr>) = Some (b', g') \<and>
     length (materialVertices (bp_data b')) = 4 \<and>
     material_grown 3 VertexBuffer_new (materialData g') \<and> colorData g' = VertexBuffer_new"
proof -
  let ?pv = "\<lambda>i. if i = 15 then 1 else 0" and ?g = "empty_globals\<lparr>materialIndex := 3\<rparr>"
  have "\<exists>b' g'. BezierPatch_queue ?pv (replicate 16 0) True 1 False None (BezierPatch_new, ?g) = Some (b', g') \<and>
      length (materialVertices (bp_data b')) = 4 \<and> colorVertices (bp_data b') = []"
    unfolding BezierPatch_queue_def patch_queue_def
    by (simp add: BezierPatch_render_def BezierPatch_init_def patch_notRendered_def BezierPatch_new_def
        empty_globals_def VertexBuffer_new_def VertexBuffer_clear_def pixelResolution_def add_corner_def
        patch_addVertex_def addMaterialVertex_def push_triangle_def patch_offscreen_def patch_append_def
        bbox2_offscreen_def bbox2_points_def bbox2_Bounds_def bbox2_bounds_def Transform2T_def Let_def)
  then obtain b' g' where q: "BezierPatch_queue ?pv (replicate 16 0) True 1 False None (BezierPatch_new, ?g) = Some (b', g')"
    "length (materialVertices (bp_data b')) = 4" "colorVertices (bp_data b') = []" by blast
  have e: "transparentData ?g = VertexBuffer_new" "colorData ?g = VertexBuffer_new"
    "materialData ?g = VertexBuffer_new" "color.valid VertexBuffer_new" "material.valid VertexBuffer_new"
    by (simp_all add: empty_globals_def color.valid_def material.valid_def VertexBuffer_new_def)
  from patch_queue_appends [OF disjI1 [OF q(1)]] q(2,3) e show ?thesis
    using q(1) by (auto simp: VertexBuffer_new_def)
qed

end
