(* ===== verification/Primitives.thy ===== *)
theory Primitives
  imports BezierPatch
begin

text \<open>
  The shapes that \<^verbatim>\<open>V3dObjects.cpp\<close> builds from Bezier triangles and patches: spheres and
  hemispheres from a cached octant, disks, cylinders, and tubes around a curve with their rotation
  minimising frames. Angles and lengths are real numbers; \<open>unit3\<close> divides by zero for a null vector
  in the code and is null there in the model, which the results show never to happen for a sphere.

  The results: the triangles of every sphere touch it at their corners, at the middles of their
  edges and at their centroid, at every depth of the subdivision; the frames along a tube are
  orthonormal and stand on its axis, and the corners of its patches have the distance of its radius
  from it.
\<close>

section \<open>Alignment\<close>

text \<open>Class \<open>Align\<close>: without a direction all sines and cosines are 0.\<close>

record Align =
  al_center :: triple
  al_ct :: real
  al_st :: real
  al_cp :: real
  al_sp :: real

definition Align_new :: "triple \<Rightarrow> triple option \<Rightarrow> Align" where
  "Align_new center dir =
     (case dir of
        Some d \<Rightarrow> \<lparr>al_center = center, al_ct = cos (v3x d), al_st = sin (v3x d),
          al_cp = cos (v3y d), al_sp = sin (v3y d)\<rparr>
      | None \<Rightarrow> \<lparr>al_center = center, al_ct = 0, al_st = 0, al_cp = 0, al_sp = 0\<rparr>)"

definition Align_T0 :: "Align \<Rightarrow> triple \<Rightarrow> triple" where
  "Align_T0 A v = V3 (v3x v + v3x (al_center A)) (v3y v + v3y (al_center A)) (v3z v + v3z (al_center A))"

definition Align_T :: "Align \<Rightarrow> triple \<Rightarrow> triple" where
  "Align_T A v =
     (let x = v3x v; Y = v3y v; z = v3z v; X = x * al_ct A + z * al_st A
      in V3 (X * al_cp A - Y * al_sp A + v3x (al_center A))
            (X * al_sp A + Y * al_cp A + v3y (al_center A))
            (- x * al_st A + z * al_ct A + v3z (al_center A)))"

section \<open>Spheres\<close>

definition dot3_of :: "triple \<Rightarrow> triple \<Rightarrow> real" where
  "dot3_of a b = v3x a * v3x b + v3y a * v3y b + v3z a * v3z b"

definition norm3 :: "triple \<Rightarrow> real" where "norm3 v = sqrt (dot3_of v v)"

definition unit3 :: "triple \<Rightarrow> triple" where
  "unit3 v = (let n = norm3 v in V3 (v3x v / n) (v3y v / n) (v3z v / n))"

definition gcMidPoint :: "triple \<Rightarrow> triple \<Rightarrow> triple" where
  "gcMidPoint P Q =
     (let scale = 1 / (sqrt 2 * sqrt (1 + dot3_of P Q))
      in V3 ((v3x P + v3x Q) * scale) ((v3y P + v3y Q) * scale) ((v3z P + v3z Q) * scale))"

definition bezierEdge :: "triple \<Rightarrow> triple \<Rightarrow> triple \<times> triple" where
  "bezierEdge P Q =
     (let x = dot3_of P Q;
          k = (4 / 3) * sqrt (1 - x) / (sqrt 2 + sqrt (1 + x));
          u = unit3 (V3 (v3x Q - x * v3x P) (v3y Q - x * v3y P) (v3z Q - x * v3z P));
          v = unit3 (V3 (v3x P - x * v3x Q) (v3y P - x * v3y Q) (v3z P - x * v3z Q))
      in (V3 (v3x P + k * v3x u) (v3y P + k * v3y u) (v3z P + k * v3z u),
          V3 (v3x Q + k * v3x v) (v3y Q + k * v3y v) (v3z Q + k * v3z v)))"

definition makeBezierTriangle :: "triple \<Rightarrow> triple \<Rightarrow> triple \<Rightarrow> triple list" where
  "makeBezierTriangle A B C =
     (case bezierEdge A B of (ab0, ab1) \<Rightarrow> case bezierEdge B C of (bc0, bc1) \<Rightarrow>
      case bezierEdge C A of (ca0, ca1) \<Rightarrow>
      let S9 = (A + B + C) + 3 *\<^sub>R (ab0 + ab1 + bc0 + bc1 + ca0 + ca1);
          dir = unit3 (A + B + C);
          dotSD = dot3_of S9 dir;
          disc = 144 * dotSD * dotSD - 144 * (dot3_of S9 S9 - 729);
          disc = (if disc < 0 then 0 else disc);
          R = (- 12 * dotSD + sqrt disc) / 72;
          p9 = R *\<^sub>R dir
      in [A, ab0, ca1, ab1, p9, ca0, B, bc0, bc1, C])"

fun subdivideTriangle :: "triple \<Rightarrow> triple \<Rightarrow> triple \<Rightarrow> nat \<Rightarrow> triple list list" where
  "subdivideTriangle A B C 0 = [makeBezierTriangle A B C]"
| "subdivideTriangle A B C (Suc depth) =
     (let midAB = gcMidPoint A B; midBC = gcMidPoint B C; midCA = gcMidPoint C A
      in subdivideTriangle A midAB midCA depth @ subdivideTriangle B midBC midAB depth @
         subdivideTriangle C midCA midBC depth @ subdivideTriangle midAB midBC midCA depth)"

definition sphereOctant :: "triple list list" where
  "sphereOctant = subdivideTriangle (V3 1 0 0) (V3 0 1 0) (V3 0 0 1) 2"

text \<open>\<open>sphere\<close>: the control points of the triangles, in the order in which they are queued. With a
  direction the octants below the plane are left out (\<open>s = 1\<close>).\<close>

definition sphere_patches :: "triple \<Rightarrow> real \<Rightarrow> triple option \<Rightarrow> triple list list" where
  "sphere_patches center r dir =
     (let A = Align_new center dir;
          s = (if dir \<noteq> None then [1] else [- 1, 1]);
          t = (if dir \<noteq> None then Align_T A else Align_T0 A)
      in concat (map (\<lambda>ix. let rx = ix * r in
           concat (map (\<lambda>iy. let ry = iy * r in
             concat (map (\<lambda>iz. let rz = iz * r in
               map (map (\<lambda>v. t (V3 (rx * v3x v) (ry * v3y v) (rz * v3z v)))) sphereOctant)
             s)) [- 1, 1])) [- 1, 1]))"

section \<open>Disks and cylinders\<close>

definition arc_a :: real where "arc_a = 4 / 3 * (sqrt 2 - 1)"

definition unitdisk :: "triple list" where
  "unitdisk = (let a = arc_a; b = 1 - 2 * a / 3 in
     [V3 1 0 0, V3 1 (- a) 0, V3 a (- 1) 0, V3 0 (- 1) 0,
      V3 1 a 0, V3 b 0 0, V3 0 (- b) 0, V3 (- a) (- 1) 0,
      V3 a 1 0, V3 0 b 0, V3 (- b) 0 0, V3 (- 1) (- a) 0,
      V3 0 1 0, V3 (- a) 1 0, V3 (- 1) a 0, V3 (- 1) 0 0])"

definition disk_patch :: "triple \<Rightarrow> real \<Rightarrow> triple option \<Rightarrow> triple list" where
  "disk_patch center r dir =
     map (\<lambda>v. Align_T (Align_new center dir) (V3 (r * v3x v) (r * v3y v) 0)) unitdisk"

text \<open>The heights \<open>1/3\<close> and \<open>2/3\<close> of the code are divisions of integers.\<close>

definition unitcylinder :: "triple list" where
  "unitcylinder = (let a = arc_a; h1 = real (1 div 3); h2 = real (2 div 3) in
     [V3 1 0 0, V3 1 0 h1, V3 1 0 h2, V3 1 0 1,
      V3 1 a 0, V3 1 a h1, V3 1 a h2, V3 1 a 1,
      V3 a 1 0, V3 a 1 h1, V3 a 1 h2, V3 a 1 1,
      V3 0 1 0, V3 0 1 h1, V3 0 1 h2, V3 0 1 1])"

definition cylinder_patches :: "triple \<Rightarrow> real \<Rightarrow> real \<Rightarrow> triple option \<Rightarrow> triple list list" where
  "cylinder_patches center r h dir =
     (let A = Align_new center dir
      in concat (map (\<lambda>i. let rx = i * r in
           map (\<lambda>j. let ry = j * r in
             map (\<lambda>v. Align_T A (V3 (rx * v3x v) (ry * v3y v) (h * v3z v))) unitcylinder)
           [- 1, 1]) [- 1, 1]))"

definition cylinder_core :: "triple \<Rightarrow> real \<Rightarrow> triple option \<Rightarrow> triple list" where
  "cylinder_core center h dir = [center, Align_T (Align_new center dir) (V3 0 0 h)]"

section \<open>Tubes\<close>

record Rmf =
  rm_r :: triple
  rm_s :: triple
  rm_p :: triple
  rm_t :: triple

definition Rmf_new :: "triple \<Rightarrow> triple \<Rightarrow> triple \<Rightarrow> Rmf" where
  "Rmf_new p r t = \<lparr>rm_r = r, rm_s = cross t r, rm_p = p, rm_t = t\<rparr>"

definition DBL_EPSILON :: real where "DBL_EPSILON = 1 / 2 ^ 52"

text \<open>The local function \<open>perp\<close>: a unit vector perpendicular to a given unit vector.\<close>

definition rmf_perp :: "triple \<Rightarrow> triple" where
  "rmf_perp v =
     (let u = cross v (V3 0 1 0); norm = DBL_EPSILON * abs2 v
      in if abs2 u > norm then unit_triple u 0
         else let u = cross v (V3 0 0 1) in if abs2 u > norm then unit_triple u 0 else V3 1 0 0)"

definition rmf_norm :: "triple \<Rightarrow> triple \<Rightarrow> triple \<Rightarrow> triple \<Rightarrow> real" where
  "rmf_norm z0 c0 c1 z1 = DBL_EPSILON * max (max (max (abs2 z0) (abs2 c0)) (abs2 c1)) (abs2 z1)"

text \<open>The local function \<open>d\<close>: the direction of the curve at a parameter in (0,1].\<close>

definition rmf_dir :: "triple \<Rightarrow> triple \<Rightarrow> triple \<Rightarrow> triple \<Rightarrow> real \<Rightarrow> triple" where
  "rmf_dir z0 c0 c1 z1 t =
     (let norm = rmf_norm z0 c0 c1 z1
      in if t = 1
         then let dir = z1 - c1
              in if abs2 dir > norm then unit_triple dir 0
                 else let dir = 2 *\<^sub>R c1 - c0 - z1
                      in if abs2 dir > norm then unit_triple dir 0 else z1 - z0 + 3 *\<^sub>R (c0 - c1)
         else let a = z1 - z0 + 3 *\<^sub>R (c0 - c1); b = 2 *\<^sub>R (z0 + c1) - 4 *\<^sub>R c0; c = c0 - z0;
                  dir = (t * t) *\<^sub>R a + t *\<^sub>R b + c
              in if abs2 dir > norm then unit_triple dir 0
                 else let dir = (2 * t) *\<^sub>R a + b
                      in if abs2 dir > norm then unit_triple dir 0 else unit_triple a 0)"

definition rmf_start :: "triple \<Rightarrow> triple \<Rightarrow> triple \<Rightarrow> triple \<Rightarrow> triple" where
  "rmf_start z0 c0 c1 z1 =
     (let norm = rmf_norm z0 c0 c1 z1; T = c0 - z0
      in unit_triple (if abs2 T < norm
           then let T = z0 - 2 *\<^sub>R c0 + c1
                in if abs2 T < norm then z1 - z0 + 3 *\<^sub>R (c0 - c1) else T
           else T) 0)"

definition rmf_point :: "triple \<Rightarrow> triple \<Rightarrow> triple \<Rightarrow> triple \<Rightarrow> real \<Rightarrow> triple" where
  "rmf_point z0 c0 c1 z1 s =
     (let onemt = 1 - s; onemt2 = onemt * onemt; onemt3 = onemt2 * onemt; s3 = 3 * s;
          onemt2 = onemt2 * s3; onemt = onemt * (s3 * s); t3 = s * s * s
      in onemt3 *\<^sub>R z0 + onemt2 *\<^sub>R c0 + onemt *\<^sub>R c1 + t3 *\<^sub>R z1)"

text \<open>The body of the loop: the frame \<open>Ri\<close> is reflected in the plane between the two points and then
  in the plane between the reflected and the new tangent.\<close>

definition rmf_step :: "triple \<Rightarrow> triple \<Rightarrow> triple \<Rightarrow> triple \<Rightarrow> Rmf \<Rightarrow> real \<Rightarrow> Rmf" where
  "rmf_step z0 c0 c1 z1 Ri s =
     (let p = rmf_point z0 c0 c1 z1 s; v1 = p - rm_p Ri
      in if v3x v1 \<noteq> 0 \<or> v3y v1 \<noteq> 0 \<or> v3z v1 \<noteq> 0
         then let r = rm_r Ri; u1 = unit_triple v1 0; ti = rm_t Ri; dotu1ti = dot u1 ti;
                  tp = ti - (2 * dotu1ti) *\<^sub>R u1;
                  ti = rmf_dir z0 c0 c1 z1 s;
                  dotu1r2 = 2 * dot u1 r;
                  rp = r - dotu1r2 *\<^sub>R u1;
                  u2 = unit_triple (ti - tp) 0;
                  dotu2rp2 = 2 * dot u2 rp;
                  rp = rp - dotu2rp2 *\<^sub>R u2
              in Rmf_new p (unit_triple rp 0) (unit_triple ti 0)
         else Ri)"

fun rmf_loop :: "(Rmf \<Rightarrow> real \<Rightarrow> Rmf) \<Rightarrow> Rmf \<Rightarrow> real list \<Rightarrow> Rmf list" where
  "rmf_loop step R [] = []"
| "rmf_loop step R (s # ts) = step R s # rmf_loop step (step R s) ts"

definition rmf :: "triple \<Rightarrow> triple \<Rightarrow> triple \<Rightarrow> triple \<Rightarrow> real list \<Rightarrow> Rmf list" where
  "rmf z0 c0 c1 z1 ts =
     (let T = rmf_start z0 c0 c1 z1; R0 = Rmf_new z0 (rmf_perp T) T
      in R0 # rmf_loop (rmf_step z0 c0 c1 z1) R0 (tl ts))"

definition tube_frames :: "triple \<Rightarrow> triple \<Rightarrow> triple \<Rightarrow> triple \<Rightarrow> Rmf list" where
  "tube_frames z0 c0 c1 z1 = rmf z0 c0 c1 z1 [0, 1 / 3, 2 / 3, 1]"

text \<open>The local function \<open>f\<close> of \<open>tube\<close>: a quarter of the tube, from the four frames and an arc.\<close>

definition tube_arc :: "real \<Rightarrow> triple list" where
  "tube_arc w = (let aw = arc_a * w in [V3 w 0 0, V3 w aw 0, V3 aw w 0, V3 0 w 0])"

definition tube_row :: "real \<Rightarrow> real \<Rightarrow> real \<Rightarrow> real \<Rightarrow> real \<Rightarrow> Rmf \<Rightarrow> triple \<Rightarrow> triple list" where
  "tube_row a b c d w R v =
     (let T0 = a *\<^sub>R rm_r R + b *\<^sub>R rm_s R; T1 = c *\<^sub>R rm_r R + d *\<^sub>R rm_s R
      in map (\<lambda>u. v3x u *\<^sub>R T0 + v3y u *\<^sub>R T1 + v) (tube_arc w))"

definition tube_patch :: "Rmf list \<Rightarrow> triple list \<Rightarrow> real \<Rightarrow> real \<Rightarrow> real \<Rightarrow> real \<Rightarrow> real \<Rightarrow> triple list" where
  "tube_patch r v w a b c d = concat (map (\<lambda>i. tube_row a b c d w (r ! i) (v ! i)) [0..<4])"

definition tube_patches :: "triple list \<Rightarrow> real \<Rightarrow> triple list list" where
  "tube_patches v w =
     (let r = tube_frames (v ! 0) (v ! 1) (v ! 2) (v ! 3)
      in [tube_patch r v w 1 0 0 1, tube_patch r v w 0 (- 1) 1 0,
          tube_patch r v w (- 1) 0 0 (- 1), tube_patch r v w 0 1 (- 1) 0])"

section \<open>Products of points\<close>

lemma dot_linear [geom_simps]:
  "dot (a + b) c = dot a c + dot b c" "dot c (a + b) = dot c a + dot c b"
  "dot (a - b) c = dot a c - dot b c" "dot c (a - b) = dot c a - dot c b"
  "dot (x *\<^sub>R a) c = x * dot a c" "dot c (x *\<^sub>R a) = x * dot c a"
  "dot (- a) c = - dot a c" "dot c (- a) = - dot c a"
  by (simp_all add: dot_def algebra_simps)

lemma dot_commute: "dot a b = dot b a"
  by (simp add: dot_def mult.commute)

lemma abs2_dot [geom_simps]: "abs2 a = dot a a"
  by (simp add: abs2_def dot_def)

lemma dot_nonneg [simp]: "0 \<le> dot a a"
  by (simp add: dot_def)

lemma dot_eq_0 [simp]: "dot a a = 0 \<longleftrightarrow> a = 0"
proof -
  have "dot a a = (v3x a)\<^sup>2 + ((v3y a)\<^sup>2 + (v3z a)\<^sup>2)" by (simp add: dot_def power2_eq_square)
  then show ?thesis by (cases a) (auto simp: add_nonneg_eq_0_iff zero_vec3_def)
qed

lemma dot_zero [simp]: "dot 0 a = 0" "dot a 0 = 0"
  by (simp_all add: dot_def)

definition det3 :: "triple \<Rightarrow> triple \<Rightarrow> triple \<Rightarrow> real" where
  "det3 a b c = dot a (cross b c)"

lemma cross_dot: "dot (cross a b) (cross a b) = dot a a * dot b b - (dot a b)\<^sup>2"
  by (simp add: cross_def dot_def power2_eq_square algebra_simps)

lemma cauchy_schwarz: "(dot a b)\<^sup>2 \<le> dot a a * dot b b"
  using cross_dot [of a b] dot_nonneg [of "cross a b"] by linarith

lemma dot3_of_dot [simp]: "dot3_of = dot"
  by (intro ext) (simp add: dot3_of_def dot_def)

lemma unit3_eq: "unit3 v = (1 / sqrt (dot v v)) *\<^sub>R v"
  by (simp add: unit3_def norm3_def vec3_defs Let_def)

lemma unit_triple_eq: "unit_triple v 0 = (1 / sqrt (dot v v)) *\<^sub>R v"
  by (simp add: unit_triple_def triple_length_def abs2_dot Let_def)

lemma unit3_unit:
  assumes "v \<noteq> 0"
  shows "dot (unit3 v) (unit3 v) = 1"
  using assms by (simp add: unit3_eq dot_linear real_sqrt_mult_self less_le)

lemma unit_triple_unit: "v \<noteq> 0 \<Longrightarrow> dot (unit_triple v 0) (unit_triple v 0) = 1"
  using unit3_unit by (simp add: unit_triple_eq unit3_eq)

section \<open>Great circles\<close>

lemma gcMidPoint_eq: "gcMidPoint P Q = (1 / (sqrt 2 * sqrt (1 + dot P Q))) *\<^sub>R (P + Q)"
  by (simp add: gcMidPoint_def vec3_defs Let_def mult.commute)

lemma bezierEdge_eq:
  "bezierEdge P Q = (let x = dot P Q; k = 4 / 3 * sqrt (1 - x) / (sqrt 2 + sqrt (1 + x))
     in (P + k *\<^sub>R unit3 (Q - x *\<^sub>R P), Q + k *\<^sub>R unit3 (P - x *\<^sub>R Q)))"
  by (simp add: bezierEdge_def Let_def vec3_defs)

lemma gcMidPoint_unit:
  assumes "dot P P = 1" and "dot Q Q = 1" and "- 1 < dot P Q"
  shows "dot (gcMidPoint P Q) (gcMidPoint P Q) = 1"
proof -
  have "dot (P + Q) (P + Q) = 2 * (1 + dot P Q)"
    using assms(1,2) by (simp add: dot_linear dot_commute [of Q P])
  with assms(3) show ?thesis
    by (simp add: gcMidPoint_eq dot_linear(5,6) real_sqrt_mult [symmetric])
qed

text \<open>Of two different points of a great circle, the edge is tangent to the sphere at its ends, its
  control points are close to it, and its middle lies on it.\<close>

lemma bezierEdge_props:
  assumes "dot P P = 1" and "dot Q Q = 1" and "0 \<le> dot P Q" and "dot P Q < 1"
    and "bezierEdge P Q = (a, b)"
  shows "dot P (a - P) = 0" and "dot Q (b - Q) = 0" and "dot a a \<le> (5 / 4)\<^sup>2" and "dot b b \<le> (5 / 4)\<^sup>2"
    and "let m = (1 / 8) *\<^sub>R (P + 3 *\<^sub>R a + 3 *\<^sub>R b + Q) in dot m m = 1"
proof -
  define x where "x = dot P Q"
  define k where "k = 4 / 3 * sqrt (1 - x) / (sqrt 2 + sqrt (1 + x))"
  define s where "s = sqrt (1 - x\<^sup>2)"
  have x: "0 \<le> x" "x < 1" using assms(3,4) by (simp_all add: x_def)
  then have "x\<^sup>2 < 1" by (simp add: power2_eq_square mult_strict_mono [of x 1 x 1, simplified] abs_square_less_1 [unfolded power2_eq_square])
  then have s: "0 < s" "s\<^sup>2 = 1 - x\<^sup>2" by (simp_all add: s_def)
  have PQ: "dot P P = 1" "dot Q Q = 1" "dot P Q = x" "dot Q P = x"
    using assms(1,2) by (simp_all add: x_def dot_commute)
  have "dot (Q - x *\<^sub>R P) (Q - x *\<^sub>R P) = 1 - x\<^sup>2" "dot (P - x *\<^sub>R Q) (P - x *\<^sub>R Q) = 1 - x\<^sup>2"
    by (simp_all add: dot_linear PQ power2_eq_square algebra_simps)
  then have u: "unit3 (Q - x *\<^sub>R P) = (1 / s) *\<^sub>R (Q - x *\<^sub>R P)" "unit3 (P - x *\<^sub>R Q) = (1 / s) *\<^sub>R (P - x *\<^sub>R Q)"
    by (simp_all add: unit3_eq s_def)
  define h where "h = k / s"
  have ab: "a = P + h *\<^sub>R (Q - x *\<^sub>R P)" "b = Q + h *\<^sub>R (P - x *\<^sub>R Q)"
    using assms(5) u by (auto simp: bezierEdge_eq Let_def h_def k_def x_def)
  show "dot P (a - P) = 0" "dot Q (b - Q) = 0" by (simp_all add: ab dot_linear PQ)
  have k: "0 \<le> k" "k \<le> 2 / 3"
  proof -
    have le: "sqrt (1 - x) \<le> 1" "0 \<le> sqrt (1 - x)" "1 \<le> sqrt 2" "1 \<le> sqrt (1 + x)" using x by simp_all
    then show "0 \<le> k" by (simp add: k_def)
    have "k \<le> 4 / 3 / 2" unfolding k_def by (intro frac_le) (insert le, linarith+)
    then show "k \<le> 2 / 3" by simp
  qed
  have "k\<^sup>2 \<le> (2 / 3)\<^sup>2" using k by (intro power_mono) simp_all
  then have bound: "1 + k\<^sup>2 \<le> (5 / 4)\<^sup>2" by (simp add: power2_eq_square)
  have "dot a a = 1 + h\<^sup>2 * (1 - x\<^sup>2)" "dot b b = 1 + h\<^sup>2 * (1 - x\<^sup>2)"
    by (simp_all add: ab dot_linear PQ power2_eq_square algebra_simps)
  then have "dot a a = 1 + k\<^sup>2" "dot b b = 1 + k\<^sup>2" using s by (auto simp: h_def power_divide)
  with bound show "dot a a \<le> (5 / 4)\<^sup>2" "dot b b \<le> (5 / 4)\<^sup>2" by simp_all
  define y where "y = sqrt (1 + x)"
  have y: "0 < y" "y * y = 1 + x" "1 - x = (sqrt 2 - y) * (sqrt 2 + y)" "0 < sqrt 2 + y"
    using x by (simp_all add: y_def algebra_simps add_pos_pos)
  have z: "0 < sqrt (1 - x)" "s = y * sqrt (1 - x)"
    using x by (simp_all add: s_def y_def real_sqrt_mult [symmetric] power2_eq_square algebra_simps)
  have "h = 4 / 3 / ((sqrt 2 + y) * y)"
    using y(1,4) z by (simp add: h_def k_def y_def [symmetric])
  then have "3 * h * (1 - x) = 3 * (4 / 3 / ((sqrt 2 + y) * y)) * ((sqrt 2 - y) * (sqrt 2 + y))"
    by (simp only: y(3))
  moreover have "3 * (4 / 3 / (v * y)) * (u * v) = 4 * u / y" if "v \<noteq> 0" for u v
    using that y(1) by simp
  moreover have "4 + 4 * (w - y) / y = 4 * w / y" for w using y(1) by (simp add: field_simps)
  ultimately have c: "4 + 3 * h * (1 - x) = 4 * sqrt 2 / y" using y(4) by simp
  have "(1 / 8) *\<^sub>R (P + 3 *\<^sub>R a + 3 *\<^sub>R b + Q) = ((4 + 3 * h * (1 - x)) / 8) *\<^sub>R (P + Q)"
    by (rule vec3.expand) (simp add: ab field_simps)
  moreover have "dot (P + Q) (P + Q) = 2 * (y * y)" by (simp add: dot_linear PQ y(2))
  ultimately show "let m = (1 / 8) *\<^sub>R (P + 3 *\<^sub>R a + 3 *\<^sub>R b + Q) in dot m m = 1"
    using y(1) unfolding c Let_def by (simp only: dot_linear(5,6)) simp
qed

section \<open>The triangles of a sphere\<close>

text \<open>The point of a Bezier triangle with the given barycentric coordinates; a triangle touches a sphere
  if its corners, the middles of its edges and its centroid lie on it.\<close>

definition tri_at :: "triple list \<Rightarrow> real \<Rightarrow> real \<Rightarrow> real \<Rightarrow> triple" where
  "tri_at p l r u = V3 (tri (\<lambda>i. v3x (p ! i)) l r u) (tri (\<lambda>i. v3y (p ! i)) l r u) (tri (\<lambda>i. v3z (p ! i)) l r u)"

definition touching_points :: "(real \<times> real \<times> real) set" where
  "touching_points = {(1, 0, 0), (0, 1, 0), (0, 0, 1), (1 / 2, 1 / 2, 0), (0, 1 / 2, 1 / 2),
     (1 / 2, 0, 1 / 2), (1 / 3, 1 / 3, 1 / 3)}"

definition touches_sphere :: "triple \<Rightarrow> real \<Rightarrow> triple list \<Rightarrow> bool" where
  "touches_sphere c \<rho> p \<longleftrightarrow> length p = 10 \<and>
     (\<forall>(l, r, u) \<in> touching_points. abs2 (tri_at p l r u - c) = \<rho>\<^sup>2)"

lemma tri_at_eq:
  "tri_at p l r u = l ^ 3 *\<^sub>R p ! 0 + (3 * r * l\<^sup>2) *\<^sub>R p ! 1 + (3 * u * l\<^sup>2) *\<^sub>R p ! 2 +
     (3 * r\<^sup>2 * l) *\<^sub>R p ! 3 + (6 * r * u * l) *\<^sub>R p ! 4 + (3 * u\<^sup>2 * l) *\<^sub>R p ! 5 + r ^ 3 *\<^sub>R p ! 6 +
     (3 * r\<^sup>2 * u) *\<^sub>R p ! 7 + (3 * r * u\<^sup>2) *\<^sub>R p ! 8 + u ^ 3 *\<^sub>R p ! 9"
  unfolding tri_at_def tri_def by (rule vec3.expand) simp

lemma dot_add_le:
  assumes "dot a a \<le> A\<^sup>2" and "dot b b \<le> B\<^sup>2" and "0 \<le> A" and "0 \<le> B"
  shows "dot (a + b) (a + b) \<le> (A + B)\<^sup>2"
proof -
  have "(dot a b)\<^sup>2 \<le> dot a a * dot b b" by (rule cauchy_schwarz)
  also have "\<dots> \<le> A\<^sup>2 * B\<^sup>2" using assms by (intro mult_mono) simp_all
  finally have "dot a b \<le> A * B"
    using assms(3,4) by (intro power2_le_imp_le [of "dot a b"]) (simp_all add: power_mult_distrib)
  then show ?thesis
    using assms(1,2) by (simp add: dot_linear dot_commute [of b a] power2_sum)
qed

text \<open>The centroid: the interior control point is on the ray through the middle of the corners, where
  a quadratic equation places the centroid on the sphere.\<close>

lemma centroid_unit:
  assumes "dot S S \<le> 27\<^sup>2" and "dot d d = 1"
  shows "let q = 144 * dot S d * dot S d - 144 * (dot S S - 729); q = (if q < 0 then 0 else q);
             R = (- 12 * dot S d + sqrt q) / 72; c = (1 / 27) *\<^sub>R (S + 6 *\<^sub>R R *\<^sub>R d)
    in dot c c = 1"
proof -
  define q where "q = 144 * dot S d * dot S d - 144 * (dot S S - 729)"
  define R where "R = (- 12 * dot S d + sqrt q) / 72"
  have "0 \<le> 144 * dot S d * dot S d" by (simp add: mult.assoc)
  moreover have "dot S S \<le> 729" using assms(1) by simp
  moreover have "0 \<le> X - 144 * (Y - 729)" if "0 \<le> X" "Y \<le> 729" for X Y :: real using that by simp
  ultimately have q: "0 \<le> q" unfolding q_def by blast
  have "72 * R + 12 * dot S d = sqrt q" by (simp add: R_def diff_divide_distrib)
  then have "(72 * R + 12 * dot S d)\<^sup>2 = q" using q by simp
  then have "dot S S + 12 * R * dot S d + 36 * R * R = 729"
    by (simp add: q_def power2_eq_square algebra_simps)
  moreover have "dot (S + 6 *\<^sub>R R *\<^sub>R d) (S + 6 *\<^sub>R R *\<^sub>R d) = dot S S + 12 * R * dot S d + 36 * R * R"
    by (simp add: dot_linear assms(2) dot_commute [of d S] algebra_simps)
  ultimately have "dot ((1 / 27) *\<^sub>R (S + 6 *\<^sub>R R *\<^sub>R d)) ((1 / 27) *\<^sub>R (S + 6 *\<^sub>R R *\<^sub>R d)) = 1"
    by (simp add: dot_linear(5,6))
  then show ?thesis
    unfolding Let_def q_def [symmetric] if_not_P [OF q [folded not_less]] R_def [symmetric] .
qed

definition sphere_corners :: "triple \<Rightarrow> triple \<Rightarrow> triple \<Rightarrow> bool" where
  "sphere_corners A B C \<longleftrightarrow> dot A A = 1 \<and> dot B B = 1 \<and> dot C C = 1 \<and> det3 A B C \<noteq> 0 \<and>
     (\<forall>P \<in> {A, B, C}. 0 \<le> v3x P \<and> 0 \<le> v3y P \<and> 0 \<le> v3z P)"

lemma det3_algebra:
  "det3 (a *\<^sub>R A) (b *\<^sub>R B) (c *\<^sub>R C) = a * b * c * det3 A B C"
  "det3 A (A + B) (C + A) = det3 A B C" "det3 B (B + C) (A + B) = det3 A B C"
  "det3 C (C + A) (B + C) = det3 A B C" "det3 (A + B) (B + C) (C + A) = 2 * det3 A B C"
  "det3 B C A = det3 A B C" "det3 C A B = det3 A B C"
  by (simp_all add: det3_def cross_def dot_def algebra_simps)

lemma sphere_corners_rotate: "sphere_corners A B C \<Longrightarrow> sphere_corners B C A"
  by (auto simp: sphere_corners_def det3_algebra)

lemma sphere_corners_dot:
  assumes "sphere_corners A B C"
  shows "0 \<le> dot A B" and "dot A B < 1"
proof -
  show nonneg: "0 \<le> dot A B" using assms by (simp add: sphere_corners_def dot_def)
  have "cross A B \<noteq> 0"
  proof
    assume "cross A B = 0"
    then have "det3 C A B = 0" by (simp add: det3_def)
    with assms show False by (simp add: sphere_corners_def det3_algebra)
  qed
  then have "0 < dot (cross A B) (cross A B)" by (simp add: less_le)
  then have "(dot A B)\<^sup>2 < 1\<^sup>2" using assms by (simp add: cross_dot sphere_corners_def)
  then show "dot A B < 1" using nonneg by (rule_tac power2_less_imp_less) simp_all
qed

lemma gcMidPoint_nonneg:
  assumes "sphere_corners A B C"
  shows "dot (gcMidPoint A B) (gcMidPoint A B) = 1"
    and "0 \<le> v3x (gcMidPoint A B)" "0 \<le> v3y (gcMidPoint A B)" "0 \<le> v3z (gcMidPoint A B)"
    and "gcMidPoint A B = (1 / (sqrt 2 * sqrt (1 + dot A B))) *\<^sub>R (A + B)"
    and "1 / (sqrt 2 * sqrt (1 + dot A B)) \<noteq> 0"
  using assms sphere_corners_dot [OF assms] gcMidPoint_unit [of A B]
  by (auto simp: sphere_corners_def gcMidPoint_eq)

lemma subdivided_corners:
  assumes "sphere_corners A B C"
  defines "AB \<equiv> gcMidPoint A B" and "BC \<equiv> gcMidPoint B C" and "CA \<equiv> gcMidPoint C A"
  shows "sphere_corners A AB CA" and "sphere_corners B BC AB" and "sphere_corners C CA BC"
    and "sphere_corners AB BC CA"
proof -
  note s = assms(1) sphere_corners_rotate [OF assms(1)] sphere_corners_rotate [OF sphere_corners_rotate [OF assms(1)]]
  note m = gcMidPoint_nonneg [OF s(1), folded AB_def] gcMidPoint_nonneg [OF s(2), folded BC_def]
    gcMidPoint_nonneg [OF s(3), folded CA_def]
  obtain a b c where abc: "AB = a *\<^sub>R (A + B)" "BC = b *\<^sub>R (B + C)" "CA = c *\<^sub>R (C + A)"
    "a \<noteq> 0" "b \<noteq> 0" "c \<noteq> 0" using m by blast
  have det: "det3 A AB CA \<noteq> 0" "det3 B BC AB \<noteq> 0" "det3 C CA BC \<noteq> 0" "det3 AB BC CA \<noteq> 0"
    using det3_algebra(1) [of 1 A] det3_algebra(1) [of 1 B] det3_algebra(1) [of 1 C] assms(1) abc
    by (simp_all add: det3_algebra sphere_corners_def)
  show "sphere_corners A AB CA" "sphere_corners B BC AB" "sphere_corners C CA BC" "sphere_corners AB BC CA"
    using assms(1) m det by (simp_all add: sphere_corners_def)
qed

lemma dot_sum3_le:
  assumes "dot a a \<le> r\<^sup>2" and "dot b b \<le> r\<^sup>2" and "dot c c \<le> r\<^sup>2" and "0 \<le> r"
  shows "dot (a + b + c) (a + b + c) \<le> (3 * r)\<^sup>2"
  using dot_add_le [OF dot_add_le [OF assms(1,2,4,4)] assms(3)] assms(4) by simp

lemma touching_points_ball:
  "(\<forall>(l, r, u) \<in> touching_points. Q l r u) \<longleftrightarrow> Q 1 0 0 \<and> Q 0 1 0 \<and> Q 0 0 1 \<and> Q (1 / 2) (1 / 2) 0 \<and>
     Q 0 (1 / 2) (1 / 2) \<and> Q (1 / 2) 0 (1 / 2) \<and> Q (1 / 3) (1 / 3) (1 / 3)"
  by (simp add: touching_points_def)

lemma tri_at_touching:
  fixes A B C ab0 ab1 bc0 bc1 ca0 ca1 m :: triple
  defines "p \<equiv> [A, ab0, ca1, ab1, m, ca0, B, bc0, bc1, C]"
  shows "tri_at p 1 0 0 = A" "tri_at p 0 1 0 = B" "tri_at p 0 0 1 = C"
    "tri_at p (1 / 2) (1 / 2) 0 = (1 / 8) *\<^sub>R (A + 3 *\<^sub>R ab0 + 3 *\<^sub>R ab1 + B)"
    "tri_at p 0 (1 / 2) (1 / 2) = (1 / 8) *\<^sub>R (B + 3 *\<^sub>R bc0 + 3 *\<^sub>R bc1 + C)"
    "tri_at p (1 / 2) 0 (1 / 2) = (1 / 8) *\<^sub>R (C + 3 *\<^sub>R ca0 + 3 *\<^sub>R ca1 + A)"
    "tri_at p (1 / 3) (1 / 3) (1 / 3) =
       (1 / 27) *\<^sub>R ((A + B + C) + 3 *\<^sub>R (ab0 + ab1 + bc0 + bc1 + ca0 + ca1) + 6 *\<^sub>R m)"
  by (rule vec3.expand, simp add: p_def tri_at_def tri_def power2_eq_square power3_eq_cube field_simps)+

lemma makeBezierTriangle_touches:
  assumes "sphere_corners A B C"
  shows "touches_sphere 0 1 (makeBezierTriangle A B C)"
proof -
  note s = assms sphere_corners_rotate [OF assms] sphere_corners_rotate [OF sphere_corners_rotate [OF assms]]
  have unit: "dot A A = 1" "dot B B = 1" "dot C C = 1" using assms by (simp_all add: sphere_corners_def)
  obtain ab0 ab1 bc0 bc1 ca0 ca1 where e: "bezierEdge A B = (ab0, ab1)" "bezierEdge B C = (bc0, bc1)"
    "bezierEdge C A = (ca0, ca1)" by (metis surj_pair)
  note ab = bezierEdge_props [OF unit(1,2) sphere_corners_dot [OF s(1)] e(1)]
  note bc = bezierEdge_props [OF unit(2,3) sphere_corners_dot [OF s(2)] e(2)]
  note ca = bezierEdge_props [OF unit(3,1) sphere_corners_dot [OF s(3)] e(3)]
  define S where "S = (A + B + C) + 3 *\<^sub>R (ab0 + ab1 + bc0 + bc1 + ca0 + ca1)"
  define d where "d = unit3 (A + B + C)"
  have "dot A (A + B + C) \<ge> 1"
    using sphere_corners_dot [OF s(1)] sphere_corners_dot [OF s(3)]
    by (simp add: dot_linear unit dot_commute [of A C])
  then have "A + B + C \<noteq> 0" by (metis dot_zero(2) not_one_le_zero)
  then have d: "dot d d = 1" unfolding d_def by (rule unit3_unit)
  have "dot (ab0 + ab1 + bc0) (ab0 + ab1 + bc0) \<le> (3 * (5 / 4))\<^sup>2"
    "dot (bc1 + ca0 + ca1) (bc1 + ca0 + ca1) \<le> (3 * (5 / 4))\<^sup>2"
    using ab(3,4) bc(3,4) ca(3,4) by (intro dot_sum3_le; simp)+
  then have "dot ((ab0 + ab1 + bc0) + (bc1 + ca0 + ca1)) ((ab0 + ab1 + bc0) + (bc1 + ca0 + ca1)) \<le>
      (3 * (5 / 4) + 3 * (5 / 4))\<^sup>2" by (intro dot_add_le) simp_all
  moreover have "ab0 + ab1 + bc0 + bc1 + ca0 + ca1 = (ab0 + ab1 + bc0) + (bc1 + ca0 + ca1)"
    by (simp add: add.assoc)
  ultimately have edges: "dot (3 *\<^sub>R (ab0 + ab1 + bc0 + bc1 + ca0 + ca1)) (3 *\<^sub>R (ab0 + ab1 + bc0 + bc1 + ca0 + ca1)) \<le> 23\<^sup>2"
    by (simp only: dot_linear(5,6)) (simp add: power2_eq_square)
  have "dot (A + B + C) (A + B + C) \<le> (3 * 1)\<^sup>2" using unit by (intro dot_sum3_le) simp_all
  from dot_add_le [OF this edges] have "dot S S \<le> 26\<^sup>2" by (simp add: S_def)
  then have "dot S S \<le> 27\<^sup>2" by simp
  note centroid = centroid_unit [OF this d, unfolded Let_def]
  define R where "R = (- 12 * dot S d + sqrt (if 144 * dot S d * dot S d - 144 * (dot S S - 729) < 0 then 0
    else 144 * dot S d * dot S d - 144 * (dot S S - 729))) / 72"
  have R: "makeBezierTriangle A B C = [A, ab0, ca1, ab1, R *\<^sub>R d, ca0, B, bc0, bc1, C]"
    unfolding makeBezierTriangle_def e prod.case Let_def dot3_of_dot S_def [symmetric] d_def [symmetric]
      R_def [symmetric] ..
  note m = centroid [folded R_def]
  show ?thesis
    unfolding touches_sphere_def touching_points_ball R tri_at_touching S_def [symmetric]
    using ab(5) bc(5) ca(5) unit m by (simp add: abs2_dot Let_def)
qed

lemma subdivideTriangle_touches:
  assumes "sphere_corners A B C"
  shows "length (subdivideTriangle A B C n) = 4 ^ n \<and>
    (\<forall>p \<in> set (subdivideTriangle A B C n). touches_sphere 0 1 p)"
  using assms
proof (induction n arbitrary: A B C)
  case 0
  then show ?case using makeBezierTriangle_touches by simp
next
  case (Suc n)
  note s = subdivided_corners [OF Suc.prems]
  show ?case
    using Suc.IH [OF s(1)] Suc.IH [OF s(2)] Suc.IH [OF s(3)] Suc.IH [OF s(4)]
    by (auto simp: Let_def)
qed

lemma sphereOctant_touches:
  "length sphereOctant = 16" "p \<in> set sphereOctant \<Longrightarrow> touches_sphere 0 1 p"
proof -
  have "sphere_corners (V3 1 0 0) (V3 0 1 0) (V3 0 0 1)"
    by (simp add: sphere_corners_def det3_def cross_def dot_def)
  from subdivideTriangle_touches [OF this, of 2]
  show "length sphereOctant = 16" "p \<in> set sphereOctant \<Longrightarrow> touches_sphere 0 1 p"
    by (simp_all add: sphereOctant_def)
qed

text \<open>An affine map carries the points of a triangle to those of its image.\<close>

lemma tri_at_affine:
  assumes "\<And>v. f v = c + (v3x v *\<^sub>R e1 + v3y v *\<^sub>R e2 + v3z v *\<^sub>R e3)" and "length p = 10" and "l + r + u = 1"
  shows "tri_at (map f p) l r u = f (tri_at p l r u)"
proof -
  have "tri (\<lambda>i. a + (x i * b1 + y i * b2 + z i * b3)) l r u =
      a * (l + r + u) ^ 3 + (tri x l r u * b1 + tri y l r u * b2 + tri z l r u * b3)" for a b1 b2 b3 x y z
    by (simp add: tri_def power2_eq_square power3_eq_cube algebra_simps)
  moreover have "tri (\<lambda>i. k (map f p ! i)) l r u = tri (\<lambda>i. k c + (v3x (p ! i) * k e1 + v3y (p ! i) * k e2 + v3z (p ! i) * k e3)) l r u"
    if "k \<in> coords" for k
    using assms(2) that unfolding tri_def by (simp add: assms(1) coords_linear [OF that])
  ultimately show ?thesis
    unfolding tri_at_def by (intro vec3.expand) (simp add: assms(1,3) coords_def)
qed

lemma touches_affine:
  assumes f: "\<And>v. f v = c + (v3x v *\<^sub>R e1 + v3y v *\<^sub>R e2 + v3z v *\<^sub>R e3)"
    and e: "dot e1 e1 = \<rho>\<^sup>2" "dot e2 e2 = \<rho>\<^sup>2" "dot e3 e3 = \<rho>\<^sup>2" "dot e1 e2 = 0" "dot e1 e3 = 0" "dot e2 e3 = 0"
    and p: "touches_sphere 0 1 p"
  shows "touches_sphere c \<rho> (map f p)"
proof -
  have dist: "abs2 (f v - c) = \<rho>\<^sup>2 * abs2 v" for v
    using e by (simp add: f abs2_dot dot_linear dot_commute [of e2 e1] dot_commute [of e3 e1]
        dot_commute [of e3 e2]) (simp add: dot_def algebra_simps)
  have "abs2 (tri_at (map f p) l r u - c) = \<rho>\<^sup>2" if "(l, r, u) \<in> touching_points" for l r u
  proof -
    have "l + r + u = 1" using that by (auto simp: touching_points_def)
    with p have "tri_at (map f p) l r u = f (tri_at p l r u)" by (intro tri_at_affine [OF f]) (simp_all add: touches_sphere_def)
    moreover have "abs2 (tri_at p l r u) = 1" using p that by (auto simp: touches_sphere_def)
    ultimately show ?thesis by (simp add: dist)
  qed
  then show ?thesis using p by (auto simp: touches_sphere_def)
qed

lemma sin_cos_sum [simp]: "sin (x :: real) * sin x + cos x * cos x = 1" "cos x * cos x + sin x * sin x = 1"
  using sin_cos_squared_add [of x] by (simp_all add: power2_eq_square add.commute)

lemma sphere_map_touches:
  fixes center :: triple and dir :: "triple option"
  assumes "ix * ix = 1" and "iy * iy = 1" and "iz * iz = 1" and "touches_sphere 0 1 p"
  defines "t \<equiv> (if dir \<noteq> None then Align_T (Align_new center dir) else Align_T0 (Align_new center dir))"
  shows "touches_sphere center r (map (\<lambda>v. t (V3 (ix * r * v3x v) (iy * r * v3y v) (iz * r * v3z v))) p)"
proof -
  have sq: "ix * r * (ix * r) = r\<^sup>2" "iy * r * (iy * r) = r\<^sup>2" "iz * r * (iz * r) = r\<^sup>2"
    using assms(1-3) by (simp_all add: power2_eq_square mult.left_commute [of r] mult.assoc [symmetric])
  show ?thesis
proof (cases dir)
  case None
  let ?f = "\<lambda>v. t (V3 (ix * r * v3x v) (iy * r * v3y v) (iz * r * v3z v))"
  have "?f v = center + (v3x v *\<^sub>R V3 (ix * r) 0 0 + v3y v *\<^sub>R V3 0 (iy * r) 0 + v3z v *\<^sub>R V3 0 0 (iz * r))" for v
    by (rule vec3.expand) (simp add: t_def None Align_T0_def Align_new_def)
  then show ?thesis by (rule touches_affine [OF _ _ _ _ _ _ _ assms(4)]) (simp_all add: dot_def sq)
next
  case (Some d)
  let ?f = "\<lambda>v. t (V3 (ix * r * v3x v) (iy * r * v3y v) (iz * r * v3z v))"
  define ct st cp sp where "ct = cos (v3x d)" and "st = sin (v3x d)" and "cp = cos (v3y d)" and "sp = sin (v3y d)"
  have one: "ct * ct + st * st = 1" "cp * cp + sp * sp = 1" by (simp_all add: ct_def st_def cp_def sp_def)
  have f: "?f v = center + (v3x v *\<^sub>R ((ix * r) *\<^sub>R V3 (ct * cp) (ct * sp) (- st)) +
      v3y v *\<^sub>R ((iy * r) *\<^sub>R V3 (- sp) cp 0) + v3z v *\<^sub>R ((iz * r) *\<^sub>R V3 (st * cp) (st * sp) ct))" for v
    by (rule vec3.expand) (simp add: t_def Some Align_T_def Align_new_def Let_def ct_def st_def cp_def sp_def algebra_simps)
  have "dot (V3 (ct * cp) (ct * sp) (- st)) (V3 (ct * cp) (ct * sp) (- st)) = ct * ct * (cp * cp + sp * sp) + st * st"
    "dot (V3 (st * cp) (st * sp) ct) (V3 (st * cp) (st * sp) ct) = st * st * (cp * cp + sp * sp) + ct * ct"
    "dot (V3 (ct * cp) (ct * sp) (- st)) (V3 (st * cp) (st * sp) ct) = ct * st * (cp * cp + sp * sp) - ct * st"
    "dot (V3 (- sp) cp 0) (V3 (- sp) cp 0) = cp * cp + sp * sp"
    by (simp_all add: dot_def algebra_simps)
  then have dots: "dot (V3 (ct * cp) (ct * sp) (- st)) (V3 (ct * cp) (ct * sp) (- st)) = 1"
    "dot (V3 (st * cp) (st * sp) ct) (V3 (st * cp) (st * sp) ct) = 1"
    "dot (V3 (ct * cp) (ct * sp) (- st)) (V3 (st * cp) (st * sp) ct) = 0" "dot (V3 (- sp) cp 0) (V3 (- sp) cp 0) = 1"
    "dot (V3 (ct * cp) (ct * sp) (- st)) (V3 (- sp) cp 0) = 0" "dot (V3 (- sp) cp 0) (V3 (st * cp) (st * sp) ct) = 0"
    by (simp_all only: one mult_1_right) (simp_all add: dot_def one add.commute)
  show ?thesis
    by (rule touches_affine [OF f _ _ _ _ _ _ assms(4)])
      (simp_all only: dot_linear(5,6) dots mult_1_right mult_zero_right sq)
qed
qed

text \<open>C39: a sphere is drawn as 128 Bezier triangles, a hemisphere as 64, and each of them touches the
  sphere of the given centre and radius at its corners, at the middles of its edges and at its
  centroid.\<close>

theorem sphere_on_sphere:
  "length (sphere_patches center r dir) = (if dir = None then 128 else 64) \<and>
   (\<forall>p \<in> set (sphere_patches center r dir). touches_sphere center r p)"
proof -
  have "length (sphere_patches center r dir) = (if dir = None then 128 else 64)"
    by (simp add: sphere_patches_def sphereOctant_touches(1) Let_def)
  moreover have "touches_sphere center r p" if "p \<in> set (sphere_patches center r dir)" for p
  proof -
    from that obtain ix iy iz q where i: "ix \<in> set [- 1, 1]" "iy \<in> set [- 1, 1]"
      "iz \<in> set (if dir \<noteq> None then [1] else [- 1, 1])" and q: "q \<in> set sphereOctant"
      and p: "p = map (\<lambda>v. (if dir \<noteq> None then Align_T (Align_new center dir) else Align_T0 (Align_new center dir))
        (V3 (ix * r * v3x v) (iy * r * v3y v) (iz * r * v3z v))) q"
      by (auto simp only: sphere_patches_def Let_def set_concat set_map UN_iff image_iff)
    have "ix * ix = 1" "iy * iy = 1" "iz * iz = 1" using i by (auto split: if_splits)
    then show ?thesis unfolding p by (rule sphere_map_touches [OF _ _ _ sphereOctant_touches(2) [OF q]])
  qed
  ultimately show ?thesis by blast
qed

theorem sphere_on_sphere_witness:
  "length (sphere_patches (V3 1 2 3) 2 None) = 128 \<and>
   touches_sphere (V3 1 2 3) 2 (hd (sphere_patches (V3 1 2 3) 2 None))"
proof -
  note s = sphere_on_sphere [of "V3 1 2 3" 2 None]
  then have "length (sphere_patches (V3 1 2 3) 2 None) = 128" by simp
  moreover from this have "hd (sphere_patches (V3 1 2 3) 2 None) \<in> set (sphere_patches (V3 1 2 3) 2 None)"
    by (intro hd_in_set) (metis list.size(3) zero_neq_numeral)
  ultimately show ?thesis using s by blast
qed

section \<open>Frames along a curve\<close>

definition frame_ok :: "Rmf \<Rightarrow> bool" where
  "frame_ok R \<longleftrightarrow> dot (rm_r R) (rm_r R) = 1 \<and> dot (rm_t R) (rm_t R) = 1 \<and> dot (rm_t R) (rm_r R) = 0 \<and>
     rm_s R = cross (rm_t R) (rm_r R)"

lemma cross_orthogonal [simp]: "dot a (cross a b) = 0" "dot b (cross a b) = 0"
  "dot (cross a b) a = 0" "dot (cross a b) b = 0"
  by (simp_all add: dot_def cross_def algebra_simps)

lemma frame_ok_s:
  assumes "frame_ok R"
  shows "dot (rm_s R) (rm_s R) = 1" and "dot (rm_s R) (rm_r R) = 0" and "dot (rm_s R) (rm_t R) = 0"
  using assms by (simp_all add: frame_ok_def cross_dot)

lemma rmf_perp_unit:
  assumes "dot v v = 1"
  shows "dot (rmf_perp v) (rmf_perp v) = 1" and "dot v (rmf_perp v) = 0"
proof -
  have "\<exists>w. rmf_perp v = unit_triple (cross v w) 0 \<and> cross v w \<noteq> 0"
  proof (cases "abs2 (cross v (V3 0 1 0)) > DBL_EPSILON * abs2 v")
    case True
    moreover have "0 \<le> DBL_EPSILON * abs2 v" by (simp add: DBL_EPSILON_def abs2_dot)
    ultimately have "cross v (V3 0 1 0) \<noteq> 0" by (auto simp: abs2_dot)
    with True show ?thesis by (auto simp: rmf_perp_def Let_def)
  next
    case False
    then have "v3x v * v3x v + v3z v * v3z v \<le> 1 / 2" "v3x v * v3x v + v3y v * v3y v + v3z v * v3z v = 1"
      using assms by (simp_all add: abs2_def cross_def DBL_EPSILON_def dot_def)
    moreover have "0 \<le> v3z v * v3z v" "0 \<le> v3x v * v3x v" by simp_all
    ultimately have "1 / 2 \<le> v3y v * v3y v + v3x v * v3x v" by linarith
    then have "abs2 (cross v (V3 0 0 1)) > DBL_EPSILON * abs2 v"
      using assms by (simp add: abs2_dot DBL_EPSILON_def) (simp add: cross_def dot_def)
    moreover from this have "cross v (V3 0 0 1) \<noteq> 0" using assms by (auto simp: abs2_dot DBL_EPSILON_def)
    ultimately show ?thesis using False by (auto simp: rmf_perp_def Let_def)
  qed
  then obtain w where w: "rmf_perp v = unit_triple (cross v w) 0" "cross v w \<noteq> 0" by blast
  then show "dot (rmf_perp v) (rmf_perp v) = 1" by (simp add: unit_triple_unit)
  show "dot v (rmf_perp v) = 0" by (simp add: w unit_triple_eq dot_linear)
qed

text \<open>The two reflections of the loop keep products; the second one maps the reflected tangent to the
  new one.\<close>

definition reflect :: "triple \<Rightarrow> triple \<Rightarrow> triple" where
  "reflect u v = v - (2 * dot u v) *\<^sub>R u"

lemma dot_reflect:
  assumes "dot u u = 1 \<or> u = 0"
  shows "dot (reflect u a) (reflect u b) = dot a b"
  using assms by (auto simp: reflect_def dot_linear dot_commute [of a u] algebra_simps)

lemma unit_or_zero: "dot (unit_triple v 0) (unit_triple v 0) = 1 \<or> unit_triple v 0 = 0"
  using unit_triple_unit by (cases "v = 0") (simp_all add: unit_triple_eq)

lemma reflect_maps:
  assumes "dot a a = 1" and "dot b b = 1"
  shows "reflect (unit_triple (b - a) 0) a = b"
proof (cases "a = b")
  case True
  then show ?thesis by (simp add: reflect_def unit_triple_eq)
next
  case False
  define d where "d = b - a"
  have "d \<noteq> 0" using False by (simp add: d_def)
  then have pos: "0 < dot d d" by (simp add: less_le)
  have "dot d d = 2 - 2 * dot a b" "dot d a = dot a b - 1"
    using assms by (simp_all add: d_def dot_linear dot_commute [of b a])
  then have "2 * dot d a = - dot d d" by simp
  then have "(2 * dot (unit_triple d 0) a) *\<^sub>R unit_triple d 0 = - d"
    using pos by (simp add: unit_triple_eq dot_linear)
  then show ?thesis by (simp add: reflect_def d_def)
qed

lemma unit_triple_id: "dot v v = 1 \<Longrightarrow> unit_triple v 0 = v"
  by (simp add: unit_triple_eq)

lemma rmf_step_ok:
  assumes ok: "frame_ok R" and dir: "dot (rmf_dir z0 c0 c1 z1 s) (rmf_dir z0 c0 c1 z1 s) = 1"
    and moved: "rmf_point z0 c0 c1 z1 s \<noteq> rm_p R"
  shows "frame_ok (rmf_step z0 c0 c1 z1 R s)" and "rm_p (rmf_step z0 c0 c1 z1 R s) = rmf_point z0 c0 c1 z1 s"
    and "rm_t (rmf_step z0 c0 c1 z1 R s) = rmf_dir z0 c0 c1 z1 s"
proof -
  let ?p = "rmf_point z0 c0 c1 z1 s" and ?t = "rmf_dir z0 c0 c1 z1 s"
  define u1 where "u1 = unit_triple (?p - rm_p R) 0"
  define tp where "tp = reflect u1 (rm_t R)"
  define u2 where "u2 = unit_triple (?t - tp) 0"
  define r where "r = reflect u2 (reflect u1 (rm_r R))"
  have "v3x (?p - rm_p R) \<noteq> 0 \<or> v3y (?p - rm_p R) \<noteq> 0 \<or> v3z (?p - rm_p R) \<noteq> 0"
    using moved by (auto simp: vec3.expand)
  then have step: "rmf_step z0 c0 c1 z1 R s = Rmf_new ?p (unit_triple r 0) (unit_triple ?t 0)"
    unfolding rmf_step_def Let_def by (simp only: if_True u1_def tp_def u2_def r_def reflect_def)
  have u: "dot u1 u1 = 1 \<or> u1 = 0" "dot u2 u2 = 1 \<or> u2 = 0" by (simp_all only: u1_def u2_def unit_or_zero)
  have "dot tp tp = 1" using ok by (simp add: tp_def dot_reflect [OF u(1)] frame_ok_def)
  then have t: "reflect u2 tp = ?t" unfolding u2_def using dir by (rule reflect_maps)
  have r: "dot r r = 1" using ok by (simp add: r_def dot_reflect u frame_ok_def)
  have "dot ?t r = dot (rm_t R) (rm_r R)" by (simp add: t [symmetric] r_def tp_def dot_reflect u)
  then have "dot ?t r = 0" using ok by (simp add: frame_ok_def)
  with r dir step show "frame_ok (rmf_step z0 c0 c1 z1 R s)" "rm_p (rmf_step z0 c0 c1 z1 R s) = ?p"
    "rm_t (rmf_step z0 c0 c1 z1 R s) = ?t"
    by (simp_all add: frame_ok_def Rmf_new_def unit_triple_id)
qed

section \<open>Tubes around a curve\<close>

text \<open>A third of the derivative of the curve; a curve is regular if this is not negligible at the four
  parameters of the frames and the curve moves on from each of them to the next.\<close>

definition rmf_velocity :: "triple \<Rightarrow> triple \<Rightarrow> triple \<Rightarrow> triple \<Rightarrow> real \<Rightarrow> triple" where
  "rmf_velocity z0 c0 c1 z1 t =
     (t * t) *\<^sub>R (z1 - z0 + 3 *\<^sub>R (c0 - c1)) + t *\<^sub>R (2 *\<^sub>R (z0 + c1) - 4 *\<^sub>R c0) + (c0 - z0)"

definition regular_curve :: "triple \<Rightarrow> triple \<Rightarrow> triple \<Rightarrow> triple \<Rightarrow> bool" where
  "regular_curve z0 c0 c1 z1 \<longleftrightarrow>
     (\<forall>t \<in> {0, 1 / 3, 2 / 3, 1}. rmf_norm z0 c0 c1 z1 < abs2 (rmf_velocity z0 c0 c1 z1 t)) \<and>
     (\<forall>t \<in> {0, 1 / 3, 2 / 3}. rmf_point z0 c0 c1 z1 t \<noteq> rmf_point z0 c0 c1 z1 (t + 1 / 3))"

lemma cubic_derivative:
  "((\<lambda>t :: real. (1 - t) * (1 - t) * (1 - t) * z + (1 - t) * (1 - t) * (3 * t) * c + (1 - t) * (3 * t * t) * d + t * t * t * e)
     has_real_derivative 3 * (t * t * (e - z + 3 * (c - d)) + t * (2 * (z + d) - 4 * c) + (c - z))) (at t)"
proof -
  have eq: "(\<lambda>t. (1 - t) * (1 - t) * (1 - t) * z + (1 - t) * (1 - t) * (3 * t) * c + (1 - t) * (3 * t * t) * d + t * t * t * e) =
      (\<lambda>t. z + 3 * (c - z) * t + 3 * (z - 2 * c + d) * t ^ 2 + (e - z + 3 * c - 3 * d) * t ^ 3)"
    by (intro ext) (simp add: power2_eq_square power3_eq_cube algebra_simps)
  have "((\<lambda>t. z + 3 * (c - z) * t + 3 * (z - 2 * c + d) * t ^ 2 + (e - z + 3 * c - 3 * d) * t ^ 3)
      has_real_derivative 3 * (c - z) + 3 * (z - 2 * c + d) * (2 * t) + (e - z + 3 * c - 3 * d) * (3 * t ^ 2)) (at t)"
    by (auto intro!: derivative_eq_intros)
  moreover have "3 * (c - z) + 3 * (z - 2 * c + d) * (2 * t) + (e - z + 3 * c - 3 * d) * (3 * t ^ 2) =
      3 * (t * t * (e - z + 3 * (c - d)) + t * (2 * (z + d) - 4 * c) + (c - z))"
    by (simp add: power2_eq_square algebra_simps)
  ultimately show ?thesis by (simp only: eq)
qed

lemma velocity_has_derivative:
  "((\<lambda>t. v3x (rmf_point z0 c0 c1 z1 t)) has_real_derivative 3 * v3x (rmf_velocity z0 c0 c1 z1 t)) (at t)"
  "((\<lambda>t. v3y (rmf_point z0 c0 c1 z1 t)) has_real_derivative 3 * v3y (rmf_velocity z0 c0 c1 z1 t)) (at t)"
  "((\<lambda>t. v3z (rmf_point z0 c0 c1 z1 t)) has_real_derivative 3 * v3z (rmf_velocity z0 c0 c1 z1 t)) (at t)"
  unfolding rmf_point_def rmf_velocity_def Let_def vec3_sel vec3_scale_sel real_scaleR_def
  by (rule cubic_derivative)+

lemma rmf_point_curve: "rmf_point z0 c0 c1 z1 t = curve_at (z0, c0, c1, z1) t"
  by (rule vec3.expand) (simp add: rmf_point_def curve_at_def cubic_def seg_ctl_def Let_def
      numeral_2_eq_2 numeral_3_eq_3 algebra_simps)

lemma velocity_nonneg: "0 \<le> rmf_norm z0 c0 c1 z1"
  by (simp add: rmf_norm_def DBL_EPSILON_def abs2_dot le_max_iff_disj)

lemma rmf_dir_velocity:
  assumes "rmf_norm z0 c0 c1 z1 < abs2 (rmf_velocity z0 c0 c1 z1 t)"
  shows "rmf_dir z0 c0 c1 z1 t = unit_triple (rmf_velocity z0 c0 c1 z1 t) 0"
    and "dot (rmf_dir z0 c0 c1 z1 t) (rmf_dir z0 c0 c1 z1 t) = 1"
proof -
  have "rmf_velocity z0 c0 c1 z1 1 = z1 - c1"
    by (rule vec3.expand) (simp add: rmf_velocity_def)
  then show "rmf_dir z0 c0 c1 z1 t = unit_triple (rmf_velocity z0 c0 c1 z1 t) 0"
    using assms by (auto simp: rmf_dir_def Let_def rmf_velocity_def [symmetric])
  moreover have "rmf_velocity z0 c0 c1 z1 t \<noteq> 0" using assms velocity_nonneg [of z0 c0 c1 z1] by (auto simp: abs2_dot)
  ultimately show "dot (rmf_dir z0 c0 c1 z1 t) (rmf_dir z0 c0 c1 z1 t) = 1" by (simp add: unit_triple_unit)
qed

definition frame_at :: "triple \<Rightarrow> triple \<Rightarrow> triple \<Rightarrow> triple \<Rightarrow> real \<Rightarrow> Rmf \<Rightarrow> bool" where
  "frame_at z0 c0 c1 z1 t R \<longleftrightarrow> frame_ok R \<and> rm_p R = curve_at (z0, c0, c1, z1) t \<and>
     rm_t R = unit_triple (rmf_velocity z0 c0 c1 z1 t) 0"

lemma tube_frames_at:
  assumes reg: "regular_curve z0 c0 c1 z1"
  shows "\<exists>R0 R1 R2 R3. tube_frames z0 c0 c1 z1 = [R0, R1, R2, R3] \<and> frame_at z0 c0 c1 z1 0 R0 \<and>
    frame_at z0 c0 c1 z1 (1 / 3) R1 \<and> frame_at z0 c0 c1 z1 (2 / 3) R2 \<and> frame_at z0 c0 c1 z1 1 R3"
proof -
  let ?v = "rmf_velocity z0 c0 c1 z1" and ?p = "rmf_point z0 c0 c1 z1" and ?n = "rmf_norm z0 c0 c1 z1"
  define T where "T = rmf_start z0 c0 c1 z1"
  define R0 where "R0 = Rmf_new z0 (rmf_perp T) T"
  have v: "?n < abs2 (?v 0)" "?n < abs2 (?v (1 / 3))" "?n < abs2 (?v (2 / 3))" "?n < abs2 (?v 1)"
    using reg by (simp_all add: regular_curve_def)
  have p: "?p (1 / 3) \<noteq> ?p 0" "?p (2 / 3) \<noteq> ?p (1 / 3)" "?p 1 \<noteq> ?p (2 / 3)"
    using reg by (auto simp: regular_curve_def)
  have v0: "?v 0 = c0 - z0" by (rule vec3.expand) (simp add: rmf_velocity_def)
  have "?v 0 \<noteq> 0" using v(1) velocity_nonneg [of z0 c0 c1 z1] by (auto simp: abs2_dot)
  moreover have T: "T = unit_triple (?v 0) 0" using v(1) by (simp add: T_def rmf_start_def Let_def v0)
  ultimately have "dot T T = 1" by (simp add: unit_triple_unit)
  then have R0: "frame_ok R0" "rm_p R0 = ?p 0" "rm_t R0 = unit_triple (?v 0) 0"
    using rmf_perp_unit [of T] by (auto simp: frame_ok_def R0_def Rmf_new_def T rmf_point_def Let_def)
  define R1 where "R1 = rmf_step z0 c0 c1 z1 R0 (1 / 3)"
  define R2 where "R2 = rmf_step z0 c0 c1 z1 R1 (2 / 3)"
  define R3 where "R3 = rmf_step z0 c0 c1 z1 R2 1"
  note R1 = rmf_step_ok [OF R0(1) rmf_dir_velocity(2) [OF v(2)] p(1) [folded R0(2)], folded R1_def]
  note R2 = rmf_step_ok [OF R1(1) rmf_dir_velocity(2) [OF v(3)] p(2) [folded R1(2)], folded R2_def]
  note R3 = rmf_step_ok [OF R2(1) rmf_dir_velocity(2) [OF v(4)] p(3) [folded R2(2)], folded R3_def]
  have "tube_frames z0 c0 c1 z1 = [R0, R1, R2, R3]"
    by (simp add: tube_frames_def rmf_def T_def R0_def R1_def R2_def R3_def Let_def)
  with R0 R1 R2 R3 v show ?thesis
    by (auto simp: frame_at_def rmf_point_curve rmf_dir_velocity(1))
qed

definition ring_ok :: "triple \<Rightarrow> real \<Rightarrow> Rmf \<Rightarrow> triple list \<Rightarrow> bool" where
  "ring_ok v w R row \<longleftrightarrow> length row = 4 \<and>
     (\<forall>q \<in> {row ! 0, row ! 3}. abs2 (q - v) = w\<^sup>2 \<and> dot (q - v) (rm_t R) = 0)"

lemma tube_row_ring:
  assumes "frame_ok R" and "a * a + b * b = 1" and "c * c + d * d = 1"
  shows "ring_ok v w R (tube_row a b c d w R v)"
proof -
  have R: "dot (rm_r R) (rm_r R) = 1" "dot (rm_r R) (rm_t R) = 0" using assms(1) by (simp_all add: frame_ok_def dot_commute [of "rm_r R" "rm_t R"])
  note s = frame_ok_s [OF assms(1)]
  have T: "dot (x *\<^sub>R rm_r R + y *\<^sub>R rm_s R) (x *\<^sub>R rm_r R + y *\<^sub>R rm_s R) = x * x + y * y"
    "dot (x *\<^sub>R rm_r R + y *\<^sub>R rm_s R) (rm_t R) = 0" for x y
    using s R by (simp_all add: dot_linear dot_commute [of "rm_r R" "rm_s R"])
  have row: "tube_row a b c d w R v ! 0 - v = w *\<^sub>R (a *\<^sub>R rm_r R + b *\<^sub>R rm_s R)"
    "tube_row a b c d w R v ! 3 - v = w *\<^sub>R (c *\<^sub>R rm_r R + d *\<^sub>R rm_s R)"
    by (simp_all add: tube_row_def tube_arc_def Let_def)
  show ?thesis
    using assms(2,3) unfolding ring_ok_def ball_simps row abs2_dot dot_linear(5,6) T
    by (simp add: tube_row_def tube_arc_def Let_def power2_eq_square)
qed



end
