(* ===== verification/Mesh.thy ===== *)
theory Mesh
  imports V3dModel Primitives
begin

text \<open>
  How the objects of a document are queued for rendering: the methods \<open>QueueMesh\<close> of the classes in
  \<^verbatim>\<open>v3d-Common/V3dFile/V3dObjects.cpp\<close> and of \<open>V3dFile\<close> in \<^verbatim>\<open>V3dFile.cpp\<close>. An object is a value of the
  type that the loader produces, over real numbers; the data members that \<open>QueueMesh\<close> changes (the
  tessellator with its cached buffer, the flags, the cached vertices) are a separate record, of which
  each class uses its own part. The matrices, the image size and \<open>glm::normalize\<close> are fields of the
  record \<open>mesh_args\<close>. \<^term>\<open>None\<close> is a run that does not return, that reads out of range or whose
  resolution is not a real number (a division by zero).

  What the model is proved to do is in \<^verbatim>\<open>MeshFrames.thy\<close>.
\<close>

section \<open>State\<close>

record mesh_args =
  a_pv :: "nat \<Rightarrow> real"
  a_BBT :: "nat \<Rightarrow> real"
  a_normalize :: "triple \<Rightarrow> triple"
  a_width :: int
  a_height :: int
  a_min :: triple
  a_max :: triple
  a_ortho :: bool
  a_mode :: DrawMode
  a_alphas :: "real list"
  a_pixelsPerBp :: real

type_synonym mesh_object = "(real, uint32, real) v3d_object"

text \<open>The members of class \<open>V3dObject\<close> and the private members \<open>S\<close>, \<open>C\<close>, \<open>quadOnscreen\<close> (or
  \<open>triOnscreen\<close>) and \<open>S_color\<close> of its subclasses; the triangle list \<open>S\<close> of the straight
  objects is \<open>mo_list\<close>.\<close>

record members =
  mo_fullyOnscreen :: bool
  mo_isTransparent :: bool
  mo_Min :: triple
  mo_Max :: triple
  mo_vertexData :: VertexBuffer
  mo_lineData :: VertexBuffer
  mo_S :: BezierPatch
  mo_C :: BezierCurve
  mo_list :: VertexBuffer
  mo_onscreen :: bool
  mo_S_color :: bool

definition members_new :: "triple \<times> triple \<Rightarrow> members" where
  "members_new B = \<lparr>mo_fullyOnscreen = False, mo_isTransparent = False, mo_Min = fst B, mo_Max = snd B,
     mo_vertexData = VertexBuffer_new, mo_lineData = VertexBuffer_new, mo_S = BezierPatch_new,
     mo_C = BezierCurve_new, mo_list = VertexBuffer_new, mo_onscreen = True, mo_S_color = False\<rparr>"

section \<open>What the methods share\<close>

definition scene_scale :: "mesh_args \<Rightarrow> real option" where
  "scene_scale a =
     (let Zmax = v3z (a_max a)
      in if a_ortho a then Some 1 else if Zmax = 0 then None else Some (v3z (a_min a) * (1 / Zmax)))"

definition mesh_ratio :: "mesh_args \<Rightarrow> real \<Rightarrow> real option" where
  "mesh_ratio a s =
     (let size2 = hypot (real_of_int (a_width a)) (real_of_int (a_height a));
          x = s * (v3x (a_max a) - v3x (a_min a)); y = s * (v3y (a_max a) - v3y (a_min a))
      in if size2 = 0 then None else Some (sqrt (x * x + y * y) / size2))"

definition scene_ratio :: "mesh_args \<Rightarrow> real option" where
  "scene_ratio a = Option.bind (scene_scale a) (mesh_ratio a)"

definition set_material :: "uint32 \<Rightarrow> render_globals \<Rightarrow> render_globals" where
  "set_material mi g = g\<lparr>materialIndex := int (unat mi)\<rparr>"

definition material_transparent :: "mesh_args \<Rightarrow> uint32 \<Rightarrow> bool" where
  "material_transparent a mi \<longleftrightarrow>
     a_mode a = DRAWMODE_NORMAL \<and> unat mi < length (a_alphas a) \<and> a_alphas a ! unat mi < 1"

definition box_offscreen :: "mesh_args \<Rightarrow> triple \<Rightarrow> triple \<Rightarrow> bool" where
  "box_offscreen a mn mx \<longleftrightarrow> bbox2_offscreen (bbox2_box (a_pv a) mn mx)"

fun queue_curves :: "(nat \<Rightarrow> real) \<Rightarrow> segment list \<Rightarrow> bool \<Rightarrow> real \<Rightarrow> BezierCurve \<times> render_globals \<Rightarrow>
    (BezierCurve \<times> render_globals) option" where
  "queue_curves pv [] straight ratio st = Some st"
| "queue_curves pv (e # es) straight ratio st =
     Option.bind (BezierCurve_queue pv e straight ratio st) (queue_curves pv es straight ratio)"

fun queue_each :: "('a \<Rightarrow> render_globals \<Rightarrow> render_globals option) \<Rightarrow> 'a list \<Rightarrow> render_globals \<Rightarrow> render_globals option" where
  "queue_each q [] g = Some g"
| "queue_each q (x # xs) g = Option.bind (q x g) (queue_each q xs)"

section \<open>Bezier patches and triangles\<close>

definition patch_edges :: "triple list \<Rightarrow> segment list" where
  "patch_edges p = [(p ! 0, p ! 4, p ! 8, p ! 12), (p ! 12, p ! 13, p ! 14, p ! 15),
     (p ! 15, p ! 11, p ! 7, p ! 3), (p ! 3, p ! 2, p ! 1, p ! 0)]"

definition triangle_edges :: "triple list \<Rightarrow> segment list" where
  "triangle_edges p = [(p ! 0, p ! 1, p ! 3, p ! 6), (p ! 6, p ! 7, p ! 8, p ! 9), (p ! 9, p ! 5, p ! 2, p ! 0)]"

text \<open>The branch for an object that is off the screen.\<close>

definition cull_bezier :: "bool \<Rightarrow> members \<times> render_globals \<Rightarrow> members \<times> render_globals" where
  "cull_bezier Tr st = (case st of (x, g) \<Rightarrow>
     case patch_notRendered ((mo_S x)\<lparr>bp_Onscreen := False, bp_data := VertexBuffer_clear (bp_data (mo_S x)),
            transparent := Tr, color := False\<rparr>, g) of (S, g1) \<Rightarrow>
       (x\<lparr>mo_S := S, mo_fullyOnscreen := False, mo_vertexData := VertexBuffer_clear (mo_vertexData x)\<rparr>, g1))"

text \<open>\<open>QueueMesh\<close> of \<open>V3dBezierPatch\<close> and \<open>V3dBezierTriangle\<close>; \<open>tess\<close> is the function \<open>queue\<close> of
  the tessellator and \<open>edges\<close> are the boundary curves that the outline mode draws.\<close>

definition bezier_QueueMesh ::
  "(triple list \<Rightarrow> bool \<Rightarrow> real \<Rightarrow> bool \<Rightarrow> real vec4 list option \<Rightarrow> BezierPatch \<times> render_globals \<Rightarrow>
     (BezierPatch \<times> render_globals) option) \<Rightarrow> (triple list \<Rightarrow> segment list) \<Rightarrow>
   mesh_args \<Rightarrow> triple list \<Rightarrow> uint32 \<Rightarrow> bool \<Rightarrow> members \<times> render_globals \<Rightarrow> (members \<times> render_globals) option" where
  "bezier_QueueMesh tess edges a cps mi rm st = (case st of (x, g) \<Rightarrow>
     let g = set_material mi g; Tr = material_transparent a mi
     in if box_offscreen a (mo_Min x) (mo_Max x)
        then (case cull_bezier Tr (x, g) of (x1, g1) \<Rightarrow>
                Some (x1\<lparr>mo_lineData := VertexBuffer_clear (mo_lineData x1)\<rparr>, g1))
        else if a_mode a = DRAWMODE_OUTLINE
        then Option.bind (scene_ratio a) (\<lambda>ratio.
               map_option (\<lambda>(C, g1). (x\<lparr>mo_C := C\<rparr>, g1)) (queue_curves (a_pv a) (edges cps) False ratio (mo_C x, g)))
        else if \<not> rm \<and> bp_Onscreen (mo_S x)
        then (case patch_append (mo_S x, g) of (S, g1) \<Rightarrow> Some (x\<lparr>mo_S := S\<rparr>, g1))
        else Option.bind (scene_ratio a) (\<lambda>ratio.
               map_option (\<lambda>(S, g1). (x\<lparr>mo_S := S, mo_fullyOnscreen := bp_Onscreen S,
                   mo_isTransparent := (if a_mode a = DRAWMODE_NORMAL then transparent S else mo_isTransparent x)\<rparr>, g1))
                 (tess cps False ratio Tr None (mo_S x, g))))"

definition V3dBezierPatch_QueueMesh where
  "V3dBezierPatch_QueueMesh a = bezier_QueueMesh (BezierPatch_queue (a_pv a)) patch_edges a"

definition V3dBezierTriangle_QueueMesh where
  "V3dBezierTriangle_QueueMesh a = bezier_QueueMesh (BezierTriangle_queue (a_pv a)) triangle_edges a"

text \<open>An object that is built for one call, with \<open>remesh\<close> set.\<close>

definition queue_new_patch :: "mesh_args \<Rightarrow> uint32 \<Rightarrow> triple list \<Rightarrow> render_globals \<Rightarrow> render_globals option" where
  "queue_new_patch a mi cps g =
     map_option snd (V3dBezierPatch_QueueMesh a cps mi True (members_new (computeBezierPatchBounds cps), g))"

definition queue_new_triangle :: "mesh_args \<Rightarrow> uint32 \<Rightarrow> triple list \<Rightarrow> render_globals \<Rightarrow> render_globals option" where
  "queue_new_triangle a mi cps g =
     map_option snd (V3dBezierTriangle_QueueMesh a cps mi True (members_new (computeBezierTriangleBounds cps), g))"

text \<open>\<open>QueueMesh\<close> of the two classes with corner colours; \<open>outline\<close> queues the object without colours
  that replaces it in the outline mode.\<close>

definition alpha_sum :: "real vec4 list \<Rightarrow> real" where "alpha_sum cs = sum_list (map v4a cs)"

definition colored_QueueMesh ::
  "(triple list \<Rightarrow> bool \<Rightarrow> real \<Rightarrow> bool \<Rightarrow> real vec4 list option \<Rightarrow> BezierPatch \<times> render_globals \<Rightarrow>
     (BezierPatch \<times> render_globals) option) \<Rightarrow>
   (mesh_args \<Rightarrow> uint32 \<Rightarrow> triple list \<Rightarrow> render_globals \<Rightarrow> render_globals option) \<Rightarrow>
   mesh_args \<Rightarrow> triple list \<Rightarrow> uint32 \<Rightarrow> real vec4 list \<Rightarrow> bool \<Rightarrow> members \<times> render_globals \<Rightarrow>
   (members \<times> render_globals) option" where
  "colored_QueueMesh tess outline a cps mi cs rm st = (case st of (x, g) \<Rightarrow>
     let g = set_material mi g
     in if a_mode a = DRAWMODE_OUTLINE then map_option (\<lambda>g1. (x, g1)) (outline a mi cps g)
        else let Tr = (a_mode a = DRAWMODE_NORMAL \<and> alpha_sum cs < real (length cs))
        in if box_offscreen a (mo_Min x) (mo_Max x) then Some (cull_bezier Tr (x, g))
        else if \<not> rm \<and> bp_Onscreen (mo_S x)
        then (case patch_append (mo_S x, g) of (S, g1) \<Rightarrow> Some (x\<lparr>mo_S := S\<rparr>, g1))
        else Option.bind (scene_ratio a) (\<lambda>ratio.
               map_option (\<lambda>(S, g1). (x\<lparr>mo_S := S, mo_fullyOnscreen := bp_Onscreen S\<rparr>, g1))
                 (tess cps False ratio Tr (Some cs) (mo_S x, g))))"

definition V3dBezierPatchWithCornerColors_QueueMesh where
  "V3dBezierPatchWithCornerColors_QueueMesh a = colored_QueueMesh (BezierPatch_queue (a_pv a)) queue_new_patch a"

definition V3dBezierTriangleWithCornerColors_QueueMesh where
  "V3dBezierTriangleWithCornerColors_QueueMesh a = colored_QueueMesh (BezierTriangle_queue (a_pv a)) queue_new_triangle a"

section \<open>Straight quadrilaterals and triangles\<close>

definition straight_normal :: "mesh_args \<Rightarrow> triple list \<Rightarrow> triple" where
  "straight_normal a vs = a_normalize a (cross (vs ! 1 - vs ! 0) (vs ! 2 - vs ! 0))"

definition straight_box :: "triple list \<Rightarrow> triple \<times> triple" where
  "straight_box vs =
     (let v0 = hd vs; f = (\<lambda>m c. fold (\<lambda>v e. m e (c v)) (tl vs) (c v0))
      in (V3 (f min v3x) (f min v3y) (f min v3z), V3 (f max v3x) (f max v3y) (f max v3z)))"

text \<open>The boundary of the outline mode: a segment from each vertex to the next one, in a circle.\<close>

definition straight_edges :: "triple list \<Rightarrow> segment list" where
  "straight_edges vs = map (\<lambda>(p, q). (p, p, q, q)) (zip vs (tl vs @ [hd vs]))"

definition straight_outline :: "mesh_args \<Rightarrow> triple list \<Rightarrow> members \<times> render_globals \<Rightarrow>
    (members \<times> render_globals) option" where
  "straight_outline a vs st = (case st of (x, g) \<Rightarrow>
     Option.bind (mesh_ratio a 1) (\<lambda>ratio.
       map_option (\<lambda>(C, g1). (x\<lparr>mo_C := C\<rparr>, g1)) (queue_curves (a_pv a) (straight_edges vs) True ratio (mo_C x, g))))"

text \<open>The triangles of the object, and those that are not off the screen.\<close>

definition straight_faces :: "triple list \<Rightarrow> (nat \<times> nat \<times> nat) list" where
  "straight_faces vs = (if length vs = 4 then [(0, 1, 2), (0, 2, 3)] else [(0, 1, 2)])"

definition face_offscreen :: "mesh_args \<Rightarrow> triple list \<Rightarrow> nat \<times> nat \<times> nat \<Rightarrow> bool" where
  "face_offscreen a vs f = (case f of (i, j, k) \<Rightarrow> bbox2_offscreen (bbox2_points (a_pv a) [vs ! i, vs ! j, vs ! k]))"

definition straight_indices :: "mesh_args \<Rightarrow> triple list \<Rightarrow> uint32 list" where
  "straight_indices a vs = concat (map (\<lambda>f. if face_offscreen a vs f then []
     else case f of (i, j, k) \<Rightarrow> [of_nat i, of_nat j, of_nat k]) (straight_faces vs))"

definition straight_onscreen :: "mesh_args \<Rightarrow> triple list \<Rightarrow> bool" where
  "straight_onscreen a vs \<longleftrightarrow> (\<forall>f \<in> set (straight_faces vs). \<not> face_offscreen a vs f)"

text \<open>\<open>renderCount = 0\<close> of the buffer that an object goes to.\<close>

definition reset_transparent :: "render_globals \<Rightarrow> render_globals" where
  "reset_transparent g = g\<lparr>transparentData := (transparentData g)\<lparr>renderCount := 0\<rparr>\<rparr>"

definition reset_material :: "render_globals \<Rightarrow> render_globals" where
  "reset_material g = g\<lparr>materialData := (materialData g)\<lparr>renderCount := 0\<rparr>\<rparr>"

definition reset_color :: "render_globals \<Rightarrow> render_globals" where
  "reset_color g = g\<lparr>colorData := (colorData g)\<lparr>renderCount := 0\<rparr>\<rparr>"

definition extend_transparent :: "VertexBuffer \<Rightarrow> render_globals \<Rightarrow> render_globals" where
  "extend_transparent d g = g\<lparr>transparentData := extendColor d (transparentData g)\<rparr>"

definition extend_material :: "VertexBuffer \<Rightarrow> render_globals \<Rightarrow> render_globals" where
  "extend_material d g = g\<lparr>materialData := extendMaterial d (materialData g)\<rparr>"

definition extend_color :: "VertexBuffer \<Rightarrow> render_globals \<Rightarrow> render_globals" where
  "extend_color d g = g\<lparr>colorData := extendColor d (colorData g)\<rparr>"

definition color_list :: "VertexBuffer \<Rightarrow> triple \<Rightarrow> int \<Rightarrow> (triple \<times> real vec4) list \<Rightarrow> uint32 list \<Rightarrow> VertexBuffer" where
  "color_list d n mi vcs is = (VertexBuffer_clear d)\<lparr>indices := is,
     colorVertices := map (\<lambda>(v, c). \<lparr>cv_position = v, cv_normal = n, cv_material = mi, cv_color = c\<rparr>) vcs\<rparr>"

definition material_list :: "VertexBuffer \<Rightarrow> triple \<Rightarrow> int \<Rightarrow> triple list \<Rightarrow> uint32 list \<Rightarrow> VertexBuffer" where
  "material_list d n mi vs is = (VertexBuffer_clear d)\<lparr>indices := is,
     materialVertices := map (\<lambda>v. \<lparr>mv_position = v, mv_normal = n, mv_material = mi\<rparr>) vs\<rparr>"

text \<open>\<open>QueueMesh\<close> of \<open>V3dStraightPlanarQuad\<close> and \<open>V3dStraightTriangle\<close>; \<open>ci\<close> is the centre index.\<close>

definition straight_QueueMesh :: "mesh_args \<Rightarrow> triple list \<Rightarrow> uint32 \<Rightarrow> uint32 \<Rightarrow> bool \<Rightarrow>
    members \<times> render_globals \<Rightarrow> (members \<times> render_globals) option" where
  "straight_QueueMesh a vs ci mi rm st = (case st of (x, g) \<Rightarrow>
     let g = set_material mi g; n = straight_normal a vs; Tr = material_transparent a mi;
         reset = (if Tr then reset_transparent else reset_material)
     in if case straight_box vs of (mn, mx) \<Rightarrow> box_offscreen a mn mx
        then Some (x\<lparr>mo_onscreen := False, mo_list := VertexBuffer_clear (mo_list x)\<rparr>, reset g)
        else if a_mode a = DRAWMODE_OUTLINE then straight_outline a vs (x, g)
        else if \<not> rm \<and> mo_onscreen x \<and> ci = 0
        then Some (x, (if mo_S_color x then extend_transparent else extend_material) (mo_list x) g)
        else let on = straight_onscreen a vs; is = straight_indices a vs;
                 d = (if Tr then color_list (mo_list x) n (sint (1 + mi)) (map (\<lambda>v. (v, V4 0 0 0 0)) vs) is
                      else material_list (mo_list x) n (sint mi) vs is)
        in Some (x\<lparr>mo_list := d, mo_onscreen := on, mo_fullyOnscreen := on, mo_S_color := Tr,
                   mo_isTransparent := (if a_mode a = DRAWMODE_NORMAL then Tr else mo_isTransparent x)\<rparr>,
                 (if Tr then extend_transparent else extend_material) d (reset g)))"

text \<open>\<open>QueueMesh\<close> of the two classes with corner colours.\<close>

definition colored_straight_QueueMesh :: "mesh_args \<Rightarrow> triple list \<Rightarrow> uint32 \<Rightarrow> uint32 \<Rightarrow> real vec4 list \<Rightarrow> bool \<Rightarrow>
    members \<times> render_globals \<Rightarrow> (members \<times> render_globals) option" where
  "colored_straight_QueueMesh a vs ci mi cs rm st = (case st of (x, g) \<Rightarrow>
     let g = set_material mi g; n = straight_normal a vs
     in if case straight_box vs of (mn, mx) \<Rightarrow> box_offscreen a mn mx
        then Some (x\<lparr>mo_onscreen := False, mo_list := VertexBuffer_clear (mo_list x)\<rparr>,
                   (if mo_S_color x then reset_transparent else reset_color) g)
        else if a_mode a = DRAWMODE_OUTLINE then straight_outline a vs (x, g)
        else let Tr = (a_mode a = DRAWMODE_NORMAL \<and> alpha_sum cs < real (length cs));
                 extend = (if Tr then extend_transparent else extend_color)
        in if \<not> rm \<and> mo_onscreen x \<and> ci = 0 then Some (x, extend (mo_list x) g)
        else let on = straight_onscreen a vs;
                 d = color_list (mo_list x) n (- 1 - sint mi) (zip vs cs) (straight_indices a vs)
        in Some (x\<lparr>mo_list := d, mo_onscreen := on, mo_fullyOnscreen := on, mo_S_color := True,
                   mo_isTransparent := (if a_mode a = DRAWMODE_NORMAL then Tr else mo_isTransparent x)\<rparr>,
                 extend d ((if Tr then reset_transparent else reset_color) g)))"

section \<open>Triangle groups\<close>

text \<open>The value of a \<open>float\<close>; an infinity and a NaN have none.\<close>

definition f32_real :: "float32 \<Rightarrow> real option" where "f32_real w = f64_real (f32_to_f64 w)"

fun rgba_real :: "float32 vec4 \<Rightarrow> real vec4 option" where
  "rgba_real (V4 r g b a) = Option.bind (f32_real r) (\<lambda>x. Option.bind (f32_real g) (\<lambda>y.
     Option.bind (f32_real b) (\<lambda>z. Option.bind (f32_real a) (\<lambda>w. Some (V4 x y z w)))))"

definition group_vertex :: "triple list \<Rightarrow> real vec4 list \<Rightarrow> int \<Rightarrow> nat \<times> triple \<Rightarrow> ColorVertex" where
  "group_vertex N C mi ip = (case ip of (i, p) \<Rightarrow>
     \<lparr>cv_position = p, cv_normal = (if i < length N then N ! i else V3 0 0 1), cv_material = mi,
      cv_color = (if i < length C then C ! i else V4 0 0 0 0)\<rparr>)"

definition group_triangle_clear :: "real vec4 list \<Rightarrow> uint32 vec3 \<Rightarrow> bool" where
  "group_triangle_clear C ci \<longleftrightarrow>
     unat (v3x ci) < length C \<and> unat (v3y ci) < length C \<and> unat (v3z ci) < length C \<and>
     v4a (C ! unat (v3x ci)) + v4a (C ! unat (v3y ci)) + v4a (C ! unat (v3z ci)) < 3"

definition group_indices :: "uint32 \<Rightarrow> uint32 vec3 list \<Rightarrow> uint32 list" where
  "group_indices nP ps = concat (map (\<lambda>p. if v3x p \<ge> nP \<or> v3y p \<ge> nP \<or> v3z p \<ge> nP then []
     else [v3x p, v3y p, v3z p]) ps)"

definition group_QueueMesh :: "mesh_args \<Rightarrow> (real, uint32, real) tri_group \<Rightarrow> bool \<Rightarrow>
    members \<times> render_globals \<Rightarrow> (members \<times> render_globals) option" where
  "group_QueueMesh a tg rm st = (case st of (x, g) \<Rightarrow>
     let mi = tg_materialIndex tg; g = set_material mi g
     in if tg_nI tg = 0 \<or> tg_nP tg = 0 \<or> a_mode a = DRAWMODE_OUTLINE then Some (x, g)
        else if box_offscreen a (a_min a) (a_max a)
        then Some (x\<lparr>mo_fullyOnscreen := False, mo_vertexData := VertexBuffer_clear (mo_vertexData x)\<rparr>,
                   reset_color (reset_transparent g))
        else let Tr = material_transparent a mi
        in if \<not> rm \<and> mo_fullyOnscreen x \<and> tg_centerIndex tg = 0
        then Some (x, (if Tr then extend_transparent else extend_color) (mo_vertexData x) g)
        else Option.bind (those (map rgba_real (tg_colors tg))) (\<lambda>C.
          let g = (if Tr then reset_transparent else reset_color) g;
              m = (if tg_nC tg > 0 then - 1 - sint mi else 1 + sint mi);
              Tr = (Tr \<or> tg_nC tg > 0 \<and> (\<exists>ci \<in> set (tg_CI tg). group_triangle_clear C ci));
              d = VertexBuffer_new\<lparr>
                    colorVertices := map (group_vertex (tg_normals tg) (if tg_nC tg > 0 then C else []) m)
                      (zip [0..<length (tg_positions tg)] (tg_positions tg)),
                    indices := group_indices (tg_nP tg) (tg_PI tg)\<rparr>
          in Some (x\<lparr>mo_vertexData := d, mo_fullyOnscreen := True,
                     mo_isTransparent := (if a_mode a = DRAWMODE_NORMAL then Tr else mo_isTransparent x)\<rparr>,
                   (if Tr then extend_transparent else extend_color) d g)))"

section \<open>Curves, segments and pixels\<close>

definition cull_curve :: "members \<times> render_globals \<Rightarrow> members \<times> render_globals" where
  "cull_curve st = (case st of (x, g) \<Rightarrow>
     (x\<lparr>mo_fullyOnscreen := False, mo_vertexData := VertexBuffer_clear (mo_vertexData x)\<rparr>,
      reset_material (reset_transparent g)))"

definition queue_curve :: "mesh_args \<Rightarrow> segment \<Rightarrow> bool \<Rightarrow> members \<times> render_globals \<Rightarrow>
    (members \<times> render_globals) option" where
  "queue_curve a seg straight st = (case st of (x, g) \<Rightarrow>
     Option.bind (scene_ratio a) (\<lambda>ratio.
       map_option (\<lambda>(S, g1). (x\<lparr>mo_fullyOnscreen := Onscreen S, mo_vertexData := bc_data S\<rparr>, g1))
         (BezierCurve_queue (a_pv a) seg straight ratio (BezierCurve_new, g))))"

definition curve_QueueMesh :: "mesh_args \<Rightarrow> triple list \<Rightarrow> uint32 \<Rightarrow> uint32 \<Rightarrow> bool \<Rightarrow>
    members \<times> render_globals \<Rightarrow> (members \<times> render_globals) option" where
  "curve_QueueMesh a p ci mi rm st = (case st of (x, g) \<Rightarrow>
     let g = set_material mi g
     in if box_offscreen a (mo_Min x) (mo_Max x) then Some (cull_curve (x, g))
        else if \<not> rm \<and> mo_fullyOnscreen x \<and> ci = 0 then Some (x, extend_material (mo_vertexData x) g)
        else queue_curve a (p ! 0, p ! 1, p ! 2, p ! 3) False (x, g))"

text \<open>The end points and two dummies.\<close>

definition line_QueueMesh :: "mesh_args \<Rightarrow> triple list \<Rightarrow> uint32 \<Rightarrow> members \<times> render_globals \<Rightarrow>
    (members \<times> render_globals) option" where
  "line_QueueMesh a p mi st = (case st of (x, g) \<Rightarrow>
     let g = set_material mi g
     in if box_offscreen a (mo_Min x) (mo_Max x) then Some (cull_curve (x, g))
        else queue_curve a (p ! 0, 0, 0, p ! 1) True (x, g))"

definition pixel_QueueMesh :: "mesh_args \<Rightarrow> triple \<Rightarrow> real \<Rightarrow> uint32 \<Rightarrow> members \<times> render_globals \<Rightarrow>
    (members \<times> render_globals) option" where
  "pixel_QueueMesh a p w mi st = (case st of (x, g) \<Rightarrow>
     let g = set_material mi g; h = 1 / 2 * w / a_pixelsPerBp a; H = V3 h h h;
         g = g\<lparr>pointData := (pointData g)\<lparr>renderCount := 0\<rparr>\<rparr>
     in if a_pixelsPerBp a = 0 then None
        else if box_offscreen a (p - H) (p + H)
        then Some (x\<lparr>mo_fullyOnscreen := False, mo_vertexData := VertexBuffer_clear (mo_vertexData x)\<rparr>, g)
        else case addPointVertex \<lparr>pv_position = p, pv_width = w, pv_material = sint mi\<rparr> VertexBuffer_new of
          (i, d) \<Rightarrow> Some (x\<lparr>mo_fullyOnscreen := True\<rparr>,
            g\<lparr>pointData := extendPoint (d\<lparr>indices := indices d @ [i]\<rparr>) (pointData g)\<rparr>))"

section \<open>Spheres, disks, cylinders and tubes\<close>

definition queue_new_line :: "mesh_args \<Rightarrow> uint32 \<Rightarrow> triple list \<Rightarrow> render_globals \<Rightarrow> render_globals option" where
  "queue_new_line a mi p g = map_option snd (line_QueueMesh a p mi (members_new (straight_box p), g))"

definition queue_new_curve :: "mesh_args \<Rightarrow> uint32 \<Rightarrow> triple list \<Rightarrow> render_globals \<Rightarrow> render_globals option" where
  "queue_new_curve a mi p g =
     map_option snd (curve_QueueMesh a p 0 mi True (members_new (computeBezierCurveBounds p), g))"

definition sphere_QueueMesh :: "mesh_args \<Rightarrow> triple \<Rightarrow> real \<Rightarrow> triple option \<Rightarrow> uint32 \<Rightarrow> render_globals \<Rightarrow> render_globals option" where
  "sphere_QueueMesh a center r dir mi g =
     queue_each (queue_new_triangle a mi) (sphere_patches center r dir) (set_material mi g)"

definition disk_QueueMesh :: "mesh_args \<Rightarrow> triple \<Rightarrow> real \<Rightarrow> triple \<Rightarrow> uint32 \<Rightarrow> render_globals \<Rightarrow> render_globals option" where
  "disk_QueueMesh a center r dir mi g =
     queue_each (queue_new_patch a mi) [disk_patch center r (Some dir)] (set_material mi g)"

definition cylinder_QueueMesh :: "mesh_args \<Rightarrow> triple \<Rightarrow> real \<Rightarrow> real \<Rightarrow> triple \<Rightarrow> bool \<Rightarrow> uint32 \<Rightarrow>
    render_globals \<Rightarrow> render_globals option" where
  "cylinder_QueueMesh a center r h dir core mi g =
     Option.bind (queue_each (queue_new_patch a mi) (cylinder_patches center r h (Some dir)) (set_material mi g))
       (queue_each (queue_new_line a mi) (if core then [cylinder_core center h (Some dir)] else []))"

definition tube_QueueMesh :: "mesh_args \<Rightarrow> triple list \<Rightarrow> real \<Rightarrow> bool \<Rightarrow> uint32 \<Rightarrow> render_globals \<Rightarrow> render_globals option" where
  "tube_QueueMesh a v w core mi g =
     Option.bind (queue_each (queue_new_patch a mi) (tube_patches v w) (set_material mi g))
       (queue_each (queue_new_curve a mi) (if core then [v] else []))"

section \<open>Objects\<close>

text \<open>The members after construction: the bounds are computed from the control points.\<close>

fun object_members :: "mesh_object \<Rightarrow> members" where
  "object_members (V3dBezierPatch p _ _) = members_new (computeBezierPatchBounds p)"
| "object_members (V3dBezierTriangle p _ _) = members_new (computeBezierTriangleBounds p)"
| "object_members (V3dBezierPatchWithCornerColors p _ _ _) = members_new (computeBezierPatchBounds p)"
| "object_members (V3dBezierTriangleWithCornerColors p _ _ _) = members_new (computeBezierTriangleBounds p)"
| "object_members (V3dBezierCurve p _ _) = members_new (computeBezierCurveBounds p)"
| "object_members (V3dLineSegment p _ _) = members_new (straight_box p)"
| "object_members _ = members_new (0, 0)"

text \<open>\<open>V3dObject::centerIndex\<close>, which a pixel does not set.\<close>

fun object_centerIndex :: "mesh_object \<Rightarrow> uint32" where
  "object_centerIndex (V3dBezierPatch _ ci _) = ci"
| "object_centerIndex (V3dBezierTriangle _ ci _) = ci"
| "object_centerIndex (V3dBezierPatchWithCornerColors _ ci _ _) = ci"
| "object_centerIndex (V3dBezierTriangleWithCornerColors _ ci _ _) = ci"
| "object_centerIndex (V3dStraightPlanarQuad _ ci _) = ci"
| "object_centerIndex (V3dStraightTriangle _ ci _) = ci"
| "object_centerIndex (V3dStraightPlanarQuadWithCornerColors _ ci _ _) = ci"
| "object_centerIndex (V3dStraightTriangleWithCornerColors _ ci _ _) = ci"
| "object_centerIndex (V3dTriangleGroup tg) = tg_centerIndex tg"
| "object_centerIndex (V3dSphere _ _ ci _) = ci"
| "object_centerIndex (V3dHemiSphere _ _ ci _ _ _) = ci"
| "object_centerIndex (V3dDisk _ _ ci _ _ _) = ci"
| "object_centerIndex (V3dCylinder _ _ _ ci _ _ _ _) = ci"
| "object_centerIndex (V3dTube _ _ ci _ _) = ci"
| "object_centerIndex (V3dBezierCurve _ ci _) = ci"
| "object_centerIndex (V3dLineSegment _ ci _) = ci"
| "object_centerIndex (V3dPixel _ _ _) = 0"

definition keep_members :: "(render_globals \<Rightarrow> render_globals option) \<Rightarrow> members \<times> render_globals \<Rightarrow>
    (members \<times> render_globals) option" where
  "keep_members q st = (case st of (x, g) \<Rightarrow> map_option (Pair x) (q g))"

fun QueueMesh :: "mesh_args \<Rightarrow> mesh_object \<Rightarrow> bool \<Rightarrow> members \<times> render_globals \<Rightarrow> (members \<times> render_globals) option" where
  "QueueMesh a (V3dBezierPatch p _ mi) rm = V3dBezierPatch_QueueMesh a p mi rm"
| "QueueMesh a (V3dBezierTriangle p _ mi) rm = V3dBezierTriangle_QueueMesh a p mi rm"
| "QueueMesh a (V3dBezierPatchWithCornerColors p _ mi cs) rm = V3dBezierPatchWithCornerColors_QueueMesh a p mi cs rm"
| "QueueMesh a (V3dBezierTriangleWithCornerColors p _ mi cs) rm = V3dBezierTriangleWithCornerColors_QueueMesh a p mi cs rm"
| "QueueMesh a (V3dStraightPlanarQuad p ci mi) rm = straight_QueueMesh a p ci mi rm"
| "QueueMesh a (V3dStraightTriangle p ci mi) rm = straight_QueueMesh a p ci mi rm"
| "QueueMesh a (V3dStraightPlanarQuadWithCornerColors p ci mi cs) rm = colored_straight_QueueMesh a p ci mi cs rm"
| "QueueMesh a (V3dStraightTriangleWithCornerColors p ci mi cs) rm = colored_straight_QueueMesh a p ci mi cs rm"
| "QueueMesh a (V3dTriangleGroup tg) rm = group_QueueMesh a tg rm"
| "QueueMesh a (V3dSphere c r _ mi) rm = keep_members (sphere_QueueMesh a c r None mi)"
| "QueueMesh a (V3dHemiSphere c r _ mi \<theta> \<phi>) rm = keep_members (sphere_QueueMesh a c r (Some (V3 \<theta> \<phi> 0)) mi)"
| "QueueMesh a (V3dDisk c r _ mi \<theta> \<phi>) rm = keep_members (disk_QueueMesh a c r (V3 \<theta> \<phi> 0) mi)"
| "QueueMesh a (V3dCylinder c r h _ mi \<theta> \<phi> core) rm = keep_members (cylinder_QueueMesh a c r h (V3 \<theta> \<phi> 0) (core \<noteq> 0) mi)"
| "QueueMesh a (V3dTube p w _ mi core) rm = keep_members (tube_QueueMesh a p w (core \<noteq> 0) mi)"
| "QueueMesh a (V3dBezierCurve p ci mi) rm = curve_QueueMesh a p ci mi rm"
| "QueueMesh a (V3dLineSegment p _ mi) rm = line_QueueMesh a p mi"
| "QueueMesh a (V3dPixel p w mi) rm = pixel_QueueMesh a p w mi"

section \<open>Files\<close>

record mesh_file =
  mf_objects :: "(mesh_object \<times> members) list"
  mf_centers :: "triple list"
  mf_alphas :: "real list"
  mf_canvasWidth :: uint32

text \<open>The billboard transformation of the vertices that an object has added.\<close>

definition billboard_material :: "mesh_args \<Rightarrow> triple \<Rightarrow> nat \<Rightarrow> VertexBuffer \<Rightarrow> VertexBuffer" where
  "billboard_material a c k d = d\<lparr>materialVertices := take k (materialVertices d) @
     map (\<lambda>v. v\<lparr>mv_position := billboardTransform (a_BBT a) c (mv_position v)\<rparr>) (drop k (materialVertices d))\<rparr>"

definition billboard_color :: "mesh_args \<Rightarrow> triple \<Rightarrow> nat \<Rightarrow> VertexBuffer \<Rightarrow> VertexBuffer" where
  "billboard_color a c k d = d\<lparr>colorVertices := take k (colorVertices d) @
     map (\<lambda>v. v\<lparr>cv_position := billboardTransform (a_BBT a) c (cv_position v)\<rparr>) (drop k (colorVertices d))\<rparr>"

definition billboard :: "mesh_args \<Rightarrow> triple list \<Rightarrow> uint32 \<Rightarrow> render_globals \<Rightarrow> render_globals \<Rightarrow> render_globals" where
  "billboard a cs ci g0 g =
     (if ci > 0 \<and> unat ci \<le> length cs
      then let c = cs ! (unat ci - 1)
           in g\<lparr>materialData := billboard_material a c (length (materialVertices (materialData g0))) (materialData g),
                colorData := billboard_color a c (length (colorVertices (colorData g0))) (colorData g),
                lineData := billboard_material a c (length (materialVertices (lineData g0))) (lineData g)\<rparr>
      else g)"

definition queue_object :: "mesh_args \<Rightarrow> triple list \<Rightarrow> bool \<Rightarrow> mesh_object \<times> members \<Rightarrow> render_globals \<Rightarrow>
    ((mesh_object \<times> members) \<times> render_globals) option" where
  "queue_object a cs rm ox g = (case ox of (ob, x) \<Rightarrow>
     map_option (\<lambda>(x1, g1). ((ob, x1), billboard a cs (object_centerIndex ob) g g1)) (QueueMesh a ob rm (x, g)))"

fun queue_objects :: "mesh_args \<Rightarrow> triple list \<Rightarrow> bool \<Rightarrow> (mesh_object \<times> members) list \<Rightarrow> render_globals \<Rightarrow>
    ((mesh_object \<times> members) list \<times> render_globals) option" where
  "queue_objects a cs rm [] g = Some ([], g)"
| "queue_objects a cs rm (ox # oxs) g =
     Option.bind (queue_object a cs rm ox g) (\<lambda>(ox1, g1).
       map_option (\<lambda>(oxs1, g2). (ox1 # oxs1, g2)) (queue_objects a cs rm oxs g1))"

definition file_args :: "mesh_file \<Rightarrow> mesh_args \<Rightarrow> mesh_args" where
  "file_args f a = a\<lparr>a_alphas := mf_alphas f,
     a_pixelsPerBp := (if mf_canvasWidth f > 0 then real_of_int (a_width a) / real (unat (mf_canvasWidth f)) else 1)\<rparr>"

definition V3dFile_QueueMesh :: "mesh_args \<Rightarrow> bool \<Rightarrow> mesh_file \<times> render_globals \<Rightarrow> (mesh_file \<times> render_globals) option" where
  "V3dFile_QueueMesh a rm st = (case st of (f, g) \<Rightarrow>
     map_option (\<lambda>(oxs, g1). (f\<lparr>mf_objects := oxs\<rparr>, g1))
       (queue_objects (file_args f a) (mf_centers f) rm (mf_objects f) g))"

section \<open>From the loaded file\<close>

text \<open>The members of a loaded file as real numbers; \<^term>\<open>None\<close> if one is indeterminate, infinite or NaN.\<close>

definition real_points :: "REAL vec3 list \<Rightarrow> triple list option" where
  "real_points p = those (map real3 p)"

fun real_rgba :: "FLOAT vec4 \<Rightarrow> real vec4 option" where
  "real_rgba (V4 r g b a) = do { r \<leftarrow> r; g \<leftarrow> g; b \<leftarrow> b; a \<leftarrow> a; rgba_real (V4 r g b a) }"

fun mesh_group :: "(REAL, UINT, FLOAT) tri_group \<Rightarrow> (real, uint32, real) tri_group option" where
  "mesh_group (TriGroup nI nP P nN N eN nC C eC ps ns cs ci mi) = do {
     P \<leftarrow> real_points P; nN \<leftarrow> nN; N \<leftarrow> real_points N; eN \<leftarrow> eN; nC \<leftarrow> nC; _ \<leftarrow> those (map rgba_real C);
     eC \<leftarrow> (if nC > 0 then eC else Some 0); ci \<leftarrow> ci; mi \<leftarrow> mi;
     Some (TriGroup nI nP P nN N eN nC C eC ps ns cs ci mi) }"

fun mesh_object_of :: "parsed_object \<Rightarrow> mesh_object option" where
  "mesh_object_of (V3dBezierPatch p ci mi) = do {
     p \<leftarrow> real_points p; ci \<leftarrow> ci; mi \<leftarrow> mi; Some (V3dBezierPatch p ci mi) }"
| "mesh_object_of (V3dBezierTriangle p ci mi) = do {
     p \<leftarrow> real_points p; ci \<leftarrow> ci; mi \<leftarrow> mi; Some (V3dBezierTriangle p ci mi) }"
| "mesh_object_of (V3dBezierPatchWithCornerColors p ci mi cs) = do {
     p \<leftarrow> real_points p; ci \<leftarrow> ci; mi \<leftarrow> mi; cs \<leftarrow> those (map real_rgba cs);
     Some (V3dBezierPatchWithCornerColors p ci mi cs) }"
| "mesh_object_of (V3dBezierTriangleWithCornerColors p ci mi cs) = do {
     p \<leftarrow> real_points p; ci \<leftarrow> ci; mi \<leftarrow> mi; cs \<leftarrow> those (map real_rgba cs);
     Some (V3dBezierTriangleWithCornerColors p ci mi cs) }"
| "mesh_object_of (V3dStraightPlanarQuad p ci mi) = do {
     p \<leftarrow> real_points p; ci \<leftarrow> ci; mi \<leftarrow> mi; Some (V3dStraightPlanarQuad p ci mi) }"
| "mesh_object_of (V3dStraightTriangle p ci mi) = do {
     p \<leftarrow> real_points p; ci \<leftarrow> ci; mi \<leftarrow> mi; Some (V3dStraightTriangle p ci mi) }"
| "mesh_object_of (V3dStraightPlanarQuadWithCornerColors p ci mi cs) = do {
     p \<leftarrow> real_points p; ci \<leftarrow> ci; mi \<leftarrow> mi; cs \<leftarrow> those (map real_rgba cs);
     Some (V3dStraightPlanarQuadWithCornerColors p ci mi cs) }"
| "mesh_object_of (V3dStraightTriangleWithCornerColors p ci mi cs) = do {
     p \<leftarrow> real_points p; ci \<leftarrow> ci; mi \<leftarrow> mi; cs \<leftarrow> those (map real_rgba cs);
     Some (V3dStraightTriangleWithCornerColors p ci mi cs) }"
| "mesh_object_of (V3dTriangleGroup tg) = map_option V3dTriangleGroup (mesh_group tg)"
| "mesh_object_of (V3dSphere c r ci mi) = do {
     c \<leftarrow> real3 c; r \<leftarrow> real_of_cell r; ci \<leftarrow> ci; mi \<leftarrow> mi; Some (V3dSphere c r ci mi) }"
| "mesh_object_of (V3dHemiSphere c r ci mi \<theta> \<phi>) = do {
     c \<leftarrow> real3 c; r \<leftarrow> real_of_cell r; ci \<leftarrow> ci; mi \<leftarrow> mi; \<theta> \<leftarrow> real_of_cell \<theta>; \<phi> \<leftarrow> real_of_cell \<phi>;
     Some (V3dHemiSphere c r ci mi \<theta> \<phi>) }"
| "mesh_object_of (V3dDisk c r ci mi \<theta> \<phi>) = do {
     c \<leftarrow> real3 c; r \<leftarrow> real_of_cell r; ci \<leftarrow> ci; mi \<leftarrow> mi; \<theta> \<leftarrow> real_of_cell \<theta>; \<phi> \<leftarrow> real_of_cell \<phi>;
     Some (V3dDisk c r ci mi \<theta> \<phi>) }"
| "mesh_object_of (V3dCylinder c r h ci mi \<theta> \<phi> core) = do {
     c \<leftarrow> real3 c; r \<leftarrow> real_of_cell r; h \<leftarrow> real_of_cell h; ci \<leftarrow> ci; mi \<leftarrow> mi;
     \<theta> \<leftarrow> real_of_cell \<theta>; \<phi> \<leftarrow> real_of_cell \<phi>; core \<leftarrow> core;
     Some (V3dCylinder c r h ci mi \<theta> \<phi> core) }"
| "mesh_object_of (V3dTube p w ci mi core) = do {
     p \<leftarrow> real_points p; w \<leftarrow> real_of_cell w; ci \<leftarrow> ci; mi \<leftarrow> mi; core \<leftarrow> core;
     Some (V3dTube p w ci mi core) }"
| "mesh_object_of (V3dBezierCurve p ci mi) = do {
     p \<leftarrow> real_points p; ci \<leftarrow> ci; mi \<leftarrow> mi; Some (V3dBezierCurve p ci mi) }"
| "mesh_object_of (V3dLineSegment p ci mi) = do {
     p \<leftarrow> real_points p; ci \<leftarrow> ci; mi \<leftarrow> mi; Some (V3dLineSegment p ci mi) }"
| "mesh_object_of (V3dPixel p w mi) = do {
     p \<leftarrow> real3 p; w \<leftarrow> real_of_cell w; mi \<leftarrow> mi; Some (V3dPixel p w mi) }"

definition mesh_file_of :: "V3dFile_data \<Rightarrow> mesh_file option" where
  "mesh_file_of f = do {
     obs \<leftarrow> those (map mesh_object_of (objects f));
     cs \<leftarrow> real_points (centers f);
     ds \<leftarrow> those (map (real_rgba \<circ> diffuse) (materials f));
     Some \<lparr>mf_objects = map (\<lambda>ob. (ob, object_members ob)) obs, mf_centers = cs,
       mf_alphas = map v4a ds, mf_canvasWidth = canvasWidth (headerInfo f)\<rparr> }"

end
