(* ===== verification/MeshFrames.thy ===== *)
theory MeshFrames
  imports Mesh
begin

text \<open>
  What queueing the objects of a file does, proved over the model of \<^verbatim>\<open>Mesh.thy\<close>. Buffers are
  compared by what they hold: \<open>grown\<close> says that a buffer has kept its vertices and indices and has
  stayed sound. The locale \<open>tessellator\<close> is the contract between the tessellators of patches and of
  triangles and the classes that own one. Every class keeps an invariant of its members
  (\<open>members_ok\<close>), so that frames can follow each other in any order and in any draw mode. The last
  section ties this to the loader.
\<close>

section \<open>Buffers that only grow\<close>

text \<open>A buffer is sound if its indices refer to vertices, as long as there are no more vertices than
  indices can count. Queueing keeps what a buffer holds, and keeps it sound.\<close>

context vertex_kind
begin

definition sound :: "VertexBuffer \<Rightarrow> bool" where
  "sound d \<longleftrightarrow> (length (verts d) \<le> 2 ^ 32 \<longrightarrow> valid d)"

definition grown :: "VertexBuffer \<Rightarrow> VertexBuffer \<Rightarrow> bool" where
  "grown d d' \<longleftrightarrow> (\<exists>vs is. verts d' = verts d @ vs \<and> indices d' = indices d @ is) \<and> (sound d \<longrightarrow> sound d')"

lemma grown_refl [intro]: "grown d d"
  by (auto simp: grown_def)

lemma grown_same: "verts d' = verts d \<Longrightarrow> indices d' = indices d \<Longrightarrow> grown d d'"
  by (auto simp: grown_def sound_def valid_def)

lemma grown_trans: "grown d d1 \<Longrightarrow> grown d1 d2 \<Longrightarrow> grown d d2"
  by (auto simp: grown_def)

lemma sound_extend:
  assumes "sound d" and "sound other"
  shows "sound (extend other d)"
proof -
  have "valid (extend other d)" if "length (verts (extend other d)) \<le> 2 ^ 32"
  proof -
    have le: "length (verts d) + length (verts other) \<le> 2 ^ 32" using that by (simp add: extend_verts)
    then have "valid d" "valid other" using assms by (simp_all add: sound_def)
    then show ?thesis using extend_shape le by blast
  qed
  then show ?thesis by (simp add: sound_def)
qed

lemma grown_extend: "sound other \<Longrightarrow> grown d (extend other d)"
  using sound_extend by (auto simp: grown_def extend_verts extend_indices)

lemma grown_shape:
  assumes "grown d d'" and "valid d"
  shows "\<exists>vs. shape d' = shape d @ vs"
proof -
  obtain vs "is" where "verts d' = verts d @ vs" "indices d' = indices d @ is"
    using assms(1) by (auto simp: grown_def)
  with assms(2) show ?thesis by (auto simp: shape_def valid_def nth_append)
qed

end

definition globals_grown :: "render_globals \<Rightarrow> render_globals \<Rightarrow> bool" where
  "globals_grown g g' \<longleftrightarrow> material.grown (materialData g) (materialData g') \<and>
     color.grown (colorData g) (colorData g') \<and> color.grown (triangleData g) (triangleData g') \<and>
     color.grown (transparentData g) (transparentData g') \<and> point.grown (pointData g) (pointData g') \<and>
     material.grown (lineData g) (lineData g')"

definition globals_sound :: "render_globals \<Rightarrow> bool" where
  "globals_sound g \<longleftrightarrow> material.sound (materialData g) \<and> color.sound (colorData g) \<and>
     color.sound (triangleData g) \<and> color.sound (transparentData g) \<and> point.sound (pointData g) \<and>
     material.sound (lineData g)"

lemma globals_grown_refl [intro, simp]: "globals_grown g g"
  by (auto simp: globals_grown_def)

lemma globals_grown_trans [trans]: "globals_grown g g1 \<Longrightarrow> globals_grown g1 g2 \<Longrightarrow> globals_grown g g2"
  unfolding globals_grown_def using material.grown_trans color.grown_trans point.grown_trans by blast

lemma globals_grown_sound: "globals_grown g g' \<Longrightarrow> globals_sound g \<Longrightarrow> globals_sound g'"
  by (auto simp: globals_grown_def globals_sound_def material.grown_def color.grown_def point.grown_def)

section \<open>Queueing curves\<close>

definition line_added :: "VertexBuffer \<Rightarrow> VertexBuffer \<Rightarrow> bool" where
  "line_added d d' \<longleftrightarrow> (\<exists>ms is. d' = d\<lparr>materialVertices := materialVertices d @ ms, indices := indices d @ is\<rparr> \<and>
     (\<forall>i \<in> set is. index_ok False d' i))"

lemma line_added_index: "index_ok False d i \<Longrightarrow> line_added d d' \<Longrightarrow> index_ok False d' i"
proof -
  assume "index_ok False d i" and "line_added d d'"
  moreover from this have "nverts False d \<le> nverts False d'" by (auto simp: line_added_def nverts_def)
  ultimately show "index_ok False d' i" unfolding index_ok_def using order_less_le_trans by blast
qed

lemma line_added_refl: "line_added d d"
  unfolding line_added_def by (intro exI [of _ "[]"]) simp

lemma line_added_trans:
  assumes "line_added d d1" and d2: "line_added d1 d2"
  shows "line_added d d2"
proof -
  obtain ms "is" where 1: "d1 = d\<lparr>materialVertices := materialVertices d @ ms, indices := indices d @ is\<rparr>"
    "\<forall>i \<in> set is. index_ok False d1 i" using assms(1) by (auto simp: line_added_def)
  obtain ms' is' where 2: "d2 = d1\<lparr>materialVertices := materialVertices d1 @ ms', indices := indices d1 @ is'\<rparr>"
    "\<forall>i \<in> set is'. index_ok False d2 i" using d2 by (auto simp: line_added_def)
  have "\<forall>i \<in> set is. index_ok False d2 i" using 1(2) line_added_index [OF _ d2] by blast
  with 1 2 show ?thesis
    unfolding line_added_def by (intro exI [of _ "ms @ ms'"] exI [of _ "is @ is'"]) auto
qed

lemma curve_add_line:
  assumes "curve_add p n mi b = (i, b')"
  shows "line_added (bc_data b) (bc_data b')" and "index_ok False (bc_data b') i"
proof -
  have b': "bc_data b' = (bc_data b)\<lparr>materialVertices := materialVertices (bc_data b) @
      [\<lparr>mv_position = p, mv_normal = n, mv_material = mi\<rparr>]\<rparr>" "i = of_nat (length (materialVertices (bc_data b)))"
    using assms by (auto simp: curve_add_def addMaterialVertex_def)
  then show "line_added (bc_data b) (bc_data b')"
    unfolding line_added_def by (intro exI [of _ "[_]"] exI [of _ "[]"]) simp
  show "index_ok False (bc_data b') i" using b' by (auto simp: index_ok_def nverts_def)
qed

lemma push_segment_line:
  assumes "index_ok False (bc_data b) i" and "index_ok False (bc_data b) j"
  shows "line_added (bc_data b) (bc_data (push_segment i j b))"
  unfolding line_added_def push_segment_def
  using assms by (intro exI [of _ "[]"] exI [of _ "[i, j]"]) (simp add: index_ok_def nverts_def)

lemma curve_offscreen_data: "curve_offscreen pv v b = (off, b') \<Longrightarrow> bc_data b' = bc_data b"
  by (auto simp: curve_offscreen_def split: if_splits)

lemma render_indexed_line:
  assumes "render_indexed pv mi p I0 I1 b = Some b'" and "index_ok False (bc_data b) I0"
    and "index_ok False (bc_data b) I1"
  shows "line_added (bc_data b) (bc_data b')"
  using assms
proof (induction rule: render_indexed.raw_induct [rotated, consumes 1])
  case (1 rec pv mi p I0 I1 b b')
  obtain p0 p1 p2 p3 where p: "p = (p0, p1, p2, p3)" by (cases p)
  show ?case
  proof (cases "Straightness p0 p1 p2 p3 < bc_res2 b")
    case True
    obtain off b1 where off: "curve_offscreen pv [p0, p3] b = (off, b1)" by fastforce
    with 1(2) True have "b' = (if off then b1 else push_segment I0 I1 b1)" by (simp add: p)
    then show ?thesis
      using 1(3,4) curve_offscreen_data [OF off] push_segment_line [of b1 I0 I1] line_added_refl by auto
  next
    case False
    obtain off b1 where off: "curve_offscreen pv [p0, p1, p2, p3] b = (off, b1)" by fastforce
    define s where "s = Split_new p0 p1 p2 p3"
    obtain i0 b2 where add: "curve_add (s_m5 s) (curve_normal (bezierPh p0 p1 p2 p3) (bezierPPh p0 p1 p2 p3)) mi b1 = (i0, b2)"
      by fastforce
    have run: "(if off then Some b1 else Option.bind (rec pv mi (p0, s_m0 s, s_m3 s, s_m5 s) I0 i0 b2)
        (rec pv mi (s_m5 s, s_m4 s, s_m2 s, p3) i0 I1)) = Some b'"
      using 1(2) False by (cases off) (simp_all add: p off add [unfolded s_def] s_def Let_def)
    note d1 = curve_offscreen_data [OF off]
    show ?thesis
    proof (cases off)
      case True
      then show ?thesis using run d1 line_added_refl by auto
    next
      case False
      with run obtain b3 where r: "rec pv mi (p0, s_m0 s, s_m3 s, s_m5 s) I0 i0 b2 = Some b3"
        "rec pv mi (s_m5 s, s_m4 s, s_m2 s, p3) i0 I1 b3 = Some b'" by (auto simp: bind_eq_Some_conv)
      note a = curve_add_line [OF add, unfolded d1]
      have i: "index_ok False (bc_data b2) I0" "index_ok False (bc_data b2) I1"
        using 1(3,4) line_added_index [OF _ a(1)] by blast+
      have b3: "line_added (bc_data b2) (bc_data b3)" using 1(1) [OF r(1) i(1) a(2)] .
      have "line_added (bc_data b3) (bc_data b')"
        using 1(1) [OF r(2)] line_added_index [OF a(2) b3] line_added_index [OF i(2) b3] by blast
      then show ?thesis using a(1) b3 line_added_trans by blast
    qed
  qed
qed

lemma line_added_sound:
  assumes "line_added (VertexBuffer_clear d0) d"
  shows "material.sound d"
proof -
  obtain ms "is" where d: "d = (VertexBuffer_clear d0)\<lparr>materialVertices := ms, indices := is\<rparr>"
    "\<forall>i \<in> set is. index_ok False d i"
    using assms by (auto simp: line_added_def VertexBuffer_clear_def)
  have "unat i < length ms" if "i \<in> set is" "length ms \<le> 2 ^ 32" for i
  proof -
    have "index_ok False d i" using d(2) that(1) by blast
    then obtain n where n: "n < length ms" "i = of_nat n" unfolding index_ok_def by (auto simp: nverts_def d(1))
    with that(2) have "n < 2 ^ 32" by linarith
    with n show ?thesis by (simp only: unat_index)
  qed
  then show ?thesis by (simp add: material.sound_def material.valid_def d(1))
qed

lemma curve_queue_grown:
  assumes "ratio \<noteq> 0"
  shows "\<exists>b' g'. BezierCurve_queue pv p straight ratio (b, g) = Some (b', g') \<and>
    material.sound (bc_data b') \<and> globals_grown g g' \<and> materialVertices (bc_data b') \<noteq> [] \<and>
    g' = (curve_notRendered g)\<lparr>MaterialIndex := materialIndex g,
      lineData := extendMaterial (bc_data b') ((lineData g)\<lparr>renderCount := 0\<rparr>)\<rparr>"
proof -
  obtain b' g' where q: "BezierCurve_queue pv p straight ratio (b, g) = Some (b', g')"
    using queue_result [OF assms] by blast
  obtain p0 p1 p2 p3 where p: "p = (p0, p1, p2, p3)" by (cases p)
  define b0 where "b0 = b\<lparr>bc_data := VertexBuffer_clear (bc_data b), Onscreen := True,
    bc_res := pixelResolution * ratio, bc_res2 := pixelResolution * ratio * (pixelResolution * ratio)\<rparr>"
  define g1 where "g1 = (curve_notRendered g)\<lparr>MaterialIndex := materialIndex g\<rparr>"
  have init: "BezierCurve_queue pv p straight ratio (b, g) = BezierCurve_render pv p straight (b0, g1)"
    by (simp add: BezierCurve_queue_def BezierCurve_init_def b0_def g1_def curve_notRendered_def)
  define n0 n1 where "n0 = (if straight then V3 0 0 1 else curve_normal (p1 - p0) (p0 + p2 - 2 *\<^sub>R p1))"
    and "n1 = (if straight then V3 0 0 1 else curve_normal (p3 - p2) (p3 + p1 - 2 *\<^sub>R p2))"
  obtain i0 b1 where a0: "curve_add p0 n0 (MaterialIndex g1) b0 = (i0, b1)" by fastforce
  obtain i3 b2 where a3: "curve_add p3 n1 (MaterialIndex g1) b1 = (i3, b2)" by fastforce
  note l0 = curve_add_line [OF a0] and l3 = curve_add_line [OF a3]
  have i0: "index_ok False (bc_data b2) i0" using line_added_index [OF l0(2) l3(1)] .
  have q': "BezierCurve_render pv p straight (b0, g1) = Some (b', g')" using q init by simp
  have "(if straight then Some (curve_append (push_segment i0 i3 b2, g1))
      else map_option (\<lambda>b3. curve_append (b3, g1)) (render_indexed pv (MaterialIndex g1) p i0 i3 b2)) = Some (b', g')"
    using q' unfolding BezierCurve_render_def p prod.case Let_def n0_def [symmetric] n1_def [symmetric] a0 a3 prod.case .
  then obtain b3 where b3: "line_added (bc_data b2) (bc_data b3)" "curve_append (b3, g1) = (b', g')"
    using push_segment_line [OF i0 l3(2)] render_indexed_line [of pv "MaterialIndex g1" p i0 i3 b2, OF _ i0 l3(2)]
    by (cases straight) auto
  have "line_added (bc_data b0) (bc_data b3)" using l0(1) l3(1) b3(1) line_added_trans by blast
  then have s: "material.sound (bc_data b3)" using line_added_sound [of "bc_data b"] by (simp add: b0_def)
  have "material.grown (lineData g) (extendMaterial (bc_data b3) ((lineData g)\<lparr>renderCount := 0\<rparr>))"
    by (rule material.grown_trans [OF material.grown_same material.grown_extend [OF s]]) simp_all
  then have "globals_grown g g'"
    using b3(2) by (auto simp: globals_grown_def curve_append_def g1_def curve_notRendered_def)
  moreover have "materialVertices (bc_data b3) \<noteq> []"
    using b3(1) a3 by (auto simp: line_added_def curve_add_def addMaterialVertex_def)
  ultimately show ?thesis
    using q s b3(2) by (auto simp: curve_append_def g1_def curve_notRendered_def)
qed

lemma queue_curves_grown:
  assumes "ratio \<noteq> 0"
  shows "\<exists>b' g'. queue_curves pv es straight ratio (b, g) = Some (b', g') \<and> globals_grown g g'"
proof (induction es arbitrary: b g)
  case Nil
  then show ?case by simp
next
  case (Cons e es)
  obtain b1 g1 where 1: "BezierCurve_queue pv e straight ratio (b, g) = Some (b1, g1)" "globals_grown g g1"
    using curve_queue_grown [OF assms] by blast
  obtain b' g' where "queue_curves pv es straight ratio (b1, g1) = Some (b', g')" "globals_grown g1 g'"
    using Cons.IH by blast
  with 1 show ?case using globals_grown_trans by auto
qed

lemma queue_each_grown:
  assumes "\<And>x g. x \<in> set xs \<Longrightarrow> \<exists>g'. q x g = Some g' \<and> globals_grown g g'"
  shows "\<exists>g'. queue_each q xs g = Some g' \<and> globals_grown g g'"
  using assms
proof (induction xs arbitrary: g)
  case Nil
  then show ?case by simp
next
  case (Cons x xs)
  obtain g1 where 1: "q x g = Some g1" "globals_grown g g1" using Cons.prems by force
  obtain g' where "queue_each q xs g1 = Some g'" "globals_grown g1 g'" using Cons.IH [of g1] Cons.prems by force
  with 1 show ?case using globals_grown_trans by auto
qed

section \<open>The tessellators\<close>

text \<open>A tessellator keeps its triangles in a buffer, in the kind of vertices that its flags select.\<close>

definition bez_ok :: "BezierPatch \<Rightarrow> bool" where
  "bez_ok S \<longleftrightarrow> (if transparent S \<or> color S then color.sound (bp_data S) else material.sound (bp_data S))"

locale tessellator =
  fixes tess :: "triple list \<Rightarrow> bool \<Rightarrow> real \<Rightarrow> bool \<Rightarrow> real vec4 list option \<Rightarrow> BezierPatch \<times> render_globals \<Rightarrow>
      (BezierPatch \<times> render_globals) option"
    and n :: nat
  assumes tess_grown: "ratio \<noteq> 0 \<Longrightarrow> length p = n \<Longrightarrow> bez_ok b \<Longrightarrow>
    \<exists>b' g'. tess p st ratio Tr cs (b, g) = Some (b', g') \<and> bez_ok b' \<and> globals_grown g g'"

lemma globals_grown_notRendered:
  assumes "patch_notRendered (b, g) = (b', g')"
  shows "globals_grown g g'" and "b' = b"
  using assms
  by (auto simp: patch_notRendered_def globals_grown_def split: if_splits
      intro!: material.grown_refl color.grown_refl point.grown_refl material.grown_same color.grown_same)

lemma patch_append_grown:
  assumes "bez_ok b" and "patch_append (b, g) = (b', g')"
  shows "globals_grown g g'" and "b' = b"
  using assms color.grown_extend material.grown_extend
  by (auto simp: patch_append_def bez_ok_def globals_grown_def split: if_splits)

lemma data_added_sound:
  assumes "data_added cc mi (VertexBuffer_clear d) d'"
  shows "if cc then color.sound d' else material.sound d'"
proof (cases "nverts cc d' \<le> 2 ^ 32")
  case True
  from cleared_shapes [OF assms True] show ?thesis by (auto simp: color.sound_def material.sound_def)
next
  case False
  then show ?thesis by (auto simp: nverts_def color.sound_def material.sound_def)
qed

lemma patch_queue_grown:
  assumes render: "\<And>straight cs b g. 0 < bp_res2 b \<Longrightarrow>
      \<exists>b'. render p straight cs (b, g) = Some (patch_append (b', g)) \<and>
        added (transparent b \<or> color b) (MaterialIndex g) (b\<lparr>epsilon := patch_epsilon p\<rparr>) b'"
    and "ratio \<noteq> 0"
  shows "\<exists>b' g'. patch_queue render p straight ratio Tr cs (b, g) = Some (b', g') \<and> bez_ok b' \<and> globals_grown g g'"
proof -
  obtain b1 g0 where q: "patch_queue render p straight ratio Tr cs (b, g) = Some (patch_append (b1, g0))"
    and data: "data_added (Tr \<or> cs \<noteq> None) (queue_material Tr (cs \<noteq> None) (materialIndex g))
      (VertexBuffer_clear (bp_data b)) (bp_data b1)"
    and flags: "transparent b1 = Tr" "color b1 = (cs \<noteq> None)"
    and g0: "g0 = (snd (patch_notRendered (b1, g)))\<lparr>MaterialIndex := queue_material Tr (cs \<noteq> None) (materialIndex g)\<rparr>"
    using patch_queue_result [where render = render and p = p and straight = straight and Tr = Tr and cs = cs
      and b = b and g = g, OF render assms(2)] by blast
  have ok: "bez_ok b1" using data_added_sound [OF data] flags by (simp add: bez_ok_def)
  obtain b' g' where app: "patch_append (b1, g0) = (b', g')" by fastforce
  obtain b2 g1 where nr: "patch_notRendered (b1, g) = (b2, g1)" by fastforce
  have "globals_grown g g1" using globals_grown_notRendered [OF nr] by blast
  then have "globals_grown g g0" by (simp add: g0 nr globals_grown_def)
  then have "globals_grown g g'" using globals_grown_trans patch_append_grown(1) [OF ok app] by blast
  with q ok app patch_append_grown(2) [OF ok app] show ?thesis by simp
qed

interpretation patches: tessellator "BezierPatch_queue pv" 16 for pv
  by unfold_locales (unfold BezierPatch_queue_def, rule patch_queue_grown, erule patch_render_result)

interpretation triangles: tessellator "BezierTriangle_queue pv" 10 for pv
  by unfold_locales (unfold BezierTriangle_queue_def, rule patch_queue_grown, erule triangle_render_result)

section \<open>What every \<open>QueueMesh\<close> keeps\<close>

text \<open>A view in which every resolution is a real number other than 0: the image and the box of the
  scene are not empty, and without the orthographic flag the box is in front of the camera.\<close>

definition viewable :: "mesh_args \<Rightarrow> bool" where
  "viewable a \<longleftrightarrow> a_width a > 0 \<and> a_pixelsPerBp a \<noteq> 0 \<and>
     (v3x (a_min a) \<noteq> v3x (a_max a) \<or> v3y (a_min a) \<noteq> v3y (a_max a)) \<and>
     (a_ortho a \<or> v3z (a_min a) \<noteq> 0 \<and> v3z (a_max a) \<noteq> 0)"

lemma mesh_ratio_ok:
  assumes "viewable a" and "s \<noteq> 0"
  obtains r where "mesh_ratio a s = Some r" and "r \<noteq> 0"
proof -
  let ?x = "s * (v3x (a_max a) - v3x (a_min a))" and ?y = "s * (v3y (a_max a) - v3y (a_min a))"
  have "?x \<noteq> 0 \<or> ?y \<noteq> 0" using assms by (auto simp: viewable_def)
  then have "sqrt (?x * ?x + ?y * ?y) \<noteq> 0" by (simp add: sum_squares_eq_zero_iff)
  moreover have "hypot (real_of_int (a_width a)) (real_of_int (a_height a)) \<noteq> 0"
    using assms(1) by (simp add: viewable_def hypot_def)
  ultimately show thesis using that [of "sqrt (?x * ?x + ?y * ?y) / hypot (a_width a) (a_height a)"]
    unfolding mesh_ratio_def Let_def by simp
qed

lemma scene_ratio_ok:
  assumes "viewable a"
  obtains r where "scene_ratio a = Some r" and "r \<noteq> 0"
proof -
  define s where "s = (if a_ortho a then 1 else v3z (a_min a) * (1 / v3z (a_max a)))"
  have s: "scene_scale a = Some s" "s \<noteq> 0"
    using assms by (auto simp: viewable_def scene_scale_def s_def)
  obtain r where "mesh_ratio a s = Some r" "r \<noteq> 0" using mesh_ratio_ok [OF assms s(2)] .
  then show thesis using that [of r] s(1) by (simp add: scene_ratio_def)
qed

text \<open>A method that keeps an invariant of the members, returns and only appends to the buffers.\<close>

definition queues :: "(members \<Rightarrow> bool) \<Rightarrow> (members \<times> render_globals \<Rightarrow> (members \<times> render_globals) option) \<Rightarrow> bool" where
  "queues P q \<longleftrightarrow> (\<forall>x g. P x \<longrightarrow> (\<exists>x' g'. q (x, g) = Some (x', g') \<and> P x' \<and> globals_grown g g'))"

definition queues_new :: "(render_globals \<Rightarrow> render_globals option) \<Rightarrow> bool" where
  "queues_new q \<longleftrightarrow> (\<forall>g. \<exists>g'. q g = Some g' \<and> globals_grown g g')"

lemma queuesI:
  assumes "\<And>x g. P x \<Longrightarrow> \<exists>x' g'. q (x, g) = Some (x', g') \<and> P x' \<and> globals_grown g g'"
  shows "queues P q"
  using assms by (simp add: queues_def)

lemma queues_new_members: "queues P q \<Longrightarrow> P x \<Longrightarrow> queues_new (\<lambda>g. map_option snd (q (x, g)))"
  unfolding queues_def queues_new_def by fastforce

lemma queues_new_each: "(\<And>x. x \<in> set xs \<Longrightarrow> queues_new (q x)) \<Longrightarrow> queues_new (queue_each q xs)"
  unfolding queues_new_def by (intro allI queue_each_grown) blast

lemma queues_new_bind: "queues_new q \<Longrightarrow> queues_new q' \<Longrightarrow> queues_new (\<lambda>g. Option.bind (q g) q')"
  unfolding queues_new_def by (metis bind.bind_lunit globals_grown_trans)

lemma set_material_grown [simp]:
  "globals_grown (set_material mi g) g' \<longleftrightarrow> globals_grown g g'"
  "globals_grown g (set_material mi g') \<longleftrightarrow> globals_grown g g'"
  by (simp_all add: set_material_def globals_grown_def)

lemma queues_new_material: "queues_new q \<Longrightarrow> queues_new (\<lambda>g. q (set_material mi g))"
  unfolding queues_new_def using set_material_grown(1) by blast

lemma queues_keep: "queues_new q \<Longrightarrow> queues P (keep_members q)"
  unfolding queues_def queues_new_def keep_members_def by fastforce

text \<open>The four ways through a \<open>QueueMesh\<close>.\<close>

lemma four_ways:
  obtains (off) A | (out) "\<not> A" and B | (fast) "\<not> A" and "\<not> B" and C | (full) "\<not> A" and "\<not> B" and "\<not> C"
  by blast

section \<open>Curved objects\<close>

lemma cull_bezier_grown:
  assumes "cull_bezier Tr (x, g) = (x', g')"
  shows "globals_grown g g'" and "bez_ok (mo_S x')"
proof -
  let ?S = "(mo_S x)\<lparr>bp_Onscreen := False, bp_data := VertexBuffer_clear (bp_data (mo_S x)), transparent := Tr, color := False\<rparr>"
  obtain S g1 where nr: "patch_notRendered (?S, g) = (S, g1)" by fastforce
  then have "S = ?S" "globals_grown g g'" "mo_S x' = S"
    using assms globals_grown_notRendered [OF nr] by (auto simp: cull_bezier_def)
  then show "globals_grown g g'" "bez_ok (mo_S x')"
    by (simp_all add: bez_ok_def color.sound_def material.sound_def color.valid_def material.valid_def VertexBuffer_clear_def)
qed

lemma bez_ok_new: "bez_ok (mo_S (members_new B))"
  by (simp add: bez_ok_def members_new_def BezierPatch_new_def material.sound_def material.valid_def VertexBuffer_new_def)

context tessellator
begin

lemma tess_queues:
  assumes "viewable a" and "length p = n" and "bez_ok (mo_S x)"
    and "\<And>S. mo_S (f x S) = S"
  shows "\<exists>x' g'. Option.bind (scene_ratio a) (\<lambda>ratio. map_option (\<lambda>(S, g1). (f x S, g1))
     (tess p st ratio Tr cs (mo_S x, g))) = Some (x', g') \<and> bez_ok (mo_S x') \<and> globals_grown g g'"
proof -
  obtain r where r: "scene_ratio a = Some r" "r \<noteq> 0" using scene_ratio_ok [OF assms(1)] .
  from tess_grown [OF r(2) assms(2,3)] obtain S g' where
    "tess p st r Tr cs (mo_S x, g) = Some (S, g')" "bez_ok S" "globals_grown g g'" by blast
  with r(1) assms(4) show ?thesis by simp
qed

lemma bezier_queues:
  assumes a: "viewable a" and p: "length p = n"
  shows "queues (bez_ok \<circ> mo_S) (bezier_QueueMesh tess edges a p mi rm)"
proof (rule queuesI, unfold comp_def)
  fix x :: members and g assume x: "bez_ok (mo_S x)"
  let ?g = "set_material mi g" and ?Tr = "material_transparent a mi"
  show "\<exists>x' g'. bezier_QueueMesh tess edges a p mi rm (x, g) = Some (x', g') \<and> bez_ok (mo_S x') \<and> globals_grown g g'"
  proof (cases rule: four_ways [where A = "box_offscreen a (mo_Min x) (mo_Max x)" and
      B = "a_mode a = DRAWMODE_OUTLINE" and C = "\<not> rm \<and> bp_Onscreen (mo_S x)"])
    case off
    obtain x1 g1 where c: "cull_bezier ?Tr (x, ?g) = (x1, g1)" by fastforce
    with off cull_bezier_grown [OF c] show ?thesis by (simp add: bezier_QueueMesh_def Let_def)
  next
    case out
    obtain r where r: "scene_ratio a = Some r" "r \<noteq> 0" using scene_ratio_ok [OF a] .
    obtain C g' where "queue_curves (a_pv a) (edges p) False r (mo_C x, ?g) = Some (C, g')" "globals_grown ?g g'"
      using queue_curves_grown [OF r(2)] by blast
    with out r x show ?thesis by (simp add: bezier_QueueMesh_def Let_def)
  next
    case fast
    obtain S g1 where ap: "patch_append (mo_S x, ?g) = (S, g1)" by fastforce
    with fast patch_append_grown [OF x ap] x show ?thesis by (simp add: bezier_QueueMesh_def Let_def)
  next
    case full
    with tess_queues [OF a p x, where g = ?g and st = False and cs = None and Tr = ?Tr and f = "\<lambda>x S. x\<lparr>mo_S := S,
        mo_fullyOnscreen := bp_Onscreen S,
        mo_isTransparent := (if a_mode a = DRAWMODE_NORMAL then transparent S else mo_isTransparent x)\<rparr>"]
    show ?thesis by (cases rm) (simp_all add: bezier_QueueMesh_def Let_def)
  qed
qed

lemma colored_queues:
  assumes a: "viewable a" and p: "length p = n" and out: "queues_new (outline a mi p)"
  shows "queues (bez_ok \<circ> mo_S) (colored_QueueMesh tess outline a p mi cs rm)"
proof (rule queuesI, unfold comp_def)
  fix x :: members and g assume x: "bez_ok (mo_S x)"
  let ?g = "set_material mi g" and ?Tr = "a_mode a = DRAWMODE_NORMAL \<and> alpha_sum cs < real (length cs)"
  consider (out) "a_mode a = DRAWMODE_OUTLINE"
    | (off) "a_mode a \<noteq> DRAWMODE_OUTLINE" "box_offscreen a (mo_Min x) (mo_Max x)"
    | (fast) "a_mode a \<noteq> DRAWMODE_OUTLINE" "\<not> box_offscreen a (mo_Min x) (mo_Max x)" "\<not> rm \<and> bp_Onscreen (mo_S x)"
    | (full) "a_mode a \<noteq> DRAWMODE_OUTLINE" "\<not> box_offscreen a (mo_Min x) (mo_Max x)" "\<not> (\<not> rm \<and> bp_Onscreen (mo_S x))"
    by blast
  then show "\<exists>x' g'. colored_QueueMesh tess outline a p mi cs rm (x, g) = Some (x', g') \<and> bez_ok (mo_S x') \<and> globals_grown g g'"
  proof cases
    case off
    obtain x1 g1 where c: "cull_bezier ?Tr (x, ?g) = (x1, g1)" by fastforce
    with off cull_bezier_grown [OF c] show ?thesis by (simp add: colored_QueueMesh_def Let_def)
  next
    case out': out
    obtain g' where "outline a mi p ?g = Some g'" "globals_grown ?g g'" using out unfolding queues_new_def by blast
    with out' x show ?thesis by (simp add: colored_QueueMesh_def Let_def)
  next
    case fast
    obtain S g1 where ap: "patch_append (mo_S x, ?g) = (S, g1)" by fastforce
    with fast patch_append_grown [OF x ap] x show ?thesis by (simp add: colored_QueueMesh_def Let_def)
  next
    case full
    with tess_queues [OF a p x, where g = ?g and st = False and cs = "Some cs" and Tr = ?Tr and
        f = "\<lambda>x S. x\<lparr>mo_S := S, mo_fullyOnscreen := bp_Onscreen S\<rparr>"]
    show ?thesis by (cases rm) (simp_all add: colored_QueueMesh_def Let_def)
  qed
qed

end

lemma new_patch_queues: "viewable a \<Longrightarrow> length p = 16 \<Longrightarrow> queues_new (queue_new_patch a mi p)"
  unfolding queue_new_patch_def V3dBezierPatch_QueueMesh_def
  by (rule queues_new_members [OF patches.bezier_queues]) (simp_all add: bez_ok_new)

lemma new_triangle_queues: "viewable a \<Longrightarrow> length p = 10 \<Longrightarrow> queues_new (queue_new_triangle a mi p)"
  unfolding queue_new_triangle_def V3dBezierTriangle_QueueMesh_def
  by (rule queues_new_members [OF triangles.bezier_queues]) (simp_all add: bez_ok_new)

section \<open>Straight objects, groups, curves and pixels\<close>

lemma reset_grown [simp]:
  "globals_grown (reset_transparent g) g' \<longleftrightarrow> globals_grown g g'"
  "globals_grown (reset_material g) g' \<longleftrightarrow> globals_grown g g'"
  "globals_grown (reset_color g) g' \<longleftrightarrow> globals_grown g g'"
  "globals_grown g (reset_transparent g') \<longleftrightarrow> globals_grown g g'"
  "globals_grown g (reset_material g') \<longleftrightarrow> globals_grown g g'"
  "globals_grown g (reset_color g') \<longleftrightarrow> globals_grown g g'"
  by (auto simp: globals_grown_def reset_transparent_def reset_material_def reset_color_def
      material.grown_def color.grown_def material.sound_def color.sound_def material.valid_def color.valid_def)

lemma extend_grown:
  "color.sound d \<Longrightarrow> globals_grown g (extend_transparent d g)"
  "color.sound d \<Longrightarrow> globals_grown g (extend_color d g)"
  "material.sound d \<Longrightarrow> globals_grown g (extend_material d g)"
  by (auto simp: globals_grown_def extend_transparent_def extend_material_def extend_color_def
      color.grown_extend material.grown_extend)

lemma empty_sound [simp]:
  "indices d = [] \<Longrightarrow> color.sound d" "indices d = [] \<Longrightarrow> material.sound d" "indices d = [] \<Longrightarrow> point.sound d"
  by (simp_all add: color.sound_def material.sound_def point.sound_def color.valid_def material.valid_def point.valid_def)

lemma cleared_indices [simp]: "indices (VertexBuffer_clear d) = []" "indices VertexBuffer_new = []"
  by (simp_all add: VertexBuffer_clear_def VertexBuffer_new_def)

lemma straight_indices_bound:
  assumes "length vs = 3 \<or> length vs = 4" and "i \<in> set (straight_indices a vs)"
  shows "unat i < length vs"
  using assms by (auto simp: straight_indices_def straight_faces_def split: if_splits)

lemma straight_list_sound:
  assumes "length vs = 3 \<or> length vs = 4"
  shows "length cs = length vs \<Longrightarrow> color.sound (color_list d n mi (zip vs cs) (straight_indices a vs))"
    and "color.sound (color_list d n mi (map (\<lambda>v. (v, c)) vs) (straight_indices a vs))"
    and "material.sound (material_list d n mi vs (straight_indices a vs))"
  using straight_indices_bound [OF assms]
  by (simp_all add: color.sound_def material.sound_def color.valid_def material.valid_def color_list_def material_list_def)

lemma straight_outline_grown:
  assumes "viewable a"
  shows "\<exists>C g'. straight_outline a vs (x, g) = Some (x\<lparr>mo_C := C\<rparr>, g') \<and> globals_grown g g'"
proof -
  obtain r where r: "mesh_ratio a 1 = Some r" "r \<noteq> 0" using mesh_ratio_ok [OF assms zero_neq_one [symmetric]] .
  obtain C g' where "queue_curves (a_pv a) (straight_edges vs) True r (mo_C x, g) = Some (C, g')" "globals_grown g g'"
    using queue_curves_grown [OF r(2)] by blast
  with r show ?thesis by (intro exI [of _ C] exI [of _ g']) (simp add: straight_outline_def)
qed

definition list_ok :: "members \<Rightarrow> bool" where
  "list_ok x \<longleftrightarrow> (if mo_S_color x then color.sound (mo_list x) else material.sound (mo_list x))"

lemma straight_queues:
  assumes a: "viewable a" and vs: "length vs = 3 \<or> length vs = 4"
  shows "queues list_ok (straight_QueueMesh a vs ci mi rm)"
proof (rule queuesI)
  fix x :: members and g assume x: "list_ok x"
  let ?g = "set_material mi g" and ?off = "case straight_box vs of (mn, mx) \<Rightarrow> box_offscreen a mn mx"
  note s = straight_list_sound(2,3) [OF vs]
  show "\<exists>x' g'. straight_QueueMesh a vs ci mi rm (x, g) = Some (x', g') \<and> list_ok x' \<and> globals_grown g g'"
  proof (cases rule: four_ways [where A = ?off and B = "a_mode a = DRAWMODE_OUTLINE" and
      C = "\<not> rm \<and> mo_onscreen x \<and> ci = 0"])
    case off
    then show ?thesis by (simp add: straight_QueueMesh_def list_ok_def Let_def)
  next
    case out
    obtain C g' where "straight_outline a vs (x, ?g) = Some (x\<lparr>mo_C := C\<rparr>, g')" "globals_grown ?g g'"
      using straight_outline_grown [OF a] by blast
    with out x show ?thesis by (simp add: straight_QueueMesh_def list_ok_def Let_def)
  next
    case fast
    with x extend_grown [of "mo_list x" ?g] show ?thesis
      by (auto simp: straight_QueueMesh_def list_ok_def Let_def)
  next
    case full
    let ?Tr = "material_transparent a mi"
    let ?r = "(if ?Tr then reset_transparent else reset_material) ?g"
    let ?d = "if ?Tr then color_list (mo_list x) (straight_normal a vs) (sint (1 + mi)) (map (\<lambda>v. (v, V4 0 0 0 0)) vs) (straight_indices a vs)
      else material_list (mo_list x) (straight_normal a vs) (sint mi) vs (straight_indices a vs)"
    have "straight_QueueMesh a vs ci mi rm (x, g) = Some (x\<lparr>mo_list := ?d, mo_onscreen := straight_onscreen a vs,
        mo_fullyOnscreen := straight_onscreen a vs, mo_S_color := ?Tr,
        mo_isTransparent := (if a_mode a = DRAWMODE_NORMAL then ?Tr else mo_isTransparent x)\<rparr>,
        (if ?Tr then extend_transparent else extend_material) ?d ?r)"
      unfolding straight_QueueMesh_def prod.case Let_def using full by (simp only: if_False)
    moreover have "globals_grown g ((if ?Tr then extend_transparent else extend_material) ?d ?r)"
      using extend_grown [of ?d ?r] s by (cases ?Tr) simp_all
    ultimately show ?thesis using s by (auto simp: list_ok_def)
  qed
qed

lemma colored_straight_queues:
  assumes a: "viewable a" and vs: "length vs = 3 \<or> length vs = 4" and cs: "length cs = length vs"
  shows "queues (\<lambda>x. color.sound (mo_list x)) (colored_straight_QueueMesh a vs ci mi cs rm)"
proof (rule queuesI)
  fix x :: members and g assume x: "color.sound (mo_list x)"
  let ?g = "set_material mi g" and ?off = "case straight_box vs of (mn, mx) \<Rightarrow> box_offscreen a mn mx"
  let ?Tr = "a_mode a = DRAWMODE_NORMAL \<and> alpha_sum cs < real (length cs)"
  note s = straight_list_sound(1) [OF vs cs]
  show "\<exists>x' g'. colored_straight_QueueMesh a vs ci mi cs rm (x, g) = Some (x', g') \<and>
      color.sound (mo_list x') \<and> globals_grown g g'"
  proof (cases rule: four_ways [where A = ?off and B = "a_mode a = DRAWMODE_OUTLINE" and
      C = "\<not> rm \<and> mo_onscreen x \<and> ci = 0"])
    case off
    then show ?thesis by (simp add: colored_straight_QueueMesh_def Let_def)
  next
    case out
    obtain C g' where "straight_outline a vs (x, ?g) = Some (x\<lparr>mo_C := C\<rparr>, g')" "globals_grown ?g g'"
      using straight_outline_grown [OF a] by blast
    with out x show ?thesis by (simp add: colored_straight_QueueMesh_def Let_def)
  next
    case fast
    with x extend_grown(1,2) [of "mo_list x" ?g] show ?thesis
      by (auto simp: colored_straight_QueueMesh_def Let_def)
  next
    case full
    let ?d = "color_list (mo_list x) (straight_normal a vs) (- 1 - sint mi) (zip vs cs) (straight_indices a vs)"
    let ?r = "(if ?Tr then reset_transparent else reset_color) ?g"
    have "colored_straight_QueueMesh a vs ci mi cs rm (x, g) = Some (x\<lparr>mo_list := ?d, mo_onscreen := straight_onscreen a vs,
        mo_fullyOnscreen := straight_onscreen a vs, mo_S_color := True,
        mo_isTransparent := (if a_mode a = DRAWMODE_NORMAL then ?Tr else mo_isTransparent x)\<rparr>,
        (if ?Tr then extend_transparent else extend_color) ?d ?r)"
      unfolding colored_straight_QueueMesh_def prod.case Let_def using full by (simp only: if_False)
    moreover have "globals_grown g ((if T then extend_transparent else extend_color) ?d
        ((if T then reset_transparent else reset_color) ?g))" for T
      using extend_grown(1,2) [OF s] by (cases T) (metis (full_types) reset_grown(1,3) set_material_grown(1))+
    ultimately show ?thesis using s by auto
  qed
qed

lemma group_vertices [simp]: "length (map (group_vertex N C m) (zip [0..<length ps] ps)) = length ps"
  by simp

lemma group_indices_bound: "i \<in> set (group_indices nP ps) \<Longrightarrow> unat i < unat nP"
  by (auto simp: group_indices_def word_less_nat_alt word_le_nat_alt split: if_splits)

lemma group_queues:
  assumes n: "length (tg_positions tg) = unat (tg_nP tg)" and C: "those (map rgba_real (tg_colors tg)) = Some C"
  shows "queues (\<lambda>x. color.sound (mo_vertexData x)) (group_QueueMesh a tg rm)"
proof (rule queuesI)
  fix x :: members and g assume x: "color.sound (mo_vertexData x)"
  define mi where "mi = tg_materialIndex tg"
  let ?g = "set_material mi g"
  let ?none = "tg_nI tg = 0 \<or> tg_nP tg = 0 \<or> a_mode a = DRAWMODE_OUTLINE"
  show "\<exists>x' g'. group_QueueMesh a tg rm (x, g) = Some (x', g') \<and> color.sound (mo_vertexData x') \<and> globals_grown g g'"
  proof (cases rule: four_ways [where A = ?none and B = "box_offscreen a (a_min a) (a_max a)" and
      C = "\<not> rm \<and> mo_fullyOnscreen x \<and> tg_centerIndex tg = 0"])
    case off
    with x show ?thesis by (simp add: group_QueueMesh_def Let_def)
  next
    case out
    then show ?thesis by (simp add: group_QueueMesh_def Let_def)
  next
    case fast
    with x extend_grown(1,2) [of "mo_vertexData x" ?g] show ?thesis
      by (simp add: group_QueueMesh_def Let_def mi_def)
  next
    case full
    define m where "m = (if tg_nC tg > 0 then - 1 - sint mi else 1 + sint mi)"
    define T where "T = material_transparent a mi"
    define Tr where "Tr \<longleftrightarrow> T \<or> tg_nC tg > 0 \<and> (\<exists>ci \<in> set (tg_CI tg). group_triangle_clear C ci)"
    define d where "d = VertexBuffer_new\<lparr>
        colorVertices := map (group_vertex (tg_normals tg) (if tg_nC tg > 0 then C else []) m)
          (zip [0..<length (tg_positions tg)] (tg_positions tg)),
        indices := group_indices (tg_nP tg) (tg_PI tg)\<rparr>"
    let ?r = "(if T then reset_transparent else reset_color) ?g"
    have "group_QueueMesh a tg rm (x, g) = Some (x\<lparr>mo_vertexData := d, mo_fullyOnscreen := True,
        mo_isTransparent := (if a_mode a = DRAWMODE_NORMAL then Tr else mo_isTransparent x)\<rparr>,
        (if Tr then extend_transparent else extend_color) d ?r)"
      unfolding group_QueueMesh_def prod.case Let_def mi_def [symmetric] C bind.bind_lunit m_def [symmetric]
        T_def [symmetric] Tr_def [symmetric] d_def [symmetric]
      using full by (simp only: if_False)
    moreover have d: "color.sound d"
      using group_indices_bound n by (auto simp: color.sound_def color.valid_def d_def)
    moreover have "globals_grown g ((if Tr then extend_transparent else extend_color) d ?r)"
      using extend_grown(1,2) [OF d, of ?r] by (cases Tr; cases T) simp_all
    ultimately show ?thesis by simp
  qed
qed

lemma queue_curve_grown:
  assumes "viewable a"
  shows "\<exists>x' g'. queue_curve a seg straight (x, g) = Some (x', g') \<and> material.sound (mo_vertexData x') \<and> globals_grown g g'"
proof -
  obtain r where r: "scene_ratio a = Some r" "r \<noteq> 0" using scene_ratio_ok [OF assms] .
  obtain S g' where "BezierCurve_queue (a_pv a) seg straight r (BezierCurve_new, g) = Some (S, g')"
    "material.sound (bc_data S)" "globals_grown g g'" using curve_queue_grown [OF r(2)] by blast
  with r(1) show ?thesis by (simp add: queue_curve_def)
qed

lemma curve_queues:
  assumes "viewable a"
  shows "queues (\<lambda>x. material.sound (mo_vertexData x)) (curve_QueueMesh a p ci mi rm)"
proof (rule queuesI)
  fix x :: members and g assume "material.sound (mo_vertexData x)"
  with queue_curve_grown [OF assms, of "(p ! 0, p ! 1, p ! 2, p ! 3)" False x "set_material mi g"]
    extend_grown(3) [of "mo_vertexData x" "set_material mi g"]
  show "\<exists>x' g'. curve_QueueMesh a p ci mi rm (x, g) = Some (x', g') \<and> material.sound (mo_vertexData x') \<and> globals_grown g g'"
    by (auto simp: curve_QueueMesh_def cull_curve_def Let_def)
qed

lemma line_queues: "viewable a \<Longrightarrow> queues (\<lambda>x. True) (line_QueueMesh a p mi)"
proof (rule queuesI)
  fix x :: members and g assume "viewable a"
  from queue_curve_grown [OF this, of "(p ! 0, 0, 0, p ! 1)" True x "set_material mi g"]
  show "\<exists>x' g'. line_QueueMesh a p mi (x, g) = Some (x', g') \<and> True \<and> globals_grown g g'"
    by (auto simp: line_QueueMesh_def cull_curve_def Let_def)
qed

lemma pixel_queues:
  assumes "viewable a"
  shows "queues (\<lambda>x. True) (pixel_QueueMesh a p w mi)"
proof (rule queuesI)
  fix x :: members and g
  let ?g = "set_material mi g"
  let ?r = "?g\<lparr>pointData := (pointData ?g)\<lparr>renderCount := 0\<rparr>\<rparr>"
  obtain i d where pv: "addPointVertex \<lparr>pv_position = p, pv_width = w, pv_material = sint mi\<rparr> VertexBuffer_new = (i, d)"
    by fastforce
  let ?d = "d\<lparr>indices := indices d @ [i]\<rparr>"
  have "point.sound ?d"
    using pv by (auto simp: point.sound_def point.valid_def addPointVertex_def VertexBuffer_new_def)
  then have "point.grown (pointData ?g) (extendPoint ?d (pointData ?r))"
    by (intro point.grown_trans [OF point.grown_same point.grown_extend]) simp_all
  then have "globals_grown ?g (?r\<lparr>pointData := extendPoint ?d (pointData ?r)\<rparr>)" and "globals_grown ?g ?r"
    by (auto simp: globals_grown_def intro!: point.grown_same)
  moreover have "a_pixelsPerBp a \<noteq> 0" using assms by (simp add: viewable_def)
  ultimately show "\<exists>x' g'. pixel_QueueMesh a p w mi (x, g) = Some (x', g') \<and> True \<and> globals_grown g g'"
    by (simp add: pixel_QueueMesh_def pv Let_def)
qed

section \<open>Solids\<close>

lemma disk_patch_length: "length (disk_patch c r dir) = 16"
  by (simp add: disk_patch_def unitdisk_def Let_def)

lemma cylinder_patches_length: "p \<in> set (cylinder_patches c r h dir) \<Longrightarrow> length p = 16"
  by (auto simp: cylinder_patches_def unitcylinder_def Let_def)

lemma sphere_patches_length: "p \<in> set (sphere_patches c r dir) \<Longrightarrow> length p = 10"
  using sphereOctant_touches(2) by (auto simp: sphere_patches_def touches_sphere_def Let_def split: if_splits)

lemma tube_patches_length: "p \<in> set (tube_patches v w) \<Longrightarrow> length p = 16"
  by (auto simp: tube_patches_def tube_patch_def tube_row_def tube_arc_def Let_def numeral_eq_Suc)

lemma new_line_queues: "viewable a \<Longrightarrow> queues_new (queue_new_line a mi p)"
  unfolding queue_new_line_def by (rule queues_new_members [OF line_queues]) simp_all

lemma new_curve_queues: "viewable a \<Longrightarrow> queues_new (queue_new_curve a mi p)"
  unfolding queue_new_curve_def by (rule queues_new_members [OF curve_queues]) (simp_all add: members_new_def)

lemma solids_queue:
  assumes a: "viewable a"
  shows "queues_new (sphere_QueueMesh a c r dir mi)" and "queues_new (disk_QueueMesh a c r d mi)"
    and "queues_new (cylinder_QueueMesh a c r h d core mi)" and "queues_new (tube_QueueMesh a v w core mi)"
proof -
  show "queues_new (sphere_QueueMesh a c r dir mi)"
    unfolding sphere_QueueMesh_def
    by (rule queues_new_material, rule queues_new_each, rule new_triangle_queues [OF a sphere_patches_length])
  show "queues_new (disk_QueueMesh a c r d mi)"
    unfolding disk_QueueMesh_def
    by (rule queues_new_material, rule queues_new_each, rule new_patch_queues [OF a]) (simp add: disk_patch_length)
  show "queues_new (cylinder_QueueMesh a c r h d core mi)"
    unfolding cylinder_QueueMesh_def
    by (rule queues_new_bind, rule queues_new_material, rule queues_new_each,
        rule new_patch_queues [OF a cylinder_patches_length], assumption, rule queues_new_each, rule new_line_queues [OF a])
  show "queues_new (tube_QueueMesh a v w core mi)"
    unfolding tube_QueueMesh_def
    by (rule queues_new_bind, rule queues_new_material, rule queues_new_each,
        rule new_patch_queues [OF a tube_patches_length], assumption, rule queues_new_each, rule new_curve_queues [OF a])
qed

section \<open>Objects and frames\<close>

text \<open>What an object must have so that nothing is read out of range: the number of control points and
  of colours of its class, and, in a triangle group, the positions that are announced and colours
  that are numbers.\<close>

fun sizes_ok :: "('r, 'u, 'f) v3d_object \<Rightarrow> bool" where
  "sizes_ok (V3dBezierPatch p _ _) \<longleftrightarrow> length p = 16"
| "sizes_ok (V3dBezierTriangle p _ _) \<longleftrightarrow> length p = 10"
| "sizes_ok (V3dBezierPatchWithCornerColors p _ _ cs) \<longleftrightarrow> length p = 16 \<and> length cs = 4"
| "sizes_ok (V3dBezierTriangleWithCornerColors p _ _ cs) \<longleftrightarrow> length p = 10 \<and> length cs = 3"
| "sizes_ok (V3dStraightPlanarQuad p _ _) \<longleftrightarrow> length p = 4"
| "sizes_ok (V3dStraightTriangle p _ _) \<longleftrightarrow> length p = 3"
| "sizes_ok (V3dStraightPlanarQuadWithCornerColors p _ _ cs) \<longleftrightarrow> length p = 4 \<and> length cs = 4"
| "sizes_ok (V3dStraightTriangleWithCornerColors p _ _ cs) \<longleftrightarrow> length p = 3 \<and> length cs = 3"
| "sizes_ok (V3dTriangleGroup tg) \<longleftrightarrow> length (tg_positions tg) = unat (tg_nP tg)"
| "sizes_ok (V3dTube p _ _ _ _) \<longleftrightarrow> length p = 4"
| "sizes_ok (V3dBezierCurve p _ _) \<longleftrightarrow> length p = 4"
| "sizes_ok (V3dLineSegment p _ _) \<longleftrightarrow> length p = 2"
| "sizes_ok _ \<longleftrightarrow> True"

fun colors_ok :: "('r, 'u, 'f) v3d_object \<Rightarrow> bool" where
  "colors_ok (V3dTriangleGroup tg) \<longleftrightarrow> list_all (\<lambda>c. rgba_real c \<noteq> None) (tg_colors tg)"
| "colors_ok _ \<longleftrightarrow> True"

definition object_ok :: "mesh_object \<Rightarrow> bool" where
  "object_ok ob \<longleftrightarrow> sizes_ok ob \<and> colors_ok ob"

text \<open>What the members of an object keep between calls: the indices of its cached buffer refer to
  vertices of the kind in which the buffer is going to be appended.\<close>

fun members_ok :: "mesh_object \<Rightarrow> members \<Rightarrow> bool" where
  "members_ok (V3dBezierPatch _ _ _) x \<longleftrightarrow> bez_ok (mo_S x)"
| "members_ok (V3dBezierTriangle _ _ _) x \<longleftrightarrow> bez_ok (mo_S x)"
| "members_ok (V3dBezierPatchWithCornerColors _ _ _ _) x \<longleftrightarrow> bez_ok (mo_S x)"
| "members_ok (V3dBezierTriangleWithCornerColors _ _ _ _) x \<longleftrightarrow> bez_ok (mo_S x)"
| "members_ok (V3dStraightPlanarQuad _ _ _) x \<longleftrightarrow> list_ok x"
| "members_ok (V3dStraightTriangle _ _ _) x \<longleftrightarrow> list_ok x"
| "members_ok (V3dStraightPlanarQuadWithCornerColors _ _ _ _) x \<longleftrightarrow> color.sound (mo_list x)"
| "members_ok (V3dStraightTriangleWithCornerColors _ _ _ _) x \<longleftrightarrow> color.sound (mo_list x)"
| "members_ok (V3dTriangleGroup _) x \<longleftrightarrow> color.sound (mo_vertexData x)"
| "members_ok (V3dBezierCurve _ _ _) x \<longleftrightarrow> material.sound (mo_vertexData x)"
| "members_ok _ x \<longleftrightarrow> True"

lemma object_members_ok: "members_ok ob (object_members ob)"
  by (cases ob) (simp_all add: bez_ok_new, simp_all add: members_new_def list_ok_def)

lemma those_map_Some: "list_all (\<lambda>c. f c \<noteq> None) cs \<Longrightarrow> \<exists>ys. those (map f cs) = Some ys"
  by (induction cs) auto

lemma object_queues:
  assumes a: "viewable a" and ok: "sizes_ok ob" "colors_ok ob"
  shows "queues (members_ok ob) (QueueMesh a ob rm)"
proof (cases ob)
  case (V3dTriangleGroup tg)
  with ok obtain C where "those (map rgba_real (tg_colors tg)) = Some C" using those_map_Some by fastforce
  with V3dTriangleGroup ok group_queues show ?thesis by (simp add: members_ok.simps [abs_def])
next
  case (V3dBezierPatchWithCornerColors p ci mi cs)
  with ok patches.colored_queues [OF a, of p queue_new_patch] new_patch_queues [OF a] show ?thesis
    by (simp add: V3dBezierPatchWithCornerColors_QueueMesh_def comp_def members_ok.simps [abs_def])
next
  case (V3dBezierTriangleWithCornerColors p ci mi cs)
  with ok triangles.colored_queues [OF a, of p queue_new_triangle] new_triangle_queues [OF a] show ?thesis
    by (simp add: V3dBezierTriangleWithCornerColors_QueueMesh_def comp_def members_ok.simps [abs_def])
next
  case (V3dBezierPatch p ci mi)
  with ok patches.bezier_queues [OF a] show ?thesis
    by (simp add: V3dBezierPatch_QueueMesh_def comp_def members_ok.simps [abs_def])
next
  case (V3dBezierTriangle p ci mi)
  with ok triangles.bezier_queues [OF a] show ?thesis
    by (simp add: V3dBezierTriangle_QueueMesh_def comp_def members_ok.simps [abs_def])
qed (use ok a in \<open>simp_all add: members_ok.simps [abs_def] straight_queues colored_straight_queues
    solids_queue [THEN queues_keep] curve_queues line_queues pixel_queues\<close>)

lemma billboard_material_grown:
  assumes "material.grown d0 d"
  shows "material.grown d0 (billboard_material a c (length (materialVertices d0)) d)"
proof -
  from assms obtain vs "is" where "materialVertices d = materialVertices d0 @ vs" "indices d = indices d0 @ is"
    and s: "material.sound d0 \<longrightarrow> material.sound d" by (auto simp: material.grown_def)
  moreover have "material.sound d \<Longrightarrow> material.sound (billboard_material a c (length (materialVertices d0)) d)"
    by (auto simp: material.sound_def material.valid_def billboard_material_def)
  ultimately show ?thesis by (auto simp: material.grown_def billboard_material_def)
qed

lemma billboard_color_grown:
  assumes "color.grown d0 d"
  shows "color.grown d0 (billboard_color a c (length (colorVertices d0)) d)"
proof -
  from assms obtain vs "is" where "colorVertices d = colorVertices d0 @ vs" "indices d = indices d0 @ is"
    and s: "color.sound d0 \<longrightarrow> color.sound d" by (auto simp: color.grown_def)
  moreover have "color.sound d \<Longrightarrow> color.sound (billboard_color a c (length (colorVertices d0)) d)"
    by (auto simp: color.sound_def color.valid_def billboard_color_def)
  ultimately show ?thesis by (auto simp: color.grown_def billboard_color_def)
qed

lemma billboard_grown: "globals_grown g g' \<Longrightarrow> globals_grown g (billboard a cs ci g g')"
  by (simp add: billboard_def Let_def globals_grown_def billboard_material_grown billboard_color_grown)

definition pair_ok :: "mesh_object \<times> members \<Rightarrow> bool" where
  "pair_ok ox \<longleftrightarrow> object_ok (fst ox) \<and> members_ok (fst ox) (snd ox)"

lemma queue_object_grown:
  assumes "viewable a" and "pair_ok ox"
  shows "\<exists>ox' g'. queue_object a cs rm ox g = Some (ox', g') \<and> pair_ok ox' \<and> fst ox' = fst ox \<and> globals_grown g g'"
proof -
  obtain ob x where ox: "ox = (ob, x)" by fastforce
  with assms(2) object_queues [OF assms(1), of ob rm] obtain x' g' where
    "QueueMesh a ob rm (x, g) = Some (x', g')" "members_ok ob x'" "globals_grown g g'"
    unfolding queues_def pair_ok_def object_ok_def by fastforce
  with assms(2) show ?thesis by (simp add: ox queue_object_def pair_ok_def billboard_grown)
qed

lemma queue_objects_grown:
  assumes "viewable a" and "list_all pair_ok oxs"
  shows "\<exists>oxs' g'. queue_objects a cs rm oxs g = Some (oxs', g') \<and> list_all pair_ok oxs' \<and>
    map fst oxs' = map fst oxs \<and> globals_grown g g'"
  using assms(2)
proof (induction oxs arbitrary: g)
  case Nil
  then show ?case by auto
next
  case (Cons ox oxs)
  have ok: "pair_ok ox" "list_all pair_ok oxs" using Cons.prems by simp_all
  obtain ox1 g1 where 1: "queue_object a cs rm ox g = Some (ox1, g1)" "pair_ok ox1" "fst ox1 = fst ox" "globals_grown g g1"
    using queue_object_grown [OF assms(1) ok(1)] by blast
  obtain oxs' g' where 2: "queue_objects a cs rm oxs g1 = Some (oxs', g')" "list_all pair_ok oxs'"
    "map fst oxs' = map fst oxs" "globals_grown g1 g'" using Cons.IH [OF ok(2)] by blast
  from 1 2 globals_grown_trans [OF 1(4) 2(4)] show ?case by simp
qed

definition file_ok :: "mesh_file \<Rightarrow> bool" where
  "file_ok f \<longleftrightarrow> list_all pair_ok (mf_objects f)"

text \<open>The part of \<open>RenderModel\<close> that fills the buffers: five of the six are cleared, then the file is
  queued. The members of the objects and the remaining buffer live on from frame to frame.\<close>

definition clearData :: "render_globals \<Rightarrow> render_globals" where
  "clearData g = g\<lparr>materialData := VertexBuffer_clear (materialData g), colorData := VertexBuffer_clear (colorData g),
     lineData := VertexBuffer_clear (lineData g), transparentData := VertexBuffer_clear (transparentData g),
     pointData := VertexBuffer_clear (pointData g)\<rparr>"

definition mesh_frame :: "mesh_args \<times> bool \<Rightarrow> mesh_file \<times> render_globals \<Rightarrow> (mesh_file \<times> render_globals) option" where
  "mesh_frame c st = (case st of (f, g) \<Rightarrow> V3dFile_QueueMesh (fst c) (snd c) (f, clearData g))"

fun mesh_frames :: "(mesh_args \<times> bool) list \<Rightarrow> mesh_file \<times> render_globals \<Rightarrow> (mesh_file \<times> render_globals) option" where
  "mesh_frames [] st = Some st"
| "mesh_frames (c # cs) st = Option.bind (mesh_frame c st) (mesh_frames cs)"

lemma clearData_sound: "globals_sound g \<Longrightarrow> globals_sound (clearData g)"
  by (simp add: globals_sound_def clearData_def)

lemma mesh_frame_sound:
  assumes "viewable (file_args f a)" and "file_ok f" and "globals_sound g"
  shows "\<exists>f' g'. mesh_frame (a, rm) (f, g) = Some (f', g') \<and> file_ok f' \<and>
    f' = f\<lparr>mf_objects := mf_objects f'\<rparr> \<and> map fst (mf_objects f') = map fst (mf_objects f) \<and>
    globals_grown (clearData g) g' \<and> globals_sound g'"
proof -
  obtain oxs g' where "queue_objects (file_args f a) (mf_centers f) rm (mf_objects f) (clearData g) = Some (oxs, g')"
    "list_all pair_ok oxs" "map fst oxs = map fst (mf_objects f)" "globals_grown (clearData g) g'"
    using queue_objects_grown [OF assms(1)] assms(2) unfolding file_ok_def by blast
  moreover from this have "globals_sound g'" using globals_grown_sound clearData_sound [OF assms(3)] by blast
  ultimately show ?thesis by (simp add: mesh_frame_def V3dFile_QueueMesh_def file_ok_def)
qed

lemma file_args_objects: "file_args (f\<lparr>mf_objects := oxs\<rparr>) = file_args f"
  by (rule ext) (simp add: file_args_def)

lemma mesh_frames_sound:
  assumes "\<forall>c \<in> set cs. viewable (file_args f (fst c))" and "file_ok f" and "globals_sound g"
  shows "\<exists>f' g'. mesh_frames cs (f, g) = Some (f', g') \<and> file_ok f' \<and>
    map fst (mf_objects f') = map fst (mf_objects f) \<and> globals_sound g'"
  using assms
proof (induction cs arbitrary: f g)
  case Nil
  then show ?case by simp
next
  case (Cons c cs)
  obtain a rm where c: "c = (a, rm)" by fastforce
  with Cons.prems obtain f1 g1 where 1: "mesh_frame c (f, g) = Some (f1, g1)" "file_ok f1" "globals_sound g1"
    "f1 = f\<lparr>mf_objects := mf_objects f1\<rparr>" "map fst (mf_objects f1) = map fst (mf_objects f)"
    using mesh_frame_sound [of f a g rm] by auto
  have "file_args f1 = file_args f" by (subst 1(4)) (rule file_args_objects)
  with Cons.prems(1) have "\<forall>c \<in> set cs. viewable (file_args f1 (fst c))" by simp
  from Cons.IH [OF this 1(2,3)] 1(1,5) show ?case by auto
qed

text \<open>However often and in whatever draw modes the objects of a file are queued, with or without
  re-tessellation: as long as the image and the scene have an extent, every frame returns, the
  objects keep what they need for the next one, and every index in the six buffers that the
  renderer draws refers to a vertex of the kind that belongs to the buffer.\<close>

theorem frames_sound:
  assumes "\<forall>c \<in> set cs. viewable (file_args f (fst c))"
    and "\<forall>ob \<in> set obs. object_ok ob" and "mf_objects f = map (\<lambda>ob. (ob, object_members ob)) obs"
  shows "\<exists>f' g'. mesh_frames cs (f, empty_globals) = Some (f', g') \<and> map fst (mf_objects f') = obs \<and>
    file_ok f' \<and> globals_sound g'"
proof -
  have "file_ok f" using assms(2,3) by (auto simp: file_ok_def list_all_iff pair_ok_def object_members_ok)
  moreover have "globals_sound empty_globals" by (simp add: globals_sound_def empty_globals_def)
  ultimately obtain f' g' where "mesh_frames cs (f, empty_globals) = Some (f', g')" "file_ok f'"
    "map fst (mf_objects f') = map fst (mf_objects f)" "globals_sound g'"
    using mesh_frames_sound [OF assms(1)] by blast
  moreover have "map fst (mf_objects f) = obs" by (simp add: assms(3) comp_def)
  ultimately show ?thesis by auto
qed

definition sample_args :: mesh_args where
  "sample_args = \<lparr>a_pv = (\<lambda>i. if i = 0 \<or> i = 5 \<or> i = 15 then 1 else 0), a_BBT = (\<lambda>_. 0), a_normalize = (\<lambda>v. v),
     a_width = 100, a_height = 100, a_min = V3 (- 1) (- 1) (- 1), a_max = V3 1 1 1, a_ortho = True,
     a_mode = DRAWMODE_NORMAL, a_alphas = [1], a_pixelsPerBp = 1\<rparr>"

theorem frames_sound_witness:
  "\<exists>f' g'. mesh_frames [(sample_args, True), (sample_args, False), (sample_args\<lparr>a_mode := DRAWMODE_OUTLINE\<rparr>, True)]
     (\<lparr>mf_objects = map (\<lambda>ob. (ob, object_members ob))
         [V3dBezierPatch (replicate 15 0 @ [V3 1 1 0]) 0 0, V3dStraightTriangle [V3 0 0 0, V3 1 0 0, V3 0 1 0] 1 0,
          V3dSphere (V3 0 0 0) 1 0 0],
       mf_centers = [V3 0 0 0], mf_alphas = [1], mf_canvasWidth = 50\<rparr>, empty_globals) = Some (f', g') \<and>
     globals_sound g'"
proof -
  let ?obs = "[V3dBezierPatch (replicate 15 0 @ [V3 1 1 0]) 0 0, V3dStraightTriangle [V3 0 0 0, V3 1 0 0, V3 0 1 0] 1 0,
    V3dSphere (V3 0 0 0) 1 0 0] :: mesh_object list"
  let ?f = "\<lparr>mf_objects = map (\<lambda>ob. (ob, object_members ob)) ?obs, mf_centers = [V3 0 0 0], mf_alphas = [1],
    mf_canvasWidth = 50\<rparr> :: mesh_file"
  have "\<forall>c \<in> set [(sample_args, True), (sample_args, False), (sample_args\<lparr>a_mode := DRAWMODE_OUTLINE\<rparr>, True)].
      viewable (file_args ?f (fst c))"
    by (simp add: viewable_def file_args_def sample_args_def)
  moreover have "\<forall>ob \<in> set ?obs. object_ok ob" by (simp add: object_ok_def)
  moreover have "mf_objects ?f = map (\<lambda>ob. (ob, object_members ob)) ?obs" by (rule mesh_file.select_convs(1))
  ultimately show ?thesis using frames_sound [of _ ?f ?obs] by blast
qed

end
