(* ===== verification/LoadedScene.thy ===== *)
theory LoadedScene
  imports V3dWriter ManagerRender MeshFrames
begin

text \<open>
  The stages of the program put together: the bytes of a file are loaded (\<open>V3dFile\<close>), the manager
  projects the model and takes the bounds of the scene (\<open>ManagerRender\<close>), and the objects of the
  file queue their meshes (\<open>Mesh\<close>). The first section shows that whatever the loader stores has the
  number of points and colours that \<open>QueueMesh\<close> reads; the second one builds the arguments of
  \<open>QueueMesh\<close> as \<open>RenderModel\<close> does. Then every file whose scene has an extent can be rendered any
  number of times, while a scene without one makes the subdivision run forever.
\<close>

section \<open>What is loaded has the right sizes\<close>

lemma tracks_read_n_length: "tracks (read_n n r) (\<lambda>s xs s'. length xs = n)"
proof (induction n)
  case (Suc n)
  have step: "tracks (do { xs \<leftarrow> read_n n r; State_Monad.return (x # xs) }) (\<lambda>s xs s'. length xs = Suc n)" for x
    by (rule tracks_seq [OF Suc]) (simp add: tracks_return)
  show ?case unfolding read_n.simps by (rule tracks_seq [OF tracks_any]) (rule step)
qed (simp add: tracks_return)

lemma tracks_points:
  assumes "\<And>p ci mi. length p = n \<Longrightarrow> Q (C p ci mi)"
  shows "tracks (read_points_ci_mi n C dp) (\<lambda>s ob s'. Q ob)"
  unfolding read_points_ci_mi_def
  by (intro tracks_seq [OF tracks_read_n_length] tracks_seq [OF tracks_any] tracks_return assms)

lemma tracks_points_colors:
  assumes "\<And>p ci mi cs. length p = n \<Longrightarrow> length cs = k \<Longrightarrow> Q (C p ci mi cs)"
  shows "tracks (read_points_ci_mi_colors n k C dp) (\<lambda>s ob s'. Q ob)"
  unfolding read_points_ci_mi_colors_def
  by (rule tracks_seq [OF tracks_read_n_length], rule tracks_seq [OF tracks_any], rule tracks_seq [OF tracks_any],
      rule tracks_seq [OF tracks_read_n_length], rule tracks_return, rule assms)

lemma ctor_sizes:
  "tracks (ctor_BezierPatch dp) (\<lambda>s ob s'. sizes_ok ob)" "tracks (ctor_BezierTriangle dp) (\<lambda>s ob s'. sizes_ok ob)"
  "tracks (ctor_BezierPatchWithCornerColors dp) (\<lambda>s ob s'. sizes_ok ob)"
  "tracks (ctor_BezierTriangleWithCornerColors dp) (\<lambda>s ob s'. sizes_ok ob)"
  "tracks (ctor_StraightPlanarQuad dp) (\<lambda>s ob s'. sizes_ok ob)"
  "tracks (ctor_StraightTriangle dp) (\<lambda>s ob s'. sizes_ok ob)"
  "tracks (ctor_StraightPlanarQuadWithCornerColors dp) (\<lambda>s ob s'. sizes_ok ob)"
  "tracks (ctor_StraightTriangleWithCornerColors dp) (\<lambda>s ob s'. sizes_ok ob)"
  "tracks (ctor_BezierCurve dp) (\<lambda>s ob s'. sizes_ok ob)" "tracks (ctor_LineSegment dp) (\<lambda>s ob s'. sizes_ok ob)"
  unfolding ctor_points_defs by (auto intro!: tracks_points tracks_points_colors)

lemma solid_sizes:
  "tracks (ctor_Sphere dp) (\<lambda>s ob s'. sizes_ok ob)" "tracks (ctor_HemiSphere dp) (\<lambda>s ob s'. sizes_ok ob)"
  "tracks (ctor_Disk dp) (\<lambda>s ob s'. sizes_ok ob)" "tracks (ctor_Cylinder dp) (\<lambda>s ob s'. sizes_ok ob)"
  "tracks (ctor_Tube dp) (\<lambda>s ob s'. sizes_ok ob)" "tracks (ctor_Pixel dp) (\<lambda>s ob s'. sizes_ok ob)"
  unfolding ctor_solid_defs
  by (intro tracks_seq [OF tracks_read_n_length] tracks_seq [OF tracks_any] tracks_return; simp)+

lemma group_sizes: "tracks (ctor_TriangleGroup dp) (\<lambda>s g s'. pred_option (\<lambda>g. sizes_ok (V3dTriangleGroup g)) g)"
proof -
  have tail: "length P = unat nP \<Longrightarrow>
      tracks (read_tg_tail dp nI nP P nN N eN nC) (\<lambda>s g s'. pred_option (\<lambda>g. sizes_ok (V3dTriangleGroup g)) g)"
    for nI nP P nN N eN nC
    unfolding read_tg_tail_def by (intro tracks_seq [OF tracks_any] tracks_if tracks_return) simp_all
  show ?thesis
    unfolding ctor_TriangleGroup_def Let_def
    apply (rule tracks_seq [OF tracks_any], rule tracks_seq [OF tracks_any], rule tracks_if)
     apply (rule tracks_return, simp)
    apply (rule tracks_seq [OF tracks_read_n_length], (rule tracks_seq [OF tracks_any])+)
    subgoal for nI nP P nN N eN nC
      using tail by (cases nC) (simp_all only: option.case, rule tracks_return, simp)
    done
qed

definition file_sizes :: "V3dFile_data \<Rightarrow> bool" where
  "file_sizes f \<longleftrightarrow> list_all sizes_ok (objects f)"

lemma push_object_sizes:
  assumes "file_sizes f" and "tracks c (\<lambda>s ob s'. sizes_ok ob)"
  shows "tracks (push_object f c) (\<lambda>s r s'. pred_option (file_sizes \<circ> fst) r)"
  unfolding push_object_def
  by (rule tracks_seq [OF assms(2)], rule tracks_return) (use assms(1) in \<open>simp add: file_sizes_def\<close>)

lemma push_group_sizes:
  assumes "file_sizes f"
  shows "tracks (push_group f dp) (\<lambda>s r s'. pred_option (file_sizes \<circ> fst) r)"
  unfolding push_group_def
  by (rule tracks_seq [OF group_sizes], rule tracks_return)
    (use assms in \<open>auto simp: file_sizes_def option.pred_map comp_def pred_option_def split: option.splits\<close>)

lemma same_objects_sizes:
  assumes "file_sizes f" and "tracks r (\<lambda>s a s'. objects (fst a) = objects f \<and> materials (fst a) = materials f)"
  shows "tracks (do { a \<leftarrow> r; State_Monad.return (Some a) }) (\<lambda>s r s'. pred_option (file_sizes \<circ> fst) r)"
  by (rule tracks_seq [OF assms(2)], rule tracks_return) (use assms(1) in \<open>simp add: file_sizes_def\<close>)

lemma load_switch_sizes:
  assumes "file_sizes f"
  shows "tracks (load_switch version dp f t) (\<lambda>s r s'. pred_option (file_sizes \<circ> fst) r)"
proof -
  have skip: "tracks (State_Monad.return (Some (f, False))) (\<lambda>s r s'. pred_option (file_sizes \<circ> fst) r)"
    by (rule tracks_return) (simp add: assms)
  have material: "tracks (do { r \<leftarrow> load_MATERIAL version f; State_Monad.return (Some r) })
      (\<lambda>s r s'. pred_option (file_sizes \<circ> fst) r)"
    unfolding load_MATERIAL_def
    by (rule tracks_seq [where P = "file_sizes \<circ> fst"], rule tracks_seq [OF tracks_any], rule tracks_return)
      (use assms in \<open>auto simp: file_sizes_def intro!: tracks_return\<close>)
  note intros = skip material push_group_sizes [OF assms] push_object_sizes [OF assms] same_objects_sizes [OF assms]
    load_CENTERS_items load_HEADER_items ctor_sizes solid_sizes
  show ?thesis
  proof (cases t)
    case None
    then show ?thesis unfolding load_switch_def by (simp only: option.case skip)
  next
    case (Some ty)
    then show ?thesis
      unfolding load_switch_def
      by (cases ty; simp only: option.case ObjectTypes.case; intro intros)
  qed
qed

lemma load_loop_sizes:
  "load_loop v dp f s = (r, s') \<Longrightarrow> file_sizes f \<Longrightarrow> pred_option file_sizes r"
proof (induction v dp f s rule: load_loop.induct)
  case (1 v dp f s)
  obtain c s1 where c: "run_state read_uint32 s = (c, s1)" by fastforce
  show ?case
  proof (cases "c = None \<or> \<not> xios_good s1")
    case True
    with "1.prems" c show ?thesis
      by (subst (asm) load_loop.simps) (auto split: option.splits)
  next
    case False
    then obtain code where code: "c = Some code" and good: "xios_good s1" by auto
    obtain q s2 where q: "run_state (load_switch v dp f (object_of_code code)) s1 = (q, s2)" by fastforce
    have sizes: "pred_option (file_sizes \<circ> fst) q" by (rule tracksD [OF load_switch_sizes [OF "1.prems"(2)] q])
    consider "q = None" | g where "q = Some (g, True)" | g where "q = Some (g, False)" by (cases q) auto
    then show ?thesis
    proof cases
      case (3 g)
      with "1.prems" c code good q have rest: "load_loop v dp g s2 = (r, s')"
        by (subst (asm) load_loop.simps) auto
      from "1.IH" [OF c [symmetric] code _ q [symmetric] 3 refl _ rest] good sizes 3 show ?thesis by simp
    qed (use sizes "1.prems" c code good q in \<open>subst (asm) load_loop.simps, auto\<close>)+
  qed
qed

lemma V3dFile_of_mem_sizes: "V3dFile_of_mem bs = Some f \<Longrightarrow> list_all sizes_ok (objects f)"
proof -
  assume f: "V3dFile_of_mem bs = Some f"
  obtain r s' where l: "load (memixstream bs) = (r, s')" by fastforce
  have init: "file_sizes (V3dFile_init\<lparr>versionNumber := v\<rparr>)"
    "file_sizes (V3dFile_init\<lparr>versionNumber := v, doublePrecisionFlag := d\<rparr>)" for v d
    by (simp_all add: file_sizes_def V3dFile_init_def)
  from l have "pred_option file_sizes r"
  proof (cases rule: load_cases)
    case (loop v s1 dp s2)
    then show ?thesis using load_loop_sizes init(2) by blast
  qed (simp_all add: init)
  with f l show ?thesis by (simp add: V3dFile_of_mem_def file_sizes_def)
qed

section \<open>The objects over real numbers\<close>

lemma those_length: "those xs = Some ys \<Longrightarrow> length ys = length xs"
  by (induction xs arbitrary: ys) (auto split: option.splits)

lemma those_map_all: "those (map f xs) = Some ys \<Longrightarrow> list_all (\<lambda>x. f x \<noteq> None) xs"
  by (induction xs arbitrary: ys) (auto split: option.splits)

lemma real_points_length: "real_points p = Some q \<Longrightarrow> length q = length p"
  by (auto simp: real_points_def dest: those_length)

lemma mesh_group_ok:
  assumes "mesh_group tg = Some tg'" and "length (tg_positions tg) = unat (tg_nP tg)"
  shows "length (tg_positions tg') = unat (tg_nP tg')" and "list_all (\<lambda>c. rgba_real c \<noteq> None) (tg_colors tg')"
  using assms
  by (cases tg; auto simp: bind_eq_Some_conv dest!: real_points_length those_map_all)+

lemma mesh_object_of_ok:
  assumes "mesh_object_of ob = Some ob'" and "sizes_ok ob"
  shows "object_ok ob'"
  using assms
  by (cases ob) (auto simp: object_ok_def bind_eq_Some_conv mesh_group_ok(1) mesh_group_ok(2) [unfolded not_None_eq] dest!: those_length real_points_length)

section \<open>Rendering the frames of a model\<close>

text \<open>The arguments and globals that \<open>RenderModel\<close> passes to \<open>QueueMesh\<close>: the product of the matrices of
  the model, the inverse of its view for the billboards, the size of the image and the bounds of the
  scene. \<open>ptr\<close> gives the entries of a matrix in memory and \<open>nrm\<close> is \<open>glm::normalize\<close>.\<close>

definition frame_args :: "'m glm \<Rightarrow> ('m \<Rightarrow> nat \<Rightarrow> real) \<Rightarrow> ('m \<Rightarrow> nat \<Rightarrow> real) \<Rightarrow> (triple \<Rightarrow> triple) \<Rightarrow> int \<Rightarrow> int \<Rightarrow>
    'm V3dModel \<Rightarrow> mesh_args option" where
  "frame_args G ptr ptr3 nrm w h x =
     Option.bind (projMat x) (\<lambda>P. Option.bind (viewMat x) (\<lambda>V.
       Some \<lparr>a_pv = ptr (g_mult G P V), a_BBT = ptr3 (g_inverse G V), a_normalize = nrm,
         a_width = w, a_height = h, a_min = fst (scene_bounds x), a_max = snd (scene_bounds x),
         a_ortho = sOrtho (mFile x), a_mode = drawMode x, a_alphas = [], a_pixelsPerBp = 1\<rparr>))"

text \<open>A request: a model with its view, draw mode and \<open>remesh\<close> flag, and the size of the image.\<close>

fun render_frames :: "'m glm \<Rightarrow> ('m \<Rightarrow> nat \<Rightarrow> real) \<Rightarrow> ('m \<Rightarrow> nat \<Rightarrow> real) \<Rightarrow> (triple \<Rightarrow> triple) \<Rightarrow>
    ('m V3dModel \<times> int \<times> int) list \<Rightarrow> mesh_file \<times> render_globals \<Rightarrow> (mesh_file \<times> render_globals) option" where
  "render_frames G ptr ptr3 nrm [] st = Some st"
| "render_frames G ptr ptr3 nrm ((x, w, h) # rs) st =
     Option.bind (frame_args G ptr ptr3 nrm w h x) (\<lambda>a.
       Option.bind (mesh_frame (a, remesh x) st) (render_frames G ptr ptr3 nrm rs))"

text \<open>A scene with an extent: its box is not flat in both \<open>x\<close> and \<open>y\<close>, and in perspective it does not
  touch the plane of the camera.\<close>

definition has_extent :: "scene_info \<Rightarrow> bool" where
  "has_extent sc \<longleftrightarrow> (v3x (sMin sc) \<noteq> v3x (sMax sc) \<or> v3y (sMin sc) \<noteq> v3y (sMax sc)) \<and>
     (sOrtho sc \<or> v3z (sMin sc) \<noteq> 0 \<and> v3z (sMax sc) \<noteq> 0)"

lemma scene_bounds_viewable:
  assumes "has_extent (mFile x)" and "frame_args G ptr ptr3 nrm w h x = Some a" and "w > 0"
  shows "viewable (file_args f a)"
proof -
  obtain mn mx where b: "scene_bounds x = (mn, mx)" by fastforce
  have "(v3x mn \<noteq> v3x mx \<or> v3y mn \<noteq> v3y mx) \<and> v3z mn = v3z (sMin (mFile x)) \<and> v3z mx = v3z (sMax (mFile x))"
    using b assms(1) by (auto simp: scene_bounds_def has_extent_def Let_def split: if_splits)
  moreover have "real (unat (mf_canvasWidth f)) \<noteq> 0" if "mf_canvasWidth f > 0"
    using that unfolding word_less_nat_alt of_nat_eq_0_iff by simp
  ultimately show ?thesis
    using assms b by (auto simp: frame_args_def viewable_def file_args_def has_extent_def bind_eq_Some_conv)
qed

lemma render_frames_mesh:
  assumes "\<forall>(x, w, h) \<in> set rs. has_extent (mFile x) \<and> w > 0 \<and> projMat x \<noteq> None \<and> viewMat x \<noteq> None"
  shows "\<exists>cs. (\<forall>c \<in> set cs. viewable (file_args f (fst c))) \<and>
    render_frames G ptr ptr3 nrm rs = mesh_frames cs"
  using assms
proof (induction rs)
  case Nil
  have "render_frames G ptr ptr3 nrm [] = mesh_frames []" by (rule ext) simp
  then show ?case by (intro exI [of _ "[]"]) simp
next
  case (Cons r rs)
  obtain x w h where r: "r = (x, w, h)" by (cases r)
  obtain cs where cs: "\<forall>c \<in> set cs. viewable (file_args f (fst c))"
    "render_frames G ptr ptr3 nrm rs = mesh_frames cs" using Cons by auto
  obtain a where a: "frame_args G ptr ptr3 nrm w h x = Some a"
    using Cons.prems by (auto simp: r frame_args_def)
  have v: "viewable (file_args f a)"
    by (rule scene_bounds_viewable [OF _ a]) (use Cons.prems in \<open>auto simp: r\<close>)
  have "render_frames G ptr ptr3 nrm (r # rs) = mesh_frames ((a, remesh x) # cs)"
    by (rule ext) (simp add: r a cs(2))
  with cs(1) v show ?case by (intro exI [of _ "(a, remesh x) # cs"]) simp
qed

lemma mesh_objects_ok:
  "those (map mesh_object_of obs) = Some obs' \<Longrightarrow> list_all sizes_ok obs \<Longrightarrow> list_all object_ok obs'"
  by (induction obs arbitrary: obs') (auto split: option.splits intro: mesh_object_of_ok)

lemma mesh_file_of_ok:
  assumes "V3dFile_of_mem bs = Some f" and "mesh_file_of f = Some mf"
  shows "file_ok mf"
proof -
  obtain obs where obs: "those (map mesh_object_of (objects f)) = Some obs"
    and mf: "mf_objects mf = map (\<lambda>ob. (ob, object_members ob)) obs"
    using assms(2) by (auto simp: mesh_file_of_def bind_eq_Some_conv)
  have "list_all object_ok obs" using mesh_objects_ok [OF obs V3dFile_of_mem_sizes [OF assms(1)]] .
  then show ?thesis by (simp add: file_ok_def mf list_all_iff pair_ok_def object_members_ok)
qed

text \<open>C4: from the bytes of a file to the vertex buffers: whatever the file holds, if it loads, its
  members are finite numbers and its scene has an extent, then every sequence of render requests, at
  any positive widths and with any views, draw modes and \<open>remesh\<close> flags of the model, lets all its
  objects queue their meshes without an error and without running forever; the objects stay those
  of the file, and every index in the buffers refers to a vertex.\<close>

theorem loaded_frames_sound:
  assumes "V3dFile_of_mem bs = Some f" and "mesh_file_of f = Some mf"
    and "scene_of (headerInfo f) = Some sc" and "has_extent sc"
    and "\<forall>(x, w, h) \<in> set rs. mFile x = sc \<and> w > 0 \<and> projMat x \<noteq> None \<and> viewMat x \<noteq> None"
  shows "\<exists>mf' g'. render_frames G ptr ptr3 nrm rs (mf, empty_globals) = Some (mf', g') \<and>
    map fst (mf_objects mf') = map fst (mf_objects mf) \<and> globals_sound g'"
proof -
  obtain cs where cs: "\<forall>c \<in> set cs. viewable (file_args mf (fst c))"
    "render_frames G ptr ptr3 nrm rs = mesh_frames cs"
    using render_frames_mesh [of rs mf G ptr ptr3 nrm] assms(4,5) by fastforce
  have "globals_sound empty_globals" by (simp add: globals_sound_def empty_globals_def)
  from mesh_frames_sound [OF cs(1) mesh_file_of_ok [OF assms(1,2)] this] show ?thesis
    unfolding cs(2) by blast
qed

definition sample_box :: scene where
  "sample_box = sample_scene\<lparr>Xmax_Ymax_Zmax := V3 f64_1 f64_1 f64_1\<rparr>"

definition sample_view :: "'m glm \<Rightarrow> scene_info \<Rightarrow> 'm V3dModel" where
  "sample_view G sc = V3dModel_new G sc (V2 0 0) (V2 1 1)"

lemma f64_values: "f64_real 0 = Some 0" "f64_real f64_1 = Some 1"
  by (simp_all add: f64_real_def f64_1_def Let_def)

lemma sample_box_scene:
  "scene_ok sample_box"
  "scene_of (header_back False sample_box) = Some \<lparr>sMin = V3 0 0 0, sMax = V3 1 1 1, sOrtho = True, sAngle = 0,
     sZoom = 1, sShift = V2 0 0, sZoomStep = 1, sZoomFactor = 1, sCanvas = V2 640 480,
     sImageName = imageName (header_back False sample_box), sBackground = background (header_back False sample_box)\<rparr>"
  by (simp_all add: sample_box_def sample_scene_def scene_ok_def kMaxImageName_def header_back_def scene_of_def
      back3_def trip_def real_of_cell_def f64_values flag_def)

theorem loaded_frames_sound_witness:
  "\<exists>f mf mf' g'. V3dFile_of_mem (export False sample_box
       [AddSphere \<lparr>centerIndex = 0, materialIndex = 0\<rparr> (V3 f64_1 0 0) f64_1,
        AddStraightBezierTriangle \<lparr>centerIndex = 0, materialIndex = 0\<rparr> [V3 0 0 0, V3 f64_1 0 0, V3 0 f64_1 0] None] []) = Some f \<and>
     mesh_file_of f = Some mf \<and> length (mf_objects mf) = 2 \<and>
     (\<exists>sc. scene_of (headerInfo f) = Some sc \<and>
       render_frames unit_glm (\<lambda>_ _. 1) (\<lambda>_ _. 1) (\<lambda>v. v)
         [(sample_view unit_glm sc, 100, 80), ((sample_view unit_glm sc)\<lparr>remesh := False\<rparr>, 100, 80)]
         (mf, empty_globals) = Some (mf', g') \<and> globals_sound g')"
proof -
  let ?ops = "[AddSphere \<lparr>centerIndex = 0, materialIndex = 0\<rparr> (V3 f64_1 0 0) f64_1,
    AddStraightBezierTriangle \<lparr>centerIndex = 0, materialIndex = 0\<rparr> [V3 0 0 0, V3 f64_1 0 0, V3 0 f64_1 0] None]"
  let ?f = "\<lparr>versionNumber = Some 2, doublePrecisionFlag = Some (flag True), centers = [], materials = [],
    objects = concat (map (readback False) ?ops), headerInfo = header_back False sample_box\<rparr>"
  let ?obs = "[V3dSphere (V3 1 0 0) 1 0 0, V3dStraightTriangle [V3 0 0 0, V3 1 0 0, V3 0 1 0] 0 0] :: mesh_object list"
  let ?mf = "\<lparr>mf_objects = map (\<lambda>ob. (ob, object_members ob)) ?obs, mf_centers = [], mf_alphas = [], mf_canvasWidth = 640\<rparr>"
  obtain sc where sc: "scene_of (headerInfo ?f) = Some sc" "has_extent sc"
    using sample_box_scene(2) by (simp add: has_extent_def)
  have f: "V3dFile_of_mem (export False sample_box ?ops []) = Some ?f"
    by (subst export_load [OF sample_box_scene(1)]) (simp_all add: kMaxCenters_def)
  have mf: "mesh_file_of ?f = Some ?mf"
    by (simp add: mesh_file_of_def real_points_def back3_def trip_def real_of_cell_def f64_values header_back_def
        sample_box_def sample_scene_def)
  let ?x = "sample_view unit_glm sc"
  have "\<forall>(x, w, h) \<in> set [(?x, 100, 80), (?x\<lparr>remesh := False\<rparr>, 100, 80)].
      mFile x = sc \<and> (w :: int) > 0 \<and> projMat x \<noteq> None \<and> viewMat x \<noteq> None"
    by (simp add: sample_view_def V3dModel_new_def initProjection_def Let_def)
  from loaded_frames_sound [OF f mf sc this] f mf sc(1) show ?thesis by fastforce
qed

section \<open>A scene without extent\<close>

text \<open>The points that are projected into the window, in front of the camera. Subdivision does not leave
  them, as it only takes midpoints.\<close>

definition visible :: "(nat \<Rightarrow> real) \<Rightarrow> triple \<Rightarrow> bool" where
  "visible t v \<longleftrightarrow>
     (let w = t 3 * v3x v + t 7 * v3y v + t 11 * v3z v + t 15
      in 0 < w \<and> \<bar>t 0 * v3x v + t 4 * v3y v + t 8 * v3z v + t 12\<bar> \<le> w \<and>
         \<bar>t 1 * v3x v + t 5 * v3y v + t 9 * v3z v + t 13\<bar> \<le> w)"

lemma visible_mid:
  assumes "visible t a" and "visible t b"
  shows "visible t ((1 / 2) *\<^sub>R (a + b))"
proof -
  have lin: "i * v3x ((1 / 2) *\<^sub>R (a + b)) + j * v3y ((1 / 2) *\<^sub>R (a + b)) + k * v3z ((1 / 2) *\<^sub>R (a + b)) + l =
      ((i * v3x a + j * v3y a + k * v3z a + l) + (i * v3x b + j * v3y b + k * v3z b + l)) / 2" for i j k l
    by (simp add: field_simps)
  have half: "\<bar>(x + y) / 2\<bar> \<le> (u + v) / 2" if "\<bar>x\<bar> \<le> u" "\<bar>y\<bar> \<le> v" for x y u v :: real
    using that abs_triangle_ineq [of x y] by simp
  show ?thesis using assms unfolding visible_def Let_def lin by (blast intro: half half_gt_zero add_pos_pos)
qed

lemma visible_onscreen:
  assumes "visible t v" and "v \<in> set vs"
  shows "\<not> bbox2_offscreen (bbox2_points t vs)"
proof -
  let ?in = "\<lambda>B v. b2x B \<le> v2x (Transform2T t v) \<and> v2x (Transform2T t v) \<le> b2X B \<and>
    b2y B \<le> v2y (Transform2T t v) \<and> v2y (Transform2T t v) \<le> b2Y B"
  have keep: "?in (bbox2_bounds t u B) v" if "?in B v" for u v B
    using that by (auto simp: bbox2_bounds_def Let_def)
  have new: "?in (bbox2_bounds t u B) u" if "b2x B \<le> b2X B" "b2y B \<le> b2Y B" for u B
    using that by (auto simp: bbox2_bounds_def Let_def)
  have fold: "?in (fold (bbox2_bounds t) us B) v" if "?in B u" "?in B v \<or> v \<in> set us" for us u v B
    using that
  proof (induction us arbitrary: B)
    case (Cons a us)
    have "b2x B \<le> b2X B" "b2y B \<le> b2Y B" using Cons.prems(1) by linarith+
    then have "?in (bbox2_bounds t a B) a" by (rule new)
    then have "?in (bbox2_bounds t a B) v \<or> v \<in> set us" using Cons.prems(2) keep by auto
    from Cons.IH [OF keep [OF Cons.prems(1)] this] show ?case by simp
  qed simp
  obtain u us where vs: "vs = u # us" using assms(2) by (cases vs) auto
  have "?in (bbox2_Bounds t u) u" by (simp add: bbox2_Bounds_def Let_def)
  then have "?in (bbox2_points t vs) v"
    unfolding bbox2_points_def vs list.sel
    by (rule fold) (use assms(2) in \<open>auto simp: vs bbox2_Bounds_def Let_def\<close>)
  moreover have "\<bar>v2x (Transform2T t v)\<bar> \<le> 1" "\<bar>v2y (Transform2T t v)\<bar> \<le> 1"
    using assms(1) by (auto simp: visible_def Transform2T_def Let_def abs_mult divide_le_eq)
  ultimately show ?thesis unfolding bbox2_offscreen_def Let_def by linarith
qed

lemma Split_visible:
  assumes "visible t a" "visible t b" "visible t c" "visible t d"
  shows "visible t (s_m0 (Split_new a b c d))" "visible t (s_m3 (Split_new a b c d))"
    "visible t (s_m5 (Split_new a b c d))" "visible t (s_m4 (Split_new a b c d))" "visible t (s_m2 (Split_new a b c d))"
  using assms by (simp_all add: Split_new_def Let_def visible_mid)

definition all_visible :: "(nat \<Rightarrow> real) \<Rightarrow> triple list \<Rightarrow> bool" where
  "all_visible t p \<longleftrightarrow> length p = 16 \<and> list_all (visible t) p"

lemma all_visible_nth: "all_visible t p \<Longrightarrow> k < 16 \<Longrightarrow> visible t (p ! k)"
  by (simp add: all_visible_def list_all_length)

lemma split_visible:
  assumes "all_visible t p"
  shows "all_visible t (fst (split_vertically p))" and "all_visible t (fst (split_horizontally p))"
  using all_visible_nth [OF assms]
  by (simp_all add: split_vertically_def split_horizontally_def Let_def Split_visible all_visible_def)

lemma patch_Distance_nonneg: "0 \<le> fst (patch_Distance p)" "0 \<le> snd (patch_Distance p)"
proof -
  have "0 \<le> abs2 v" for v by (simp add: abs2_def)
  then have "0 \<le> Straightness a b c d" for a b c d by (simp add: Straightness_def Let_def le_max_iff_disj)
  then show "0 \<le> fst (patch_Distance p)" "0 \<le> snd (patch_Distance p)"
    by (simp_all add: patch_Distance_def Let_def le_max_iff_disj)
qed

text \<open>Each of the three ways to subdivide puts a visible piece first and keeps the resolution.\<close>

fun first_piece :: "'c pieces \<Rightarrow> 'c option" where
  "first_piece Done = None"
| "first_piece (Two x y) = Some x"
| "first_piece (Four x y z w) = Some x"

lemma subdivided_visible:
  assumes p: "all_visible t (pts c)"
    and s: "patch_vertical T C mi c b = (b', ps) \<or> patch_horizontal T C mi c b = (b', ps) \<or> patch_both T C mi c b = (b', ps)"
  shows "bp_res2 b' = bp_res2 b \<and> (\<exists>x. first_piece ps = Some x \<and> all_visible t (pts x))"
  using s
proof (elim disjE)
  assume "patch_vertical T C mi c b = (b', ps)"
  then show ?thesis
  proof (rule patch_vertical_cases)
    fix s0 s1 f1 f3 m0 m1 n0 n1 c0 c1 i0 i1 b1
    assume a: "add_corner T C mi m0 n0 c0 b = (i0, b1)" "add_corner T C mi m1 n1 c1 b1 = (i1, b')"
      and "split_vertically (pts c) = (s0, s1)"
      and "ps = Two (patch_call s0 (k0 c) (k1 c) i0 i1 (flat0 c) f1 False f3)
        (patch_call s1 i1 i0 (k2 c) (k3 c) False f1 (flat2 c) f3)"
    with split_visible(1) [OF p] added_res2 [OF two_corners(1) [OF a]] show ?thesis by simp
  qed
next
  assume "patch_horizontal T C mi c b = (b', ps)"
  then show ?thesis
  proof (rule patch_horizontal_cases)
    fix s0 s1 f0 f2 m0 m1 n0 n1 c0 c1 i0 i1 b1
    assume a: "add_corner T C mi m0 n0 c0 b = (i0, b1)" "add_corner T C mi m1 n1 c1 b1 = (i1, b')"
      and "split_horizontally (pts c) = (s0, s1)"
      and "ps = Two (patch_call s0 (k0 c) i0 i1 (k3 c) f0 False f2 (flat3 c))
        (patch_call s1 i0 (k1 c) (k2 c) i1 f0 (flat1 c) f2 False)"
    with split_visible(2) [OF p] added_res2 [OF two_corners(1) [OF a]] show ?thesis by simp
  qed
next
  assume "patch_both T C mi c b = (b', ps)"
  then show ?thesis
  proof (rule patch_both_cases)
    fix s0 s1 s2 s3 f0 f1 f2 f3 m0 m1 m2 m3 m4 n0 n1 n2 n3 n4 c0 c1 c2 c3 c4 i0 i1 i2 i3 i4 b1 b2 b3 b4
    assume a: "add_corner T C mi m0 n0 c0 b = (i0, b1)" "add_corner T C mi m1 n1 c1 b1 = (i1, b2)"
      "add_corner T C mi m2 n2 c2 b2 = (i2, b3)" "add_corner T C mi m3 n3 c3 b3 = (i3, b4)"
      "add_corner T C mi m4 n4 c4 b4 = (i4, b')"
      and s: "split_both (pts c) = (s0, s1, s2, s3)"
      and ps: "ps = Four (patch_call s0 (k0 c) i0 i4 i3 f0 False False f3)
        (patch_call s1 i0 (k1 c) i1 i4 f0 f1 False False)
        (patch_call s2 i4 i1 (k2 c) i2 False f1 f2 False)
        (patch_call s3 i3 i4 i2 (k3 c) False False f2 f3)"
    have "s0 = fst (split_horizontally (fst (split_vertically (pts c))))"
      using s by (simp add: split_both_eq split: prod.splits)
    with split_visible(2) [OF split_visible(1) [OF p]] ps added_res2 [OF five_corners(1) [OF a]] show ?thesis by simp
  qed
qed

lemma render_calls_diverges:
  assumes "render_calls (patch_step t T C mi) c b = Some b'" and "all_visible t (pts c)" and "bp_res2 b = 0"
  shows False
  using assms
proof (induction "patch_step t T C mi" c b b' rule: render_calls.raw_induct [rotated, consumes 1])
  case (1 rec c b b')
  obtain b1 ps where s: "patch_step t T C mi c b = (b1, ps)" by fastforce
  from s show False
  proof (cases rule: patch_step_cases)
    case flat
    with 1(4) patch_Distance_nonneg(1) [of "pts c"] show False by simp
  next
    case off
    have "pts c \<noteq> []" using 1(3) by (auto simp: all_visible_def)
    with 1(3) have "visible t (hd (pts c))" "hd (pts c) \<in> set (pts c)" by (auto simp: all_visible_def list_all_iff)
    from visible_onscreen [OF this] off show False by (simp add: patch_offscreen_def)
  next
    case (split b0)
    have "bp_res2 b0 = 0" using added_res2 [OF patch_offscreen_added [OF split(1)]] 1(4) by simp
    with subdivided_visible [OF 1(3)] split(2) obtain x where x: "bp_res2 b1 = 0" "first_piece ps = Some x"
      "all_visible t (pts x)" by metis
    with 1(2) obtain b2 where "rec (patch_step t T C mi) x b1 = Some b2"
      by (cases ps) (auto simp: s bind_eq_Some_conv)
    from 1(1) [OF this x(3,1)] show False .
  qed
qed

lemma patch_queue_diverges:
  assumes "all_visible t p"
  shows "BezierPatch_queue t p False 0 Tr cs (b, g) = None"
proof -
  obtain b0 g0 where init: "BezierPatch_init (pixelResolution * 0) (patch_notRendered (b\<lparr>bp_data := VertexBuffer_clear (bp_data b),
      bp_Onscreen := True, transparent := Tr, color := cs \<noteq> None\<rparr>, g)) = (b0, g0)" by fastforce
  have "bp_res2 (fst (BezierPatch_init (pixelResolution * 0) st)) = 0" for st
    by (cases st) (simp add: BezierPatch_init_def Let_def)
  from this [of "patch_notRendered _"] have res: "bp_res2 b0 = 0" using init by (metis fst_conv)
  let ?T = "transparent b0" and ?C = "color b0" and ?mi = "MaterialIndex g0" and ?e = "patch_epsilon p"
  let ?cs = "case cs of Some c \<Rightarrow> c | None \<Rightarrow> []"
  obtain i0 b1 where a0: "add_corner ?T ?C ?mi (p ! 0) (corner_normal ?e p at_bottom) (?cs ! 0) (b0\<lparr>epsilon := ?e\<rparr>) = (i0, b1)" by fastforce
  obtain i1 b2 where a1: "add_corner ?T ?C ?mi (p ! 12) (corner_normal ?e p at_right) (?cs ! 1) b1 = (i1, b2)" by fastforce
  obtain i2 b3 where a2: "add_corner ?T ?C ?mi (p ! 15) (corner_normal ?e p at_top) (?cs ! 2) b2 = (i2, b3)" by fastforce
  obtain i3 b4 where a3: "add_corner ?T ?C ?mi (p ! 3) (corner_normal ?e p at_left) (?cs ! 3) b3 = (i3, b4)" by fastforce
  have "BezierPatch_queue t p False 0 Tr cs (b, g) = map_option (\<lambda>b5. patch_append (b5, g0))
      (render_calls (patch_step t ?T ?C ?mi) (patch_call p i0 i1 i2 i3 False False False False) b4)"
    unfolding BezierPatch_queue_def patch_queue_def prod.case init BezierPatch_render_def Let_def a0 a1 a2 a3 if_False ..
  moreover have "bp_res2 b4 = 0"
    using added_res2 [OF three_corners(1) [OF a0 a1 a2]] added_res2 [OF add_corner_added(1) [OF a3 refl]] res by simp
  moreover have "all_visible t (pts (patch_call p i0 i1 i2 i3 False False False False))" using assms by simp
  ultimately show ?thesis using render_calls_diverges by (metis option.exhaust option.map_disc_iff)
qed

lemma flat_scene_ratio:
  assumes "frame_args G ptr ptr3 nrm w h x = Some a" and "w > 0" and "\<not> sOrtho (mFile x)"
    and "v3z (sMin (mFile x)) = 0" and "v3z (sMax (mFile x)) \<noteq> 0"
  shows "scene_ratio (file_args f a) = Some 0"
proof -
  obtain mn mx where b: "scene_bounds x = (mn, mx)" by fastforce
  then have "v3z mn = 0" "v3z mx \<noteq> 0" using assms(4,5) by (auto simp: scene_bounds_def Let_def split: if_splits)
  moreover have "hypot (real_of_int w) (real_of_int h) \<noteq> 0" using assms(2) by (simp add: hypot_def)
  ultimately show ?thesis
    using assms(1,3) b
    by (auto simp: frame_args_def bind_eq_Some_conv scene_ratio_def scene_scale_def mesh_ratio_def file_args_def Let_def)
qed

lemma queue_objects_diverge:
  assumes "(ob, x) \<in> set oxs" and "\<And>g. QueueMesh a ob rm (x, g) = None"
  shows "queue_objects a cs rm oxs g = None"
  using assms(1)
proof (induction oxs arbitrary: g)
  case (Cons ox oxs)
  then show ?case
    using assms(2) by (auto simp: queue_object_def bind_eq_None_conv)
qed simp

text \<open>C6: when the box of the scene touches the plane of the camera at its lower end, as the box
  that a file without a header has does, the resolution in perspective is 0: a Bezier patch all of whose
  control points are in the window is subdivided without end, and no frame of the file returns.\<close>

theorem flat_scene_diverges:
  assumes "frame_args G ptr ptr3 nrm w h x = Some a" and "w > 0" and "\<not> sOrtho (mFile x)"
    and "v3z (sMin (mFile x)) = 0" and "v3z (sMax (mFile x)) \<noteq> 0"
    and "drawMode x \<noteq> DRAWMODE_OUTLINE" and "remesh x"
    and "(V3dBezierPatch p ci mi, y) \<in> set (mf_objects f)" and "all_visible (a_pv a) p"
    and "\<not> box_offscreen a (mo_Min y) (mo_Max y)"
  shows "render_frames G ptr ptr3 nrm ((x, w, h) # rs) (f, g) = None"
proof -
  let ?a = "file_args f a"
  have a: "a_mode a = drawMode x" "a_pv ?a = a_pv a" "a_mode ?a = a_mode a"
    "box_offscreen ?a = box_offscreen a"
    using assms(1) by (auto simp: frame_args_def bind_eq_Some_conv file_args_def box_offscreen_def [abs_def])
  have "QueueMesh ?a (V3dBezierPatch p ci mi) True (y, g) = None" for g
    using assms(6,10) a flat_scene_ratio [OF assms(1-5)] patch_queue_diverges [OF assms(9)]
    by (simp add: V3dBezierPatch_QueueMesh_def bezier_QueueMesh_def Let_def)
  from queue_objects_diverge [OF assms(8) this] show ?thesis
    using assms(1,7) by (simp add: mesh_frame_def V3dFile_QueueMesh_def)
qed

theorem flat_scene_diverges_witness:
  "\<exists>sc. scene_of V3dHeaderInfo_init = Some sc \<and>
     render_frames unit_glm (\<lambda>_ i. if i = 15 then 1 else 0) (\<lambda>_ _. 0) (\<lambda>v. v) [(sample_view unit_glm sc, 500, 500)]
       (\<lparr>mf_objects = [(V3dBezierPatch (replicate 8 (V3 0 0 0) @ replicate 8 (V3 1 1 1)) 0 0,
           object_members (V3dBezierPatch (replicate 8 (V3 0 0 0) @ replicate 8 (V3 1 1 1)) 0 0))],
         mf_centers = [], mf_alphas = [], mf_canvasWidth = 500\<rparr>, empty_globals) = None"
proof -
  let ?pv = "\<lambda>i :: nat. if i = 15 then 1 else 0 :: real"
  let ?p = "replicate 8 (V3 0 0 (0 :: real)) @ replicate 8 (V3 1 1 1)"
  let ?y = "object_members (V3dBezierPatch ?p 0 0)"
  let ?f = "\<lparr>mf_objects = [(V3dBezierPatch ?p 0 0, ?y)], mf_centers = [], mf_alphas = [], mf_canvasWidth = 500\<rparr>"
  obtain sc where sc: "scene_of V3dHeaderInfo_init = Some sc" "\<not> sOrtho sc" "v3z (sMin sc) = 0" "v3z (sMax sc) \<noteq> 0"
    by (simp add: scene_of_def V3dHeaderInfo_init_def real_of_cell_def f64_real_def f64_0_def f64_1_def f64_100_def
        f64_radians45_def Let_def)
  let ?x = "sample_view unit_glm sc"
  have x: "mFile ?x = sc" "drawMode ?x \<noteq> DRAWMODE_OUTLINE" "remesh ?x" "projMat ?x = Some ()" "viewMat ?x = Some ()"
    by (simp_all add: sample_view_def V3dModel_new_def initProjection_def unit_glm_def Let_def)
  obtain a where a: "frame_args unit_glm (\<lambda>_. ?pv) (\<lambda>_ _. 0) (\<lambda>v. v) 500 500 ?x = Some a" "a_pv a = ?pv"
    using x by (auto simp: frame_args_def)
  have v: "visible ?pv q" for q by (simp add: visible_def)
  have "all_visible ?pv ?p" using v by (simp add: all_visible_def list_all_iff)
  moreover have "\<not> box_offscreen a (mo_Min ?y) (mo_Max ?y)"
    unfolding box_offscreen_def bbox2_box_def a(2) box_corners_def
    by (rule visible_onscreen [OF v list.set_intros(1)])
  ultimately have "render_frames unit_glm (\<lambda>_. ?pv) (\<lambda>_ _. 0) (\<lambda>v. v) [(?x, 500, 500)] (?f, empty_globals) = None"
    using x sc a by (intro flat_scene_diverges [OF a(1)]) auto
  with sc(1) show ?thesis by blast
qed

end
