(* ===== verification/MeshCache.thy ===== *)
theory MeshCache
  imports MeshFrames
begin

text \<open>
  The cached meshes: what a frame without re-tessellation does with an object that was fully on the
  screen in the frame before. Bezier and straight objects, and triangle groups without colours, put
  the same data into the same buffers again. Curves do not: \<open>V3dBezierCurve::QueueMesh\<close> caches the
  lines of the curve and later appends them to the buffer of the triangles. Nor do triangle groups
  that are transparent only by the colours of their vertices.
\<close>

section \<open>Buffers that hold the same\<close>

definition buffer_same :: "VertexBuffer \<Rightarrow> VertexBuffer \<Rightarrow> bool" where
  "buffer_same d d' \<longleftrightarrow> d\<lparr>renderCount := 0\<rparr> = d'\<lparr>renderCount := 0\<rparr>"

definition same_data :: "render_globals \<Rightarrow> render_globals \<Rightarrow> bool" where
  "same_data g g' \<longleftrightarrow> buffer_same (materialData g) (materialData g') \<and> buffer_same (colorData g) (colorData g') \<and>
     buffer_same (triangleData g) (triangleData g') \<and> buffer_same (transparentData g) (transparentData g') \<and>
     buffer_same (pointData g) (pointData g') \<and> buffer_same (lineData g) (lineData g')"

lemma buffer_same_simps [simp]:
  "buffer_same d d"
  "buffer_same (d\<lparr>renderCount := n\<rparr>) d' \<longleftrightarrow> buffer_same d d'"
  "buffer_same d (d'\<lparr>renderCount := n\<rparr>) \<longleftrightarrow> buffer_same d d'"
  by (simp_all add: buffer_same_def)

lemma buffer_same_extend:
  assumes "buffer_same d d'"
  shows "buffer_same (extendMaterial b d) (extendMaterial b d')" "buffer_same (extendColor b d) (extendColor b d')"
    "buffer_same (extendPoint b d) (extendPoint b d')"
  using assms
  by (cases d; cases d'; simp add: buffer_same_def extendMaterial_def extendColor_def extendPoint_def)+

lemma same_data_refl [simp]: "same_data g g"
  by (simp add: same_data_def)

lemma same_data_left:
  "same_data (set_material mi g) g' \<longleftrightarrow> same_data g g'" "same_data (reset_transparent g) g' \<longleftrightarrow> same_data g g'"
  "same_data (reset_material g) g' \<longleftrightarrow> same_data g g'" "same_data (reset_color g) g' \<longleftrightarrow> same_data g g'"
  by (simp_all add: same_data_def set_material_def reset_transparent_def reset_material_def reset_color_def)

lemma same_data_right:
  "same_data g' (set_material mi g) \<longleftrightarrow> same_data g' g" "same_data g' (reset_transparent g) \<longleftrightarrow> same_data g' g"
  "same_data g' (reset_material g) \<longleftrightarrow> same_data g' g" "same_data g' (reset_color g) \<longleftrightarrow> same_data g' g"
  by (simp_all add: same_data_def set_material_def reset_transparent_def reset_material_def reset_color_def)

lemma same_data_extend:
  assumes "same_data g g'"
  shows "same_data (extend_transparent d g) (extend_transparent d g')"
    "same_data (extend_color d g) (extend_color d g')" "same_data (extend_material d g) (extend_material d g')"
  using assms
  by (simp_all add: same_data_def extend_transparent_def extend_color_def extend_material_def buffer_same_extend)

lemma same_data_append:
  assumes "same_data g g'"
  shows "same_data (snd (patch_append (b, g))) (snd (patch_append (b, g')))"
  using assms by (simp add: patch_append_def same_data_def buffer_same_extend)

lemma same_data_notRendered: "same_data (snd (patch_notRendered (b, g))) g' \<longleftrightarrow> same_data g g'"
  by (simp add: patch_notRendered_def same_data_def)

lemma same_data_MaterialIndex: "same_data (g\<lparr>MaterialIndex := n\<rparr>) g' \<longleftrightarrow> same_data g g'"
  by (simp add: same_data_def)

lemmas same_data_simps = same_data_left same_data_right same_data_notRendered same_data_MaterialIndex

section \<open>Curved objects\<close>

text \<open>What a tessellator queues is what it appends later.\<close>

locale caching_tessellator = tessellator +
  assumes tess_appends: "ratio \<noteq> 0 \<Longrightarrow> length p = n \<Longrightarrow> tess p st ratio Tr cs (b, g) = Some (b', g') \<Longrightarrow>
    same_data g g2 \<Longrightarrow> same_data g' (snd (patch_append (b', g2)))"

lemma patch_queue_appended:
  assumes render: "\<And>straight cs b g. 0 < bp_res2 b \<Longrightarrow>
      \<exists>b'. render p straight cs (b, g) = Some (patch_append (b', g)) \<and>
        added (transparent b \<or> color b) (MaterialIndex g) (b\<lparr>epsilon := patch_epsilon p\<rparr>) b'"
    and "ratio \<noteq> 0" and "patch_queue render p straight ratio Tr cs (b, g) = Some (b', g')" and "same_data g g2"
  shows "same_data g' (snd (patch_append (b', g2)))"
proof -
  obtain b1 g0 where q: "Some (b', g') = Some (patch_append (b1, g0))"
    and g0: "g0 = (snd (patch_notRendered (b1, g)))\<lparr>MaterialIndex := queue_material Tr (cs \<noteq> None) (materialIndex g)\<rparr>"
    using patch_queue_result [where render = render and p = p and straight = straight and Tr = Tr and cs = cs
      and b = b and g = g, OF render assms(2)] assms(3) by auto
  then have "b' = b1" "g' = snd (patch_append (b1, g0))" by (auto simp: patch_append_def)
  moreover have "same_data g0 g2" using assms(4) by (simp add: g0 same_data_simps)
  ultimately show ?thesis using same_data_append by simp
qed

interpretation patches_cached: caching_tessellator "BezierPatch_queue pv" 16 for pv
  by unfold_locales (unfold BezierPatch_queue_def, rule patch_queue_appended, erule patch_render_result)

interpretation triangles_cached: caching_tessellator "BezierTriangle_queue pv" 10 for pv
  by unfold_locales (unfold BezierTriangle_queue_def, rule patch_queue_appended, erule triangle_render_result)

text \<open>A second call on what a call leaves.\<close>

definition repeats :: "(bool \<Rightarrow> members \<times> render_globals \<Rightarrow> (members \<times> render_globals) option) \<Rightarrow> (members \<Rightarrow> bool) \<Rightarrow> bool" where
  "repeats q P \<longleftrightarrow> (\<forall>rm x g x1 g1 g2. q rm (x, g) = Some (x1, g1) \<longrightarrow> P x1 \<longrightarrow> same_data g g2 \<longrightarrow>
     (\<exists>g3. q False (x1, g2) = Some (x1, g3) \<and> same_data g1 g3))"

lemma repeatsI:
  assumes "\<And>rm x g x1 g1 g2. q rm (x, g) = Some (x1, g1) \<Longrightarrow> P x1 \<Longrightarrow> same_data g g2 \<Longrightarrow>
    \<exists>g3. q False (x1, g2) = Some (x1, g3) \<and> same_data g1 g3"
  shows "repeats q P"
  using assms by (auto simp: repeats_def)

lemma patch_append_sel: "patch_append (b, g) = (b, snd (patch_append (b, g)))"
  by (simp add: patch_append_def)

lemma cull_bezier_off: "cull_bezier Tr (x, g) = (x', g') \<Longrightarrow> \<not> bp_Onscreen (mo_S x')"
  by (auto simp: cull_bezier_def patch_notRendered_def)

context caching_tessellator
begin

text \<open>The common end of both methods.\<close>

lemma tess_cached:
  assumes "viewable a" and "length p = n" and "\<And>S. mo_S (f x S) = S"
    and "Option.bind (scene_ratio a) (\<lambda>ratio. map_option (\<lambda>(S, g1). (f x S, g1)) (tess p st ratio Tr cs (mo_S x, g))) =
      Some (x1, g1)" and "same_data g g2"
  shows "\<exists>S. x1 = f x S \<and> same_data g1 (snd (patch_append (mo_S x1, g2)))"
proof -
  obtain r where r: "scene_ratio a = Some r" "r \<noteq> 0" using scene_ratio_ok [OF assms(1)] .
  with assms(4) obtain S where "tess p st r Tr cs (mo_S x, g) = Some (S, g1)" "x1 = f x S" by auto
  with tess_appends [OF r(2) assms(2) this(1) assms(5)] assms(3) show ?thesis by auto
qed

lemma bezier_repeats:
  assumes a: "viewable a" "a_mode a \<noteq> DRAWMODE_OUTLINE" and p: "length p = n"
  shows "repeats (bezier_QueueMesh tess edges a p mi) (bp_Onscreen \<circ> mo_S)"
proof (rule repeatsI, unfold comp_def)
  fix rm and x :: members and g x1 g1 g2
  assume run: "bezier_QueueMesh tess edges a p mi rm (x, g) = Some (x1, g1)" and on: "bp_Onscreen (mo_S x1)"
    and g2: "same_data g g2"
  let ?g = "set_material mi g" and ?g2 = "set_material mi g2" and ?Tr = "material_transparent a mi"
  have same: "same_data ?g ?g2" using g2 by (simp add: same_data_simps)
  have fast: "bezier_QueueMesh tess edges a p mi False (x1, g2) = Some (x1, snd (patch_append (mo_S x1, ?g2)))"
    if "\<not> box_offscreen a (mo_Min x1) (mo_Max x1)"
  proof -
    obtain G where "patch_append (mo_S x1, ?g2) = (mo_S x1, G)" by (simp add: patch_append_def)
    with that on a(2) show ?thesis by (simp add: bezier_QueueMesh_def Let_def)
  qed
  show "\<exists>g3. bezier_QueueMesh tess edges a p mi False (x1, g2) = Some (x1, g3) \<and> same_data g1 g3"
  proof (cases rule: four_ways [where A = "box_offscreen a (mo_Min x) (mo_Max x)" and
      B = "a_mode a = DRAWMODE_OUTLINE" and C = "\<not> rm \<and> bp_Onscreen (mo_S x)"])
    case off
    with run on show ?thesis
      by (auto simp: bezier_QueueMesh_def Let_def dest: cull_bezier_off split: prod.splits)
  next
    case out
    with a(2) show ?thesis by simp
  next
    case fast': fast
    then have "x1 = x" "g1 = snd (patch_append (mo_S x, ?g))"
      using run patch_append_sel [of "mo_S x" ?g] by (auto simp: bezier_QueueMesh_def Let_def split: prod.splits)
    with fast fast'(1) same_data_append [OF same] show ?thesis by simp
  next
    case full
    let ?f = "\<lambda>x S. x\<lparr>mo_S := S, mo_fullyOnscreen := bp_Onscreen S,
        mo_isTransparent := (if a_mode a = DRAWMODE_NORMAL then transparent S else mo_isTransparent x)\<rparr>"
    have "Option.bind (scene_ratio a) (\<lambda>ratio. map_option (\<lambda>(S, g1). (?f x S, g1))
        (tess p False ratio ?Tr None (mo_S x, ?g))) = Some (x1, g1)"
      using run full by (cases rm) (simp_all add: bezier_QueueMesh_def Let_def)
    from tess_cached [where f = ?f and x = x, OF a(1) p _ this same] obtain S where
      "x1 = ?f x S" "same_data g1 (snd (patch_append (mo_S x1, ?g2)))" by auto
    with fast full(1) show ?thesis by simp
  qed
qed

lemma colored_repeats:
  assumes a: "viewable a" "a_mode a \<noteq> DRAWMODE_OUTLINE" and p: "length p = n"
  shows "repeats (colored_QueueMesh tess outline a p mi cs) (bp_Onscreen \<circ> mo_S)"
proof (rule repeatsI, unfold comp_def)
  fix rm and x :: members and g x1 g1 g2
  assume run: "colored_QueueMesh tess outline a p mi cs rm (x, g) = Some (x1, g1)" and on: "bp_Onscreen (mo_S x1)"
    and g2: "same_data g g2"
  let ?g = "set_material mi g" and ?g2 = "set_material mi g2"
  let ?Tr = "a_mode a = DRAWMODE_NORMAL \<and> alpha_sum cs < real (length cs)"
  have same: "same_data ?g ?g2" using g2 by (simp add: same_data_simps)
  have fast: "colored_QueueMesh tess outline a p mi cs False (x1, g2) = Some (x1, snd (patch_append (mo_S x1, ?g2)))"
    if "\<not> box_offscreen a (mo_Min x1) (mo_Max x1)"
  proof -
    obtain G where "patch_append (mo_S x1, ?g2) = (mo_S x1, G)" by (simp add: patch_append_def)
    with that on a(2) show ?thesis by (simp add: colored_QueueMesh_def Let_def)
  qed
  show "\<exists>g3. colored_QueueMesh tess outline a p mi cs False (x1, g2) = Some (x1, g3) \<and> same_data g1 g3"
  proof (cases rule: four_ways [where A = "box_offscreen a (mo_Min x) (mo_Max x)" and
      B = "a_mode a = DRAWMODE_OUTLINE" and C = "\<not> rm \<and> bp_Onscreen (mo_S x)"])
    case off
    with run on a(2) show ?thesis
      by (auto simp: colored_QueueMesh_def Let_def dest: cull_bezier_off)
  next
    case out
    with a(2) show ?thesis by simp
  next
    case fast': fast
    then have "x1 = x" "g1 = snd (patch_append (mo_S x, ?g))"
      using run patch_append_sel [of "mo_S x" ?g] by (auto simp: colored_QueueMesh_def Let_def split: prod.splits)
    with fast fast'(1) same_data_append [OF same] show ?thesis by simp
  next
    case full
    let ?f = "\<lambda>x S. x\<lparr>mo_S := S, mo_fullyOnscreen := bp_Onscreen S\<rparr>"
    have "Option.bind (scene_ratio a) (\<lambda>ratio. map_option (\<lambda>(S, g1). (?f x S, g1))
        (tess p False ratio ?Tr (Some cs) (mo_S x, ?g))) = Some (x1, g1)"
      using run full by (cases rm) (simp_all add: colored_QueueMesh_def Let_def)
    from tess_cached [where f = ?f and x = x, OF a(1) p _ this same] obtain S where
      "x1 = ?f x S" "same_data g1 (snd (patch_append (mo_S x1, ?g2)))" by auto
    with fast full(1) show ?thesis by simp
  qed
qed

end

section \<open>Straight objects and groups\<close>

lemma straight_repeats:
  assumes "a_mode a \<noteq> DRAWMODE_OUTLINE"
  shows "repeats (straight_QueueMesh a vs ci mi) (\<lambda>x. mo_onscreen x \<and> ci = 0)"
proof (rule repeatsI)
  fix rm and x :: members and g x1 g1 g2
  assume run: "straight_QueueMesh a vs ci mi rm (x, g) = Some (x1, g1)" and on: "mo_onscreen x1 \<and> ci = 0"
    and g2: "same_data g g2"
  let ?off = "case straight_box vs of (mn, mx) \<Rightarrow> box_offscreen a mn mx" and ?g2 = "set_material mi g2"
  have off: "\<not> ?off" using run on by (auto simp: straight_QueueMesh_def Let_def)
  let ?g3 = "(if mo_S_color x1 then extend_transparent else extend_material) (mo_list x1) ?g2"
  have fast: "straight_QueueMesh a vs ci mi False (x1, g2) = Some (x1, ?g3)"
    unfolding straight_QueueMesh_def prod.case Let_def using off on assms by simp
  have "same_data g1 ?g3"
    using run off assms g2
    by (auto simp: straight_QueueMesh_def Let_def same_data_simps split: if_splits intro!: same_data_extend)
  with fast show "\<exists>g3. straight_QueueMesh a vs ci mi False (x1, g2) = Some (x1, g3) \<and> same_data g1 g3" by blast
qed

lemma colored_straight_repeats:
  assumes "a_mode a \<noteq> DRAWMODE_OUTLINE"
  shows "repeats (colored_straight_QueueMesh a vs ci mi cs) (\<lambda>x. mo_onscreen x \<and> ci = 0)"
proof (rule repeatsI)
  fix rm and x :: members and g x1 g1 g2
  assume run: "colored_straight_QueueMesh a vs ci mi cs rm (x, g) = Some (x1, g1)" and on: "mo_onscreen x1 \<and> ci = 0"
    and g2: "same_data g g2"
  let ?off = "case straight_box vs of (mn, mx) \<Rightarrow> box_offscreen a mn mx" and ?g2 = "set_material mi g2"
  let ?Tr = "a_mode a = DRAWMODE_NORMAL \<and> alpha_sum cs < real (length cs)"
  have off: "\<not> ?off" using run on by (auto simp: colored_straight_QueueMesh_def Let_def)
  let ?g3 = "(if ?Tr then extend_transparent else extend_color) (mo_list x1) ?g2"
  have fast: "colored_straight_QueueMesh a vs ci mi cs False (x1, g2) = Some (x1, ?g3)"
    unfolding colored_straight_QueueMesh_def prod.case Let_def using off on assms by simp
  have "same_data g1 ?g3"
    using run off assms g2
    by (auto simp: colored_straight_QueueMesh_def Let_def same_data_simps split: if_splits intro!: same_data_extend)
  with fast show "\<exists>g3. colored_straight_QueueMesh a vs ci mi cs False (x1, g2) = Some (x1, g3) \<and> same_data g1 g3" by blast
qed

lemma group_repeats:
  assumes "a_mode a \<noteq> DRAWMODE_OUTLINE"
  shows "repeats (group_QueueMesh a tg) (\<lambda>x. mo_fullyOnscreen x \<and> tg_centerIndex tg = 0 \<and> tg_nC tg = 0)"
proof (rule repeatsI)
  fix rm and x :: members and g x1 g1 g2
  assume run: "group_QueueMesh a tg rm (x, g) = Some (x1, g1)"
    and on: "mo_fullyOnscreen x1 \<and> tg_centerIndex tg = 0 \<and> tg_nC tg = 0" and g2: "same_data g g2"
  let ?none = "tg_nI tg = 0 \<or> tg_nP tg = 0" and ?g2 = "set_material (tg_materialIndex tg) g2"
  show "\<exists>g3. group_QueueMesh a tg False (x1, g2) = Some (x1, g3) \<and> same_data g1 g3"
  proof (cases ?none)
    case True
    with run g2 show ?thesis by (auto simp: group_QueueMesh_def Let_def same_data_simps)
  next
    case False
    then have off: "\<not> box_offscreen a (a_min a) (a_max a)"
      using run on assms by (auto simp: group_QueueMesh_def Let_def)
    let ?g3 = "(if material_transparent a (tg_materialIndex tg) then extend_transparent else extend_color) (mo_vertexData x1) ?g2"
    have fast: "group_QueueMesh a tg False (x1, g2) = Some (x1, ?g3)"
      unfolding group_QueueMesh_def prod.case Let_def using off on assms False by simp
    have "same_data g1 ?g3"
      using run off assms g2 on False
      by (auto simp: group_QueueMesh_def Let_def same_data_simps bind_eq_Some_conv split: if_splits intro!: same_data_extend)
    with fast show ?thesis by blast
  qed
qed

section \<open>Properties of the cached meshes\<close>

text \<open>An object that the next frame takes from its cache: it was fully on the screen, is no billboard
  (Bezier objects do not ask), and is of a class that caches what it appended.\<close>

fun cached :: "mesh_object \<Rightarrow> members \<Rightarrow> bool" where
  "cached (V3dBezierPatch _ _ _) x \<longleftrightarrow> bp_Onscreen (mo_S x)"
| "cached (V3dBezierTriangle _ _ _) x \<longleftrightarrow> bp_Onscreen (mo_S x)"
| "cached (V3dBezierPatchWithCornerColors _ _ _ _) x \<longleftrightarrow> bp_Onscreen (mo_S x)"
| "cached (V3dBezierTriangleWithCornerColors _ _ _ _) x \<longleftrightarrow> bp_Onscreen (mo_S x)"
| "cached (V3dStraightPlanarQuad _ ci _) x \<longleftrightarrow> mo_onscreen x \<and> ci = 0"
| "cached (V3dStraightTriangle _ ci _) x \<longleftrightarrow> mo_onscreen x \<and> ci = 0"
| "cached (V3dStraightPlanarQuadWithCornerColors _ ci _ _) x \<longleftrightarrow> mo_onscreen x \<and> ci = 0"
| "cached (V3dStraightTriangleWithCornerColors _ ci _ _) x \<longleftrightarrow> mo_onscreen x \<and> ci = 0"
| "cached (V3dTriangleGroup tg) x \<longleftrightarrow> mo_fullyOnscreen x \<and> tg_centerIndex tg = 0 \<and> tg_nC tg = 0"
| "cached _ x \<longleftrightarrow> False"

lemma object_repeats:
  assumes a: "viewable a" "a_mode a \<noteq> DRAWMODE_OUTLINE" and ob: "sizes_ok ob"
  shows "repeats (QueueMesh a ob) (cached ob)"
proof (cases ob)
  case (V3dBezierPatch p ci mi)
  with ob patches_cached.bezier_repeats [OF a] show ?thesis
    by (simp add: QueueMesh.simps [abs_def] V3dBezierPatch_QueueMesh_def comp_def cached.simps [abs_def])
next
  case (V3dBezierTriangle p ci mi)
  with ob triangles_cached.bezier_repeats [OF a] show ?thesis
    by (simp add: QueueMesh.simps [abs_def] V3dBezierTriangle_QueueMesh_def comp_def cached.simps [abs_def])
next
  case (V3dBezierPatchWithCornerColors p ci mi cs)
  with ob patches_cached.colored_repeats [OF a] show ?thesis
    by (simp add: QueueMesh.simps [abs_def] V3dBezierPatchWithCornerColors_QueueMesh_def comp_def cached.simps [abs_def])
next
  case (V3dBezierTriangleWithCornerColors p ci mi cs)
  with ob triangles_cached.colored_repeats [OF a] show ?thesis
    by (simp add: QueueMesh.simps [abs_def] V3dBezierTriangleWithCornerColors_QueueMesh_def comp_def cached.simps [abs_def])
qed (use a(2) in \<open>simp_all add: QueueMesh.simps [abs_def] cached.simps [abs_def] straight_repeats
    colored_straight_repeats group_repeats, simp_all add: repeats_def\<close>)


text \<open>A view that projects every point to the centre of the screen.\<close>

definition centre_args :: mesh_args where
  "centre_args = sample_args\<lparr>a_pv := (\<lambda>i. if i = 15 then 1 else 0)\<rparr>"

lemma centre_viewable: "viewable centre_args" "a_mode centre_args \<noteq> DRAWMODE_OUTLINE"
  by (simp_all add: centre_args_def viewable_def sample_args_def)

lemma centre_onscreen: "\<not> bbox2_offscreen (bbox2_points (a_pv centre_args) vs)"
proof -
  let ?B = "\<lparr>b2x = 0, b2y = 0, b2X = 0, b2Y = 0\<rparr>" and ?pv = "\<lambda>i :: nat. if i = 15 then 1 else 0 :: real"
  have "bbox2_bounds ?pv v ?B = ?B" for v by (simp add: bbox2_bounds_def Transform2T_def Let_def)
  then have "fold (bbox2_bounds ?pv) us ?B = ?B" for us by (induction us) simp_all
  then have "bbox2_points ?pv vs = ?B" by (simp add: bbox2_points_def bbox2_Bounds_def Transform2T_def Let_def)
  then show ?thesis by (simp add: centre_args_def bbox2_offscreen_def Let_def)
qed


section \<open>Curves change their buffer\<close>

lemma curve_QueueMesh_first:
  assumes "viewable a" and "curve_QueueMesh a p 0 mi True (x, g) = Some (x1, g1)" and "mo_fullyOnscreen x1"
  shows "\<not> box_offscreen a (mo_Min x) (mo_Max x) \<and> mo_Min x1 = mo_Min x \<and> mo_Max x1 = mo_Max x \<and>
    materialVertices (mo_vertexData x1) \<noteq> [] \<and> materialData g1 = materialData g \<and>
    lineData g1 = extendMaterial (mo_vertexData x1) ((lineData g)\<lparr>renderCount := 0\<rparr>)"
proof -
  let ?g = "set_material mi g"
  obtain r where r: "scene_ratio a = Some r" "r \<noteq> 0" using scene_ratio_ok [OF assms(1)] .
  have on: "\<not> box_offscreen a (mo_Min x) (mo_Max x)"
    using assms(2,3) by (auto simp: curve_QueueMesh_def cull_curve_def Let_def)
  obtain b' g' where "BezierCurve_queue (a_pv a) (p ! 0, p ! 1, p ! 2, p ! 3) False r (BezierCurve_new, ?g) = Some (b', g')"
    "materialVertices (bc_data b') \<noteq> []"
    "g' = (curve_notRendered ?g)\<lparr>MaterialIndex := materialIndex ?g,
      lineData := extendMaterial (bc_data b') ((lineData ?g)\<lparr>renderCount := 0\<rparr>)\<rparr>"
    using curve_queue_grown [OF r(2)] by blast
  with on assms(2) r(1) show ?thesis
    by (auto simp: curve_QueueMesh_def queue_curve_def Let_def set_material_def curve_notRendered_def)
qed

text \<open>C7: a Bezier curve that lies inside the screen is drawn as lines by the frame that tessellates
  it, but the frames that take it from its cache append its vertices to the material buffer, which is
  drawn as triangles, and leave the line buffer alone.\<close>

theorem curve_cached_as_triangles:
  assumes "viewable a" and "QueueMesh a (V3dBezierCurve p 0 mi) True (x, g) = Some (x1, g1)"
    and "mo_fullyOnscreen x1"
  shows "\<exists>vs g3. vs \<noteq> [] \<and>
    materialVertices (lineData g1) = materialVertices (lineData g) @ vs \<and>
    materialData g1 = materialData g \<and>
    QueueMesh a (V3dBezierCurve p 0 mi) False (x1, g2) = Some (x1, g3) \<and> lineData g3 = lineData g2 \<and>
    materialVertices (materialData g3) = materialVertices (materialData g2) @ vs"
proof -
  have "curve_QueueMesh a p 0 mi True (x, g) = Some (x1, g1)" using assms(2) by simp
  note first = curve_QueueMesh_first [OF assms(1) this assms(3)]
  let ?g3 = "extend_material (mo_vertexData x1) (set_material mi g2)"
  have "QueueMesh a (V3dBezierCurve p 0 mi) False (x1, g2) = Some (x1, ?g3)"
    using first assms(3) by (simp add: curve_QueueMesh_def Let_def)
  moreover have "lineData ?g3 = lineData g2"
    "materialVertices (materialData ?g3) = materialVertices (materialData g2) @ materialVertices (mo_vertexData x1)"
    by (simp_all add: extend_material_def set_material_def extendMaterial_def)
  ultimately show ?thesis using first by (intro exI [of _ "materialVertices (mo_vertexData x1)"] exI [of _ ?g3])
    (simp add: extendMaterial_def)
qed

theorem curve_cached_as_triangles_witness:
  "\<exists>x1 g1 g3 vs. vs \<noteq> [] \<and>
     QueueMesh centre_args (V3dBezierCurve (replicate 4 0) 0 0) True
       (object_members (V3dBezierCurve (replicate 4 0) 0 0), empty_globals) = Some (x1, g1) \<and>
     materialVertices (lineData g1) = vs \<and>
     QueueMesh centre_args (V3dBezierCurve (replicate 4 0) 0 0) False (x1, empty_globals) = Some (x1, g3) \<and>
     materialVertices (lineData g3) = [] \<and> materialVertices (materialData g3) = vs"
proof -
  let ?ob = "V3dBezierCurve (replicate 4 0) 0 0 :: mesh_object" and ?g = "set_material 0 empty_globals"
    and ?pv = "\<lambda>i :: nat. if i = 15 then 1 else 0 :: real"
  obtain r where r: "scene_ratio centre_args = Some r" "r \<noteq> 0" using scene_ratio_ok [OF centre_viewable(1)] .
  have "0 < r * r" using r(2) by (metis not_real_square_gt_zero)
  then have "\<exists>S g1. BezierCurve_queue ?pv (0, 0, 0, 0) False r (BezierCurve_new, ?g) = Some (S, g1) \<and> Onscreen S"
    by (simp add: BezierCurve_queue_def BezierCurve_init_def BezierCurve_render_def
        curve_add_eq render_indexed.simps [of _ _ "(0, 0, 0, 0)"] Straightness_def abs2_def third_def
        curve_offscreen_def bbox2_offscreen_def bbox2_points_def bbox2_Bounds_def bbox2_bounds_def
        Transform2T_def push_segment_def curve_append_def BezierCurve_new_def empty_globals_def VertexBuffer_new_def
        VertexBuffer_clear_def curve_notRendered_def pixelResolution_def extended_def set_material_def Let_def)
  then obtain S g1 where q: "BezierCurve_queue ?pv (0, 0, 0, 0) False r (BezierCurve_new, ?g) = Some (S, g1)" "Onscreen S"
    by blast
  have pv: "a_pv centre_args = ?pv" by (simp add: centre_args_def)
  have "\<not> box_offscreen centre_args (mo_Min (object_members ?ob)) (mo_Max (object_members ?ob))"
    unfolding box_offscreen_def bbox2_box_def by (rule centre_onscreen)
  with r(1) q obtain x1 where "QueueMesh centre_args ?ob True (object_members ?ob, empty_globals) = Some (x1, g1)"
    "mo_fullyOnscreen x1"
    by (simp add: curve_QueueMesh_def queue_curve_def Let_def numeral_nat pv)
  moreover have "materialVertices (lineData empty_globals) = []" "materialVertices (materialData empty_globals) = []"
    by (simp_all add: empty_globals_def VertexBuffer_new_def)
  ultimately show ?thesis
    using curve_cached_as_triangles [OF centre_viewable(1), of "replicate 4 0" 0 "object_members ?ob" empty_globals
      x1 g1 empty_globals] by (metis append_Nil)
qed

section \<open>Triangle groups change their buffer\<close>

text \<open>The first frame takes the colours of the vertices into account, the next one only the material: a
  group of an opaque material with clear vertices goes to the transparent triangles, which are blended,
  and from then on to the opaque ones.\<close>

lemma group_changes_buffer:
  assumes "group_QueueMesh a tg True (x, g) = Some (x1, g1)" and "mo_fullyOnscreen x1"
    and "tg_nI tg > 0" "tg_nP tg > 0" "tg_centerIndex tg = 0" "a_mode a \<noteq> DRAWMODE_OUTLINE"
    and "\<not> material_transparent a (tg_materialIndex tg)"
    and "those (map rgba_real (tg_colors tg)) = Some C" "tg_nC tg > 0" "ci \<in> set (tg_CI tg)" "group_triangle_clear C ci"
  shows "colorVertices (transparentData g1) = colorVertices (transparentData g) @ colorVertices (mo_vertexData x1)"
    and "colorVertices (colorData g1) = colorVertices (colorData g)"
    and "\<exists>g3. group_QueueMesh a tg False (x1, g2) = Some (x1, g3) \<and> transparentData g3 = transparentData g2 \<and>
      colorVertices (colorData g3) = colorVertices (colorData g2) @ colorVertices (mo_vertexData x1)"
proof -
  have clear: "\<exists>ci \<in> set (tg_CI tg). group_triangle_clear C ci" using assms(10,11) ..
  have "tg_nI tg \<noteq> 0" "tg_nP tg \<noteq> 0" "\<not> box_offscreen a (a_min a) (a_max a)"
    using assms by (auto simp: group_QueueMesh_def Let_def split: if_splits)
  note on = this
  show "colorVertices (transparentData g1) = colorVertices (transparentData g) @ colorVertices (mo_vertexData x1)"
    "colorVertices (colorData g1) = colorVertices (colorData g)"
    using assms(1,6-9) on clear
    by (auto simp: group_QueueMesh_def Let_def extend_transparent_def extendColor_def reset_color_def set_material_def)
  show "\<exists>g3. group_QueueMesh a tg False (x1, g2) = Some (x1, g3) \<and> transparentData g3 = transparentData g2 \<and>
      colorVertices (colorData g3) = colorVertices (colorData g2) @ colorVertices (mo_vertexData x1)"
    using assms(2,5-7) on
    by (auto simp: group_QueueMesh_def Let_def extend_color_def extendColor_def set_material_def)
qed

end
