(* ===== verification/Spec2Isabelle.thy ===== *)
theory Spec2Isabelle
  imports V3dWriter ManagerSystem LoadedScene MeshCache
begin

text \<open>
  Verification of the v3d plugins for Okular.

  The plugins show three-dimensional scenes in the v3d format of Asymptote inside Okular, either as
  documents of their own or embedded in PDF pages. Their own code is \<^verbatim>\<open>src/v3d-Common/\<close>; they compile
  in a few files of \<^verbatim>\<open>src/asymptote/\<close> (streams, points, bounds, tessellation), and the exporter of
  Asymptote (\<^verbatim>\<open>v3dfile.cc\<close>) defines the format they read. A document goes through four stages:

  \<^item> \<open>V3dFile\<close> loads the bytes of a scene into objects, materials, centers and a header;
  \<^item> \<open>V3dModel\<close> holds the view of a scene (zoom, rotation, projection), and \<open>V3dModelManager\<close> the
    models of a document, the mouse and keyboard events, the refreshes of Okular's pixmaps and the
    environment maps;
  \<^item> \<open>RenderModel\<close> prepares a view and lets every object queue its triangles, lines and points
    (\<open>QueueMesh\<close>), for which Bezier curves and patches are subdivided to the resolution of the image;
  \<^item> the Vulkan renderer draws the buffers, and the bytes it returns become an image of the page.


  \<^bold>\<open>Theories.\<close>

  \<^item> \<open>Prelude\<close>: words, IEEE floats as bit patterns, byte codecs, vectors of glm, indeterminate members
    as options, and the shared lemmas and collections.
  \<^item> \<open>XStream\<close> (\<^verbatim>\<open>xstream.h\<close>, \<^verbatim>\<open>xstream.cc\<close>, \<^verbatim>\<open>win32xdr.*\<close>): the XDR streams, with the locale of a codec and
    its interpretations for the five types of the format.
  \<^item> \<open>V3dObjects\<close>, \<open>V3dFile\<close> (\<^verbatim>\<open>V3dObjects.*\<close>, \<^verbatim>\<open>V3dFile.*\<close>, \<^verbatim>\<open>V3dHeaderInfo.h\<close>, \<^verbatim>\<open>V3dUtil.cpp\<close>): the object
    classes, their stream constructors, the header entries and the load loop. Results: what is read
    and stored is bounded by the size of the file; only the last item can be incomplete; unknown
    header entries are skipped.
  \<^item> \<open>V3dWriter\<close> (\<^verbatim>\<open>v3dfile.*\<close>, \<^verbatim>\<open>abs3doutfile.h\<close>): the exporter, and the round trip: loading what it writes
    gives back the scene (lemma \<open>export_load\<close>, also for the scenes of \<open>LoadedScene\<close>).
  \<^item> \<open>IblNames\<close> (parts of \<^verbatim>\<open>V3dModelManager.cpp\<close>, \<^verbatim>\<open>settings.cc\<close>): names of environment maps. Results: an
    accepted name stays below the image library and is free of control characters; a map is only
    resolved to a complete directory.
  \<^item> \<open>V3dModel\<close> (\<^verbatim>\<open>V3dModel.*\<close>, \<^verbatim>\<open>Arcball.*\<close>): view and drags. Results: aspect of the frustum, zoom
    limits, undoing of drags, and a drag that makes the rotation undefined.
  \<^item> \<open>ModelManager\<close>, \<open>ManagerEvents\<close>, \<open>ManagerRender\<close> (\<^verbatim>\<open>V3dModelManager.*\<close>, \<^verbatim>\<open>EventFilter.cpp\<close>,
    \<^verbatim>\<open>ApplicationEventFilter.cpp\<close>): the state of the manager, every handler, the refresh logic,
    \<open>RenderModel\<close>, prompts and downloads. \<open>ManagerSystem\<close> puts the entry points together as a step
    relation and proves an invariant of all reachable states, the absence of null and dangling
    dereferences in the handlers, and the refinement of the drag logic to a small automaton.
  \<^item> \<open>Triple\<close>, \<open>Bezier\<close> (\<^verbatim>\<open>triple.h\<close>, \<^verbatim>\<open>bound.*\<close>, bounds in \<^verbatim>\<open>V3dObjects.cpp\<close>): points, subdivision and
    boxes. Results: how tight the boxes of patches and triangles are, and where that of a curve is not.
  \<^item> \<open>VertexBuffer\<close> (\<^verbatim>\<open>render.h\<close>, \<^verbatim>\<open>bbox2.h\<close>): the six shared buffers and the projected boxes; the locale
    \<open>vertex_kind\<close> is interpreted for the three kinds of vertices.
  \<^item> \<open>BezierCurve\<close>, \<open>BezierPatch\<close> (\<^verbatim>\<open>beziercurve.*\<close>, \<^verbatim>\<open>bezierpatch.*\<close>): the adaptive subdivision. Results:
    it ends at every resolution but 0, a rendered curve is close to the true one, and exactly one
    buffer grows by valid triangles of the right material.
  \<^item> \<open>Primitives\<close> (\<^verbatim>\<open>V3dObjects.cpp\<close>): spheres, disks, cylinders and tubes as Bezier objects. Results:
    points of spheres lie on the sphere, tubes are rings around their curve.
  \<^item> \<open>Mesh\<close>, \<open>MeshFrames\<close> (\<^verbatim>\<open>QueueMesh\<close> in \<^verbatim>\<open>V3dObjects.cpp\<close>, \<^verbatim>\<open>V3dFile.cpp\<close>, and \<open>clearData\<close> in \<open>RenderModel\<close>):
    queueing all objects over any sequence of frames. The locale \<open>tessellator\<close> is the contract of the
    two tessellators. Results: every frame of every file whose scene has an extent returns and
    leaves sound buffers.
  \<^item> \<open>MeshCache\<close>: the frames that take an object from its cache. Results: they queue what a new
    tessellation would (the locale \<open>caching_tessellator\<close> extends \<open>tessellator\<close>), except for curves and
    for triangle groups that are transparent only by their colours, which change their buffer.
  \<^item> \<open>LoadedScene\<close>: the stages put together, from the bytes of a file through \<open>load\<close>, the bounds and
    matrices of \<open>RenderModel\<close> and \<open>QueueMesh\<close> to the buffers. Results: every sequence of requests for a
    loaded scene with an extent returns and leaves sound buffers; in perspective a scene whose box
    begins at \<open>z = 0\<close> makes the subdivision run forever.


  \<^bold>\<open>How the code is modelled.\<close>

  \<^item> An object of a class is a record, a class hierarchy a datatype. A member function takes the object
    and the globals it touches and returns them updated. Static variables (\<open>lastPage\<close>, the timer of
    the refreshes) are fields of the manager, globals of Asymptote the record \<open>render_globals\<close>.
  \<^item> A scalar member that no statement has written is \<^term>\<open>None\<close> in a cell. A result \<^term>\<open>None\<close> of an
    operation is a run with undefined behaviour: a null or dangling pointer, a read out of range, a
    branch on an indeterminate value, a value that is not a real number, or a run that does not end.
  \<^item> Effects on Okular and Qt (requested pixmaps, timers, dialogs, network requests) are values in a list.
  \<^item> What Qt, Okular, glm, Vulkan, the file system and the network report are arguments of the
    definitions, often collected in a record; nothing is assumed of them except in the hypotheses
    of a theorem, and the witness of that theorem has a concrete one.
  \<^item> Loading and writing work on bit patterns: conversions between float and double are exact, with
    rounding, infinities and NaNs. The geometry (views, subdivision, queueing) works over real numbers:
    rounding is not modelled there, so its results are about the algorithms, and a division by zero
    is \<^term>\<open>None\<close> or excluded where the code can reach it.
  \<^item> There is no fuel: the load loop has a termination measure (the bytes that are left), and the
    recursions of the tessellators are \<open>partial_function\<close>s in the option monad, which are proved to
    return because each subdivision halves the differences of the control points; only at the
    resolution 0 they need not (\<open>flat_scene_diverges\<close>).
  \<^item> Indices are 32-bit words; where a buffer may outgrow them a hypothesis or the predicate \<open>sound\<close>
    says so.
  \<^item> \<open>AddModel\<close> is taken as a step only while no drag is going on, as the generators call it while a
    document is loaded; the projection divides by the zoom, which is bounded away from zero.


  \<^bold>\<open>Not modelled.\<close>

  \<^item> The headless Vulkan renderer and \<^verbatim>\<open>VulkanTools\<close>: calls of the Vulkan API; what the renderer returns is
    an argument of \<open>RenderModel\<close>, and what it is given are the buffers of \<open>MeshFrames\<close>.
  \<^item> The generators in \<^verbatim>\<open>src/build/\<close>: copies of Okular's sources with a few calls of the manager, each of
    which is a step of \<open>ManagerSystem\<close>.
  \<^item> \<^verbatim>\<open>gzip-hpp\<close> and zlib, which unpack embedded scenes: third-party code.
  \<^item> The rest of Asymptote (compiler, interactive renderer, libraries under \<^verbatim>\<open>backports\<close>): not part of the
    plugins.
  \<^item> Messages and logs, apart from the escaping of rejected names.
\<close>

end
